(* ===== verification/GoPrelude.thy ===== *)
theory GoPrelude
  imports Complex_Main "HOL-Library.Word" "HOL-Library.Sublist"
begin

text \<open>
  Shared base of the development: the collections of rewrite rules the component theories
  use, generic lemmas on lists, options and maps, and the interface of a state machine with
  an invariant.  A component whose state is changed by events interprets
  \<open>invariant_machine\<close> on its own step function and gets the statement about whole
  runs from the one about single steps.
\<close>

named_theorems go_lib "evaluation rules of the modelled Go library functions"
named_theorems step_simps "unfolding rules of the step functions of the components"

section \<open>Lists\<close>

text \<open>Go's go_slice expression \<^verbatim>\<open>s[a:b]\<close>, used only with \<open>a \<le> b \<le> len s\<close>.\<close>

definition go_slice :: "'a list \<Rightarrow> nat \<Rightarrow> nat \<Rightarrow> 'a list" where
  "go_slice s a b = take (b - a) (drop a s)"

lemma go_slice_all [simp]: "go_slice s 0 (length s) = s"
  by (simp add: go_slice_def)

lemma go_slice_empty [simp]: "go_slice s a a = []"
  by (simp add: go_slice_def)

lemma go_slice_snoc:
  assumes "a \<le> i" "i < length s"
  shows "go_slice s a (Suc i) = go_slice s a i @ [s ! i]"
proof -
  have "Suc i - a = Suc (i - a)" using assms by simp
  moreover have "i - a < length (drop a s)" using assms by simp
  moreover have "drop a s ! (i - a) = s ! i" using assms by simp
  ultimately show ?thesis by (simp add: go_slice_def take_Suc_conv_app_nth)
qed

lemma list_ex_take_drop_sublist:
  "(\<exists>i \<le> length s. take (length t) (drop i s) = t) \<longleftrightarrow> (\<exists>p q. s = p @ t @ q)"
proof
  assume "\<exists>i \<le> length s. take (length t) (drop i s) = t"
  then obtain i where "take (length t) (drop i s) = t" by blast
  then have "s = take i s @ t @ drop (length t) (drop i s)"
    by (metis append_take_drop_id)
  then show "\<exists>p q. s = p @ t @ q" by blast
next
  assume "\<exists>p q. s = p @ t @ q"
  then obtain p q where s: "s = p @ t @ q" by blast
  then have "length p \<le> length s \<and> take (length t) (drop (length p) s) = t" by simp
  then show "\<exists>i \<le> length s. take (length t) (drop i s) = t" by blast
qed

lemma fold_invariant_list:
  "P s \<Longrightarrow> (\<And>s x. x \<in> set xs \<Longrightarrow> P s \<Longrightarrow> P (f x s)) \<Longrightarrow> P (fold f xs s)"
  by (induction xs arbitrary: s) auto

section \<open>Options and maps\<close>

lemma map_upd_other: "a \<noteq> b \<Longrightarrow> (m(a \<mapsto> v)) b = m b"
  by simp

section \<open>State machines with an invariant\<close>

text \<open>
  The contract between a component and the properties of its runs: \<open>step\<close> is the
  component's reaction to one event, \<open>inv\<close> its invariant, \<open>ok\<close> what the environment
  guarantees of the next event in the current state.
\<close>

locale invariant_machine =
  fixes step :: "'s \<Rightarrow> 'e \<Rightarrow> 's"
    and ok :: "'s \<Rightarrow> 'e \<Rightarrow> bool"
    and inv :: "'s \<Rightarrow> bool"
  assumes inv_step: "inv s \<Longrightarrow> ok s e \<Longrightarrow> inv (step s e)"
begin

fun run :: "'s \<Rightarrow> 'e list \<Rightarrow> 's" where
  "run s [] = s"
| "run s (e # es) = run (step s e) es"

fun run_ok :: "'s \<Rightarrow> 'e list \<Rightarrow> bool" where
  "run_ok s [] = True"
| "run_ok s (e # es) = (ok s e \<and> run_ok (step s e) es)"

lemma run_append: "run s (xs @ ys) = run (run s xs) ys"
  by (induction xs arbitrary: s) auto

lemma run_ok_append: "run_ok s (xs @ ys) \<longleftrightarrow> run_ok s xs \<and> run_ok (run s xs) ys"
  by (induction xs arbitrary: s) auto

lemma inv_run: "inv s \<Longrightarrow> run_ok s es \<Longrightarrow> inv (run s es)"
  by (induction es arbitrary: s) (auto intro: inv_step)

lemma run_is_foldl: "run s es = foldl step s es"
  by (induction es arbitrary: s) auto

lemma run_ok_trivial: "(\<And>s e. ok s e) \<Longrightarrow> run_ok s es"
  by (induction es arbitrary: s) auto

lemma inv_foldl: "inv s \<Longrightarrow> (\<And>s e. ok s e) \<Longrightarrow> inv (foldl step s es)"
  using inv_run run_ok_trivial by (simp add: run_is_foldl)

end

end
