(* ===== verification/GoLib.thy ===== *)
theory GoLib
  imports GoPrelude
begin

text \<open>
  The functions of the Go standard library that the modelled code calls on text and
  numbers.  Strings are byte lists (\<open>char list\<close>), as Go's are; the case-insensitive
  and white-space functions treat the ASCII range, which is what the callers pass.
  A finite \<^verbatim>\<open>float64\<close> is the rational it denotes, so comparisons are exact and NaN
  compares false with everything, as in Go.
\<close>

section \<open>Strings\<close>

text \<open>\<^verbatim>\<open>strings.Split(s, sep)\<close> for a one-byte separator.\<close>

fun split_char :: "char \<Rightarrow> string \<Rightarrow> string list" where
  "split_char sep [] = [[]]"
| "split_char sep (c # cs) =
     (if c = sep then [] # split_char sep cs
      else (case split_char sep cs of
              [] \<Rightarrow> [[c]]
            | p # ps \<Rightarrow> (c # p) # ps))"

lemma split_char_nonempty [simp]: "split_char sep s \<noteq> []"
  by (induction s) (auto split: list.splits)

text \<open>The inverse of splitting: the parts joined with the separator.\<close>

fun join_char :: "char \<Rightarrow> string list \<Rightarrow> string" where
  "join_char sep [] = []"
| "join_char sep [p] = p"
| "join_char sep (p # q # ps) = p @ sep # join_char sep (q # ps)"

lemma join_split [simp]: "join_char sep (split_char sep s) = s"
proof (induction s)
  case Nil
  show ?case by simp
next
  case (Cons c cs)
  then show ?case
    by (cases "split_char sep cs"; cases "tl (split_char sep cs)") auto
qed

lemma split_char_parts: "p \<in> set (split_char sep s) \<Longrightarrow> sep \<notin> set p"
  by (induction s arbitrary: p) (auto split: list.splits if_splits)

lemma split_char_no_sep: "sep \<notin> set s \<Longrightarrow> split_char sep s = [s]"
  by (induction s) auto

lemma split_char_append:
  "split_char sep (p @ sep # q) = split_char sep p @ split_char sep q"
  by (induction p) (auto split: list.splits)

lemma split_join:
  "ps \<noteq> [] \<Longrightarrow> (\<forall>p \<in> set ps. sep \<notin> set p) \<Longrightarrow> split_char sep (join_char sep ps) = ps"
  by (induction ps rule: join_char.induct) (auto simp: split_char_no_sep split_char_append)

text \<open>\<^verbatim>\<open>strings.Contains\<close>, \<^verbatim>\<open>HasPrefix\<close>, \<^verbatim>\<open>HasSuffix\<close>.\<close>

definition str_contains :: "string \<Rightarrow> string \<Rightarrow> bool" where
  "str_contains s sub \<longleftrightarrow> (\<exists>i \<in> set [0..<Suc (length s)]. take (length sub) (drop i s) = sub)"

definition str_has_prefix :: "string \<Rightarrow> string \<Rightarrow> bool" where
  "str_has_prefix s p \<longleftrightarrow> take (length p) s = p"

definition str_has_suffix :: "string \<Rightarrow> string \<Rightarrow> bool" where
  "str_has_suffix s p \<longleftrightarrow> length p \<le> length s \<and> drop (length s - length p) s = p"

text \<open>\<^verbatim>\<open>strings.TrimPrefix\<close> and \<^verbatim>\<open>strings.TrimSuffix\<close>.\<close>

definition trim_prefix :: "string \<Rightarrow> string \<Rightarrow> string" where
  "trim_prefix s p = (if str_has_prefix s p then drop (length p) s else s)"

definition trim_suffix :: "string \<Rightarrow> string \<Rightarrow> string" where
  "trim_suffix s p = (if str_has_suffix s p then take (length s - length p) s else s)"

lemma str_contains_iff: "str_contains s sub \<longleftrightarrow> (\<exists>p q. s = p @ sub @ q)"
proof -
  have "set [0..<Suc (length s)] = {i. i \<le> length s}" by auto
  then show ?thesis
    unfolding str_contains_def list_ex_take_drop_sublist [symmetric] by auto
qed

lemma str_has_prefix_iff: "str_has_prefix s p \<longleftrightarrow> prefix p s"
  by (auto simp: str_has_prefix_def prefix_def) (metis append_take_drop_id)

lemma str_has_suffix_iff: "str_has_suffix s p \<longleftrightarrow> suffix p s"
  by (auto simp: str_has_suffix_def suffix_def) (metis append_take_drop_id)

text \<open>\<^verbatim>\<open>strings.TrimSpace\<close> on the ASCII white space.\<close>

definition is_space :: "char \<Rightarrow> bool" where
  "is_space c \<longleftrightarrow> c \<in> {CHR '' '', CHR 0x09, CHR 0x0A, CHR 0x0B, CHR 0x0C, CHR 0x0D}"

definition trim_with :: "(char \<Rightarrow> bool) \<Rightarrow> string \<Rightarrow> string" where
  "trim_with p s = rev (dropWhile p (rev (dropWhile p s)))"

definition trim_space :: "string \<Rightarrow> string" where
  "trim_space = trim_with is_space"

text \<open>ASCII \<^verbatim>\<open>strings.ToLower\<close> and \<^verbatim>\<open>strings.EqualFold\<close>.\<close>

definition lower_char :: "char \<Rightarrow> char" where
  "lower_char c = (let n = of_char c :: nat in
     if 65 \<le> n \<and> n \<le> 90 then char_of (n + 32) else c)"

definition to_lower :: "string \<Rightarrow> string" where
  "to_lower = map lower_char"

definition equal_fold :: "string \<Rightarrow> string \<Rightarrow> bool" where
  "equal_fold a b \<longleftrightarrow> to_lower a = to_lower b"

section \<open>Integers and booleans as text\<close>

definition is_digit :: "char \<Rightarrow> bool" where
  "is_digit c \<longleftrightarrow> 48 \<le> (of_char c :: nat) \<and> (of_char c :: nat) \<le> 57"

definition digit_val :: "char \<Rightarrow> nat" where
  "digit_val c = of_char c - 48"

definition digit_char :: "nat \<Rightarrow> char" where
  "digit_char d = char_of (48 + d)"

lemma digit_char_numeral [simp]:
  "digit_char 0 = CHR ''0''" "digit_char 1 = CHR ''1''" "digit_char (Suc 0) = CHR ''1''"
  "digit_char 2 = CHR ''2''" "digit_char 3 = CHR ''3''" "digit_char 4 = CHR ''4''"
  "digit_char 5 = CHR ''5''" "digit_char 6 = CHR ''6''" "digit_char 7 = CHR ''7''"
  "digit_char 8 = CHR ''8''" "digit_char 9 = CHR ''9''"
  by (simp_all add: digit_char_def char_of_eq_iff)

fun digits_val :: "nat \<Rightarrow> string \<Rightarrow> nat option" where
  "digits_val acc [] = Some acc"
| "digits_val acc (c # cs) =
     (if is_digit c then digits_val (acc * 10 + digit_val c) cs else None)"

fun nat_digits :: "nat \<Rightarrow> string" where
  "nat_digits n = (if n < 10 then [digit_char n] else nat_digits (n div 10) @ [digit_char (n mod 10)])"

declare nat_digits.simps [simp del]

text \<open>\<^verbatim>\<open>strconv.FormatInt(i, 10)\<close>.\<close>

definition format_int :: "int \<Rightarrow> string" where
  "format_int i = (if i < 0 then CHR ''-'' # nat_digits (nat (- i)) else nat_digits (nat i))"

text \<open>
  \<^verbatim>\<open>strconv.ParseInt(s, 10, 64)\<close>: an optional sign, then at least one digit and nothing
  else; a value outside the 64-bit range is an error too.  \<open>None\<close> is the error.
\<close>

definition parse_int64 :: "string \<Rightarrow> int option" where
  "parse_int64 s =
     (let neg = (s \<noteq> [] \<and> hd s = CHR ''-'');
          ds = (if s \<noteq> [] \<and> (hd s = CHR ''-'' \<or> hd s = CHR ''+'') then tl s else s)
      in if ds = [] then None
         else case digits_val 0 ds of
                None \<Rightarrow> None
              | Some n \<Rightarrow>
                  if neg then (if n \<le> 2 ^ 63 then Some (- int n) else None)
                  else (if n < 2 ^ 63 then Some (int n) else None))"

text \<open>\<^verbatim>\<open>strconv.ParseBool\<close> and \<^verbatim>\<open>strconv.FormatBool\<close>.\<close>

definition parse_bool :: "string \<Rightarrow> bool option" where
  "parse_bool s =
     (if s \<in> {''1'', ''t'', ''T'', ''true'', ''TRUE'', ''True''} then Some True
      else if s \<in> {''0'', ''f'', ''F'', ''false'', ''FALSE'', ''False''} then Some False
      else None)"

definition format_bool :: "bool \<Rightarrow> string" where
  "format_bool b = (if b then ''true'' else ''false'')"

lemma parse_format_bool: "parse_bool (format_bool b) = Some b"
  by (cases b) (simp_all add: parse_bool_def format_bool_def)

lemma digit_char_props [simp]:
  "d < 10 \<Longrightarrow> is_digit (digit_char d)"
  "d < 10 \<Longrightarrow> digit_val (digit_char d) = d"
  by (simp_all add: is_digit_def digit_char_def digit_val_def)

lemma digit_char_not_sign: "d < 10 \<Longrightarrow> digit_char d \<noteq> CHR ''-'' \<and> digit_char d \<noteq> CHR ''+''"
  by (auto simp: digit_char_def dest!: arg_cong [where f = "of_char :: char \<Rightarrow> nat"])

lemma digits_val_append:
  "digits_val acc (xs @ ys) =
     (case digits_val acc xs of None \<Rightarrow> None | Some a \<Rightarrow> digits_val a ys)"
  by (induction xs arbitrary: acc) auto

lemma digits_val_nat_digits: "digits_val 0 (nat_digits n) = Some n"
proof (induction n rule: nat_digits.induct)
  case (1 n)
  show ?case
  proof (cases "n < 10")
    case True
    then show ?thesis by (subst nat_digits.simps) simp
  next
    case False
    with 1 have "digits_val 0 (nat_digits (n div 10)) = Some (n div 10)" by simp
    with False show ?thesis
      by (subst nat_digits.simps) (simp add: digits_val_append)
  qed
qed

lemma nat_digits_hd:
  "nat_digits n \<noteq> [] \<and> hd (nat_digits n) \<noteq> CHR ''-'' \<and> hd (nat_digits n) \<noteq> CHR ''+''"
proof (induction n rule: nat_digits.induct)
  case (1 n)
  show ?case
  proof (cases "n < 10")
    case True
    then show ?thesis by (subst (1 2 3) nat_digits.simps) (simp add: digit_char_not_sign)
  next
    case False
    with 1 show ?thesis by (subst (1 2 3) nat_digits.simps) simp
  qed
qed

lemma parse_format_int:
  assumes "- (2 ^ 63) \<le> i" "i < 2 ^ 63"
  shows "parse_int64 (format_int i) = Some i"
proof (cases "i < 0")
  case True
  have "nat (- i) \<le> 2 ^ 63" using assms True by simp
  with True show ?thesis
    using nat_digits_hd [of "nat (- i)"]
    by (simp add: parse_int64_def format_int_def digits_val_nat_digits Let_def)
next
  case False
  have "nat i < 2 ^ 63" using assms False by simp
  with False show ?thesis
    using nat_digits_hd [of "nat i"]
    by (simp add: parse_int64_def format_int_def digits_val_nat_digits Let_def)
qed

section \<open>float64\<close>

datatype f64 = FNaN | FInf bool | FFin rat

fun f_less :: "f64 \<Rightarrow> f64 \<Rightarrow> bool" where
  "f_less FNaN _ = False"
| "f_less _ FNaN = False"
| "f_less (FInf p) (FInf q) = (\<not> p \<and> q)"
| "f_less (FInf p) (FFin _) = (\<not> p)"
| "f_less (FFin _) (FInf q) = q"
| "f_less (FFin x) (FFin y) = (x < y)"

fun f_eq :: "f64 \<Rightarrow> f64 \<Rightarrow> bool" where
  "f_eq FNaN _ = False"
| "f_eq _ FNaN = False"
| "f_eq a b = (a = b)"

definition f_le :: "f64 \<Rightarrow> f64 \<Rightarrow> bool" where
  "f_le a b \<longleftrightarrow> f_less a b \<or> f_eq a b"

abbreviation f_zero :: f64 where "f_zero \<equiv> FFin 0"

lemma f_le_total: "a \<noteq> FNaN \<Longrightarrow> b \<noteq> FNaN \<Longrightarrow> \<not> f_less a b \<longleftrightarrow> f_le b a"
  by (cases a; cases b) (auto simp: f_le_def)

lemma f_nan_compare [simp]:
  "\<not> f_less a FNaN" "\<not> f_less FNaN a" "\<not> f_le a FNaN" "\<not> f_le FNaN a"
  by (cases a; simp add: f_le_def)+

text \<open>
  \<^verbatim>\<open>float64(i)\<close> of a 64-bit integer: exact up to \<open>2^53\<close>, otherwise rounded to a 53-bit
  mantissa, ties to even.
\<close>

fun bit_len :: "nat \<Rightarrow> nat" where
  "bit_len n = (if n = 0 then 0 else Suc (bit_len (n div 2)))"

declare bit_len.simps [simp del]

definition round_mantissa :: "nat \<Rightarrow> nat" where
  "round_mantissa n =
     (let k = bit_len n - 53; m = n div 2 ^ k; r = n mod 2 ^ k; h = 2 ^ k div 2 in
      if k = 0 then n
      else if r < h \<or> (r = h \<and> even m) then m * 2 ^ k else (m + 1) * 2 ^ k)"

definition int_to_f64 :: "int \<Rightarrow> f64" where
  "int_to_f64 i =
     (let q = of_nat (round_mantissa (nat \<bar>i\<bar>)) in FFin (if i < 0 then - q else q))"

text \<open>
  \<^verbatim>\<open>int64(f)\<close>: truncation towards zero where the result fits; outside the range Go leaves
  the result to the implementation, so it is the parameter \<open>oob\<close>.
\<close>

definition f64_to_int64 :: "(f64 \<Rightarrow> int) \<Rightarrow> f64 \<Rightarrow> int" where
  "f64_to_int64 oob f =
     (case f of
        FFin q \<Rightarrow> (let t = (if q < 0 then \<lceil>q\<rceil> else \<lfloor>q\<rfloor>) in
                    if - (2 ^ 63) \<le> t \<and> t < 2 ^ 63 then t else oob f)
      | _ \<Rightarrow> oob f)"

text \<open>
  Rounding of an exact result to float64 (53-bit mantissa, ties to even), for results in
  the normal range: the quotient and the product of two finite floats.
\<close>

definition pow2 :: "int \<Rightarrow> rat" where
  "pow2 e = (if 0 \<le> e then 2 ^ nat e else 1 / 2 ^ nat (- e))"

definition log2_floor :: "rat \<Rightarrow> int" where
  "log2_floor q =
     (if 1 \<le> q then int (bit_len (nat \<lfloor>q\<rfloor>)) - 1
      else - int (bit_len (nat (\<lceil>1 / q\<rceil> - 1))))"

definition round_half_even :: "rat \<Rightarrow> int" where
  "round_half_even m =
     (let f = \<lfloor>m\<rfloor>; r = m - of_int f
      in if r < 1 / 2 \<or> (r = 1 / 2 \<and> even f) then f else f + 1)"

definition round_f64 :: "rat \<Rightarrow> rat" where
  "round_f64 q =
     (if q = 0 then 0
      else let e = log2_floor \<bar>q\<bar> - 52; m = of_int (round_half_even (\<bar>q\<bar> / pow2 e)) * pow2 e
           in if q < 0 then - m else m)"

definition f_div :: "rat \<Rightarrow> rat \<Rightarrow> rat" where
  "f_div a b = round_f64 (a / b)"

definition f_mul :: "rat \<Rightarrow> rat \<Rightarrow> rat" where
  "f_mul a b = round_f64 (a * b)"

lemma round_f64_pos:
  assumes "0 < q" "log2_floor q - 52 = e" "round_half_even (q / pow2 e) = m"
  shows "round_f64 q = of_int m * pow2 e"
  using assms by (simp add: round_f64_def Let_def)

text \<open>\<open>29 / 100 * 100\<close> in float64 is below 29.\<close>

lemma bit_len_3_28: "bit_len 3 = 2" "bit_len 28 = 5"
  by (simp_all add: bit_len.simps)

lemma f_div_29_100: "f_div 29 100 = 5224175567749775 / 18014398509481984"
proof -
  have c: "\<lceil>100 / 29 :: rat\<rceil> = 4" by (simp add: ceiling_eq_iff)
  have "\<lfloor>(29 / 100) / pow2 (-54) :: rat\<rfloor> = 5224175567749775" by (simp add: floor_eq_iff pow2_def)
  then have m: "round_half_even ((29 / 100) / pow2 (-54)) = 5224175567749775"
    by (simp add: round_half_even_def pow2_def)
  have "round_f64 (29 / 100) = of_int 5224175567749775 * pow2 (-54)"
    by (rule round_f64_pos [OF _ _ m]) (simp_all add: log2_floor_def c bit_len_3_28)
  then show ?thesis by (simp add: f_div_def pow2_def)
qed

lemma f_percent_29: "f_mul (f_div 29 100) 100 < 29"
proof -
  let ?q = "130604389193744375 / 4503599627370496 :: rat"
  have c: "\<lfloor>?q\<rfloor> = 28" by (simp add: floor_eq_iff)
  have "\<lfloor>?q / pow2 (-48) :: rat\<rfloor> = 8162774324609023" by (simp add: floor_eq_iff pow2_def)
  then have m: "round_half_even (?q / pow2 (-48)) = 8162774324609023"
    by (simp add: round_half_even_def pow2_def)
  have "round_f64 ?q = of_int 8162774324609023 * pow2 (-48)"
    by (rule round_f64_pos [OF _ _ m]) (simp_all add: log2_floor_def c bit_len_3_28)
  then show ?thesis by (simp add: f_mul_def f_div_29_100 pow2_def)
qed

end
