(* ===== verification/CondStrings.thy ===== *)
theory CondStrings
  imports GoLib
begin

text \<open>
  The private string helpers of \<^verbatim>\<open>pkg/types/when.go\<close> and \<^verbatim>\<open>validation_eval.go\<close>.  The
  condition evaluator does not use package strings but its own index loops; each loop is
  modelled as it is written, on the same indices, and proved equal to the library function
  it stands for.
\<close>

section \<open>Splitting\<close>

text \<open>The loop of \<^verbatim>\<open>typesSplitOn\<close>: \<open>i\<close> runs over the bytes, \<open>start\<close> opens the current part.\<close>

function split_on_loop :: "string \<Rightarrow> char \<Rightarrow> nat \<Rightarrow> nat \<Rightarrow> string list \<Rightarrow> string list" where
  "split_on_loop s sep start i parts =
     (if i < length s then
        (if s ! i = sep then split_on_loop s sep (i + 1) (i + 1) (parts @ [go_slice s start i])
         else split_on_loop s sep start (i + 1) parts)
      else parts @ [go_slice s start (length s)])"
  by pat_completeness auto
termination
  by (relation "measure (\<lambda>(s, sep, start, i, parts). length s - i)") auto

declare split_on_loop.simps [simp del]

definition typesSplitOn :: "string \<Rightarrow> char \<Rightarrow> string list" where
  "typesSplitOn s sep = split_on_loop s sep 0 0 []"

definition typesSplitDot :: "string \<Rightarrow> string list" where
  "typesSplitDot s = typesSplitOn s (CHR ''.'')"

definition typesSplitComma :: "string \<Rightarrow> string list" where
  "typesSplitComma s = typesSplitOn s (CHR '','')"

lemma split_char_pending:
  "sep \<notin> set p \<Longrightarrow>
   split_char sep (p @ q) =
     (case split_char sep q of [] \<Rightarrow> [p] | x # xs \<Rightarrow> (p @ x) # xs)"
  by (induction p) (auto split: list.splits)

lemma split_on_loop_split_char:
  assumes "start \<le> i" "i \<le> length s" "sep \<notin> set (go_slice s start i)"
  shows "split_on_loop s sep start i parts = parts @ split_char sep (drop start s)"
  using assms
proof (induction s sep start i parts rule: split_on_loop.induct)
  case (1 s sep start i parts)
  have cut: "drop start s = go_slice s start i @ drop i s"
    using 1(3) by (simp add: go_slice_def) (metis append_take_drop_id drop_drop le_add_diff_inverse2)
  show ?case
  proof (cases "i < length s")
    case inside: True
    then have step: "drop i s = s ! i # drop (Suc i) s" by (simp add: Cons_nth_drop_Suc)
    show ?thesis
    proof (cases "s ! i = sep")
      case True
      have "split_char sep (drop start s) = go_slice s start i # split_char sep (drop (Suc i) s)"
        using cut step True 1(5) by (simp add: split_char_append split_char_no_sep)
      with 1(1) inside True show ?thesis
        by (simp add: split_on_loop.simps [of s sep start i])
    next
      case False
      with 1(5) 1(3) inside have "sep \<notin> set (go_slice s start (Suc i))"
        by (simp add: go_slice_snoc)
      with 1(2) inside False 1(3) show ?thesis
        by (simp add: split_on_loop.simps [of s sep start i])
    qed
  next
    case False
    with 1(4) have i: "i = length s" by simp
    with cut 1(5) have "split_char sep (drop start s) = [go_slice s start (length s)]"
      by (simp add: split_char_no_sep)
    with i show ?thesis by (subst split_on_loop.simps) simp
  qed
qed

lemma typesSplitOn_eq [go_lib, simp]: "typesSplitOn s sep = split_char sep s"
  by (simp add: typesSplitOn_def split_on_loop_split_char)

lemma typesSplitDot_eq [go_lib, simp]: "typesSplitDot s = split_char (CHR ''.'') s"
  by (simp add: typesSplitDot_def)

lemma typesSplitComma_eq [go_lib, simp]: "typesSplitComma s = split_char (CHR '','') s"
  by (simp add: typesSplitComma_def)

section \<open>Trimming\<close>

definition is_blank :: "char \<Rightarrow> bool" where
  "is_blank c \<longleftrightarrow> c = CHR '' '' \<or> c = CHR 0x09"

function trim_start_loop :: "string \<Rightarrow> nat \<Rightarrow> nat \<Rightarrow> nat" where
  "trim_start_loop s start n =
     (if start < n \<and> is_blank (s ! start) then trim_start_loop s (start + 1) n else start)"
  by pat_completeness auto
termination
  by (relation "measure (\<lambda>(s, start, n). n - start)") auto

fun trim_end_loop :: "string \<Rightarrow> nat \<Rightarrow> nat \<Rightarrow> nat" where
  "trim_end_loop s start n =
     (if start < n \<and> is_blank (s ! (n - 1)) then trim_end_loop s start (n - 1) else n)"

declare trim_start_loop.simps [simp del] trim_end_loop.simps [simp del]

definition typesTrimSpace :: "string \<Rightarrow> string" where
  "typesTrimSpace s =
     (let start = trim_start_loop s 0 (length s);
          n = trim_end_loop s start (length s)
      in go_slice s start n)"

lemma trim_start_loop_dropWhile:
  "start \<le> length s \<Longrightarrow>
   trim_start_loop s start (length s) \<le> length s \<and>
   drop (trim_start_loop s start (length s)) s = dropWhile is_blank (drop start s)"
proof (induction s start "length s" rule: trim_start_loop.induct)
  case (1 s start)
  show ?case
  proof (cases "start < length s")
    case True
    then have "drop start s = s ! start # drop (Suc start) s" by (simp add: Cons_nth_drop_Suc)
    with 1 True show ?thesis
      by (cases "is_blank (s ! start)") (simp_all add: trim_start_loop.simps [of s start])
  next
    case False
    with 1 show ?thesis by (subst (1 2) trim_start_loop.simps) simp
  qed
qed

lemma trim_end_loop_dropWhile:
  "start \<le> n \<Longrightarrow> n \<le> length s \<Longrightarrow>
   go_slice s start (trim_end_loop s start n) = rev (dropWhile is_blank (rev (go_slice s start n)))"
proof (induction s start n rule: trim_end_loop.induct)
  case (1 s start n)
  show ?case
  proof (cases "start < n")
    case True
    then obtain m where n: "n = Suc m" by (cases n) auto
    with True 1(3) have "go_slice s start n = go_slice s start m @ [s ! m]"
      by (simp add: go_slice_snoc)
    with 1 True n show ?thesis
      by (cases "is_blank (s ! m)") (simp_all add: trim_end_loop.simps [of s start])
  next
    case False
    with 1 show ?thesis by (subst trim_end_loop.simps) simp
  qed
qed

lemma typesTrimSpace_eq [go_lib, simp]: "typesTrimSpace s = trim_with is_blank s"
proof -
  let ?a = "trim_start_loop s 0 (length s)"
  have a: "?a \<le> length s" "drop ?a s = dropWhile is_blank s"
    using trim_start_loop_dropWhile [of 0 s] by auto
  then have "go_slice s ?a (length s) = dropWhile is_blank s"
    by (simp add: go_slice_def flip: a(2))
  with trim_end_loop_dropWhile [OF a(1), of s] show ?thesis
    by (simp add: typesTrimSpace_def trim_with_def Let_def)
qed

section \<open>Substrings\<close>

function contains_loop :: "string \<Rightarrow> string \<Rightarrow> nat \<Rightarrow> bool" where
  "contains_loop s sub i =
     (if i \<le> length s - length sub then
        (if go_slice s i (i + length sub) = sub then True else contains_loop s sub (i + 1))
      else False)"
  by pat_completeness auto
termination
  by (relation "measure (\<lambda>(s, sub, i). Suc (length s) - i)") auto

declare contains_loop.simps [simp del]

definition typeContains :: "string \<Rightarrow> string \<Rightarrow> bool" where
  "typeContains s sub = (if length sub > length s then False else contains_loop s sub 0)"

definition typeHasPrefix :: "string \<Rightarrow> string \<Rightarrow> bool" where
  "typeHasPrefix s p \<longleftrightarrow> length s \<ge> length p \<and> go_slice s 0 (length p) = p"

definition typeHasSuffix :: "string \<Rightarrow> string \<Rightarrow> bool" where
  "typeHasSuffix s p \<longleftrightarrow> length s \<ge> length p \<and> go_slice s (length s - length p) (length s) = p"

lemma contains_loop_iff:
  "contains_loop s sub i \<longleftrightarrow>
   (\<exists>j. i \<le> j \<and> j \<le> length s - length sub \<and> take (length sub) (drop j s) = sub)"
proof (induction s sub i rule: contains_loop.induct)
  case (1 s sub i)
  show ?case
  proof (cases "i \<le> length s - length sub \<and> go_slice s i (i + length sub) \<noteq> sub")
    case True
    then have "(\<exists>j \<ge> i. j \<le> length s - length sub \<and> take (length sub) (drop j s) = sub) \<longleftrightarrow>
        (\<exists>j \<ge> i + 1. j \<le> length s - length sub \<and> take (length sub) (drop j s) = sub)"
      by (auto simp: go_slice_def) (metis Suc_leI le_neq_implies_less, metis Suc_leD)
    with 1 True show ?thesis by (simp add: contains_loop.simps [of s sub i])
  next
    case False
    then show ?thesis by (auto simp: contains_loop.simps [of s sub i] go_slice_def)
  qed
qed

lemma typeContains_eq [go_lib, simp]: "typeContains s sub = str_contains s sub"
proof (cases "length sub > length s")
  case True
  then show ?thesis by (auto simp: typeContains_def str_contains_iff)
next
  case False
  have "\<exists>j. j \<le> length s - length sub \<and> take (length sub) (drop j s) = sub"
    if "s = p @ sub @ q" for p q
    by (rule exI [where x = "length p"]) (simp add: that)
  moreover have "\<exists>p q. s = p @ sub @ q"
    if "take (length sub) (drop j s) = sub" for j
    using that by (metis append_take_drop_id)
  ultimately show ?thesis
    using False unfolding typeContains_def contains_loop_iff str_contains_iff by auto
qed

lemma typeHasPrefix_eq [go_lib, simp]: "typeHasPrefix s p = str_has_prefix s p"
  by (auto simp: typeHasPrefix_def str_has_prefix_def go_slice_def) (metis length_take min.cobounded1)

lemma typeHasSuffix_eq [go_lib, simp]: "typeHasSuffix s p = str_has_suffix s p"
  by (auto simp: typeHasSuffix_def str_has_suffix_def go_slice_def)

section \<open>Comma lists\<close>

text \<open>\<^verbatim>\<open>inCommaList\<close> of the validation rules: the entries are trimmed of all white space.\<close>

definition inCommaList :: "string \<Rightarrow> string \<Rightarrow> bool" where
  "inCommaList value expected \<longleftrightarrow> list_ex (\<lambda>v. trim_space v = value) (split_char (CHR '','') expected)"

end
