(* ===== verification/GoValues.thy ===== *)
theory GoValues
  imports CondStrings
begin

text \<open>
  The dynamically typed data the program works on: a decoded Kubernetes object is a
  \<^verbatim>\<open>map[string]interface{}\<close>.  \<open>gval\<close> has one constructor for each dynamic type the code
  distinguishes, so a Go type switch is a case distinction.  A map is a partial function,
  which is what the code uses of it: lookup, update, delete and presence of a key.
\<close>

section \<open>Values\<close>

datatype int_kind = KInt | KInt32 | KInt64
datatype float_kind = KF32 | KF64

datatype gval =
    VNil
  | VStr string
  | VBool bool
  | VInt int_kind int
  | VFloat float_kind f64
  | VList "gval list"
  | VMap "string \<Rightarrow> gval option"
  | VChecker  \<comment> \<open>an injected object implementing \<^verbatim>\<open>UniquenessChecker\<close>\<close>

type_synonym gmap = "string \<Rightarrow> gval option"

text \<open>
  The parts of the run-time the model takes as given: regular expressions (RE2), the
  float scanners and printers, \<^verbatim>\<open>fmt\<close>'s \<^verbatim>\<open>%v\<close> of composite values and \<^verbatim>\<open>%q\<close>, out-of-range
  float-to-int conversion, the injected uniqueness checker, and the third-party cron
  parser (\<^verbatim>\<open>cron.ParseStandard\<close>, giving the schedule's \<^verbatim>\<open>Next\<close>).  \<open>None\<close> is the error
  return of the Go function.
\<close>

record goenv =
  ge_regex :: "string \<Rightarrow> string \<Rightarrow> bool option"
  ge_parse_float :: "string \<Rightarrow> f64 option"
  ge_scan_float :: "string \<Rightarrow> f64 option"
  ge_fmt_float :: "f64 \<Rightarrow> string"
  ge_fmt_composite :: "gval \<Rightarrow> string"
  ge_quote :: "string \<Rightarrow> string"
  ge_conv_oob :: "f64 \<Rightarrow> int"
  ge_is_unique :: "string \<Rightarrow> string \<Rightarrow> string \<Rightarrow> string \<Rightarrow> bool option"
  ge_cron :: "string \<Rightarrow> (int \<Rightarrow> int) option"

text \<open>
  One reading of the wall clock: \<^verbatim>\<open>now_ns\<close> in nanoseconds, the weekday (0 is Sunday) and
  \<^verbatim>\<open>now_at h m\<close>, today's \<open>h:m\<close> in the clock's location.
\<close>

record gotime =
  now_ns :: int
  now_weekday :: nat
  now_at :: "nat \<Rightarrow> nat \<Rightarrow> int"

fun as_map :: "gval \<Rightarrow> gmap option" where
  "as_map (VMap m) = Some m"
| "as_map _ = None"

fun as_str :: "gval \<Rightarrow> string option" where
  "as_str (VStr s) = Some s"
| "as_str _ = None"

lemma as_map_Some [simp]: "as_map v = Some m \<longleftrightarrow> v = VMap m"
  by (cases v) auto

lemma as_str_Some [simp]: "as_str v = Some s \<longleftrightarrow> v = VStr s"
  by (cases v) auto

section \<open>Type names and text forms\<close>

text \<open>\<^verbatim>\<open>note.TypeOf\<close>.\<close>

fun TypeOf :: "gval \<Rightarrow> string" where
  "TypeOf VNil = ''null''"
| "TypeOf (VStr _) = ''string''"
| "TypeOf (VFloat _ _) = ''number''"
| "TypeOf (VInt _ _) = ''number''"
| "TypeOf (VBool _) = ''bool''"
| "TypeOf (VMap _) = ''map''"
| "TypeOf (VList _) = ''slice''"
| "TypeOf VChecker = ''unknown''"

text \<open>\<^verbatim>\<open>fmt.Sprintf("%v", v)\<close>.\<close>

fun sprintf_v :: "goenv \<Rightarrow> gval \<Rightarrow> string" where
  "sprintf_v E VNil = ''<nil>''"
| "sprintf_v E (VStr s) = s"
| "sprintf_v E (VBool b) = format_bool b"
| "sprintf_v E (VInt _ i) = format_int i"
| "sprintf_v E v = ge_fmt_composite E v"

text \<open>
  \<^verbatim>\<open>ScalarToString\<close>: a float64 that is a 64-bit integer prints as one.
\<close>

definition is_int64_f :: "f64 \<Rightarrow> bool" where
  "is_int64_f f = (case f of FFin q \<Rightarrow> of_int \<lfloor>q\<rfloor> = q \<and> - (2 ^ 63) \<le> q \<and> q < 2 ^ 63 | _ \<Rightarrow> False)"

fun ScalarToString :: "goenv \<Rightarrow> gval \<Rightarrow> string" where
  "ScalarToString E VNil = []"
| "ScalarToString E (VStr s) = s"
| "ScalarToString E (VBool b) = format_bool b"
| "ScalarToString E (VInt KInt64 i) = format_int i"
| "ScalarToString E (VFloat KF64 f) =
     (if is_int64_f f then format_int (f64_to_int64 (ge_conv_oob E) f) else ge_fmt_float E f)"
| "ScalarToString E v = sprintf_v E v"

lemma ScalarToString_int [simp]: "ScalarToString E (VInt k i) = format_int i"
  by (cases k) auto

text \<open>
  An integer reads the same whether the decoder produced an int64 or the float64 JSON
  numbers decode to.
\<close>

lemma ScalarToString_int_float:
  assumes "- (2 ^ 63) \<le> i" "i < 2 ^ 63"
  shows "ScalarToString E (VFloat KF64 (FFin (of_int i))) = ScalarToString E (VInt KInt64 i)"
proof -
  have "is_int64_f (FFin (of_int i))"
    using assms by (simp add: is_int64_f_def of_int_le_iff [of "- (2 ^ 63)" i, where 'a = rat, symmetric]
        of_int_less_iff [of i "2 ^ 63", where 'a = rat, symmetric] del: of_int_le_iff of_int_less_iff)
  moreover have "f64_to_int64 (ge_conv_oob E) (FFin (of_int i)) = i"
    using assms by (simp add: f64_to_int64_def Let_def)
  ultimately show ?thesis by simp
qed

section \<open>A concrete run time\<close>

text \<open>
  The witnesses run the model on this instance of the parameters: floats are read by the
  integer parser, no regular expression compiles, every value is unique and the only
  schedule fires at the full hour.
\<close>

definition sample_env :: goenv where
  "sample_env =
     \<lparr>ge_regex = (\<lambda>p s. None),
      ge_parse_float = (\<lambda>s. map_option (\<lambda>i. FFin (of_int i)) (parse_int64 s)),
      ge_scan_float = (\<lambda>s. map_option (\<lambda>i. FFin (of_int i)) (parse_int64 s)),
      ge_fmt_float = (\<lambda>f. ''float''),
      ge_fmt_composite = (\<lambda>v. TypeOf v),
      ge_quote = (\<lambda>s. CHR 0x22 # s @ [CHR 0x22]),
      ge_conv_oob = (\<lambda>f. 0),
      ge_is_unique = (\<lambda>f v ns n. Some True),
      ge_cron = (\<lambda>e. if e = ''0 * * * *'' then Some (\<lambda>t. (t div 3600000000000 + 1) * 3600000000000) else None)\<rparr>"

text \<open>A Monday, with the clock at the given time.\<close>

definition sample_time :: "nat \<Rightarrow> nat \<Rightarrow> gotime" where
  "sample_time h m =
     \<lparr>now_ns = int h * 3600000000000 + int m * 60000000000, now_weekday = 1,
      now_at = (\<lambda>h m. int h * 3600000000000 + int m * 60000000000)\<rparr>"

end
