(* ===== verification/NestedPaths.thy ===== *)
theory NestedPaths
  imports GoValues
begin

text \<open>
  Dot-path access to nested objects: \<^verbatim>\<open>pkg/utils/nested.go\<close>, the readers
  \<^verbatim>\<open>NavigateRawPath\<close>, \<^verbatim>\<open>NavigateDotPath\<close> and \<^verbatim>\<open>ResolveScalarField\<close> of \<^verbatim>\<open>pkg/types\<close>, and the
  setters that mutation and normalization bring along (\<^verbatim>\<open>setNestedPatch\<close>,
  \<^verbatim>\<open>setNestedNormalized\<close>, \<^verbatim>\<open>nestedGet\<close>).  The code updates a map in place; the model
  returns the new map, beside the error where there is one, so that what a failed call has
  already changed stays visible.
\<close>

datatype path_error = EmptyPath | NotAMap string

abbreviation split_dot :: "string \<Rightarrow> string list" where
  "split_dot \<equiv> split_char (CHR ''.'')"

section \<open>Readers over key lists\<close>

fun NestedSlice :: "gmap \<Rightarrow> string list \<Rightarrow> gval list option" where
  "NestedSlice cur [] = None"
| "NestedSlice cur [k] = (case cur k of Some (VList xs) \<Rightarrow> Some xs | _ \<Rightarrow> None)"
| "NestedSlice cur (k # k' # ks) =
     (case cur k of Some (VMap nxt) \<Rightarrow> NestedSlice nxt (k' # ks) | _ \<Rightarrow> None)"

fun nested_map_walk :: "gmap \<Rightarrow> string list \<Rightarrow> gmap option" where
  "nested_map_walk cur [] = Some cur"
| "nested_map_walk cur (k # ks) =
     (case cur k of Some (VMap nxt) \<Rightarrow> nested_map_walk nxt ks | _ \<Rightarrow> None)"

definition NestedMap :: "gmap \<Rightarrow> string list \<Rightarrow> gmap option" where
  "NestedMap obj keys = (if keys = [] then None else nested_map_walk obj keys)"

text \<open>
  \<^verbatim>\<open>DeepCopyMap\<close>: maps are rebuilt at every depth, other values are shared.  \<open>None\<close> is
  Go's nil map.
\<close>

primrec deep_copy_val :: "gval \<Rightarrow> gval" where
  "deep_copy_val VNil = VNil"
| "deep_copy_val (VStr s) = VStr s"
| "deep_copy_val (VBool b) = VBool b"
| "deep_copy_val (VInt k i) = VInt k i"
| "deep_copy_val (VFloat k f) = VFloat k f"
| "deep_copy_val (VList xs) = VList xs"
| "deep_copy_val (VMap m) = VMap (\<lambda>k. map_option deep_copy_val (m k))"
| "deep_copy_val VChecker = VChecker"

definition DeepCopyMap :: "gmap option \<Rightarrow> gmap option" where
  "DeepCopyMap src = map_option (\<lambda>m k. map_option deep_copy_val (m k)) src"

section \<open>Get, set and delete by path\<close>

fun get_parts :: "gmap \<Rightarrow> string list \<Rightarrow> gval option" where
  "get_parts current [] = None"
| "get_parts current [k] = current k"
| "get_parts current (k # k' # ks) =
     (case current k of Some (VMap nxt) \<Rightarrow> get_parts nxt (k' # ks) | _ \<Rightarrow> None)"

definition GetNestedPath :: "gmap \<Rightarrow> string \<Rightarrow> gval option" where
  "GetNestedPath m path = (if path = [] then None else get_parts m (split_dot path))"

fun set_parts :: "gmap \<Rightarrow> string list \<Rightarrow> gval \<Rightarrow> gmap \<times> path_error option" where
  "set_parts current [] v = (current, None)"
| "set_parts current [k] v = (current(k \<mapsto> v), None)"
| "set_parts current (k # k' # ks) v =
     (let current' = (if current k = None then current(k \<mapsto> VMap Map.empty) else current)
      in case current' k of
           Some (VMap nxt) \<Rightarrow>
             (case set_parts nxt (k' # ks) v of (nxt', err) \<Rightarrow> (current'(k \<mapsto> VMap nxt'), err))
         | _ \<Rightarrow> (current', Some (NotAMap k)))"

definition SetNestedPath :: "gmap \<Rightarrow> string \<Rightarrow> gval \<Rightarrow> gmap \<times> path_error option" where
  "SetNestedPath m path v =
     (if path = [] then (m, Some EmptyPath)
      else if split_dot path = [] then (m, Some EmptyPath)
      else set_parts m (split_dot path) v)"

text \<open>\<^verbatim>\<open>SetFieldPath\<close> replaces an intermediate value that is not a map.\<close>

fun set_field_parts :: "gmap \<Rightarrow> string list \<Rightarrow> gval \<Rightarrow> gmap" where
  "set_field_parts current [] v = current"
| "set_field_parts current [k] v = current(k \<mapsto> v)"
| "set_field_parts current (k # k' # ks) v =
     (let current' = (if current k = None then current(k \<mapsto> VMap Map.empty) else current);
          nxt = (case current' k of Some (VMap n) \<Rightarrow> n | _ \<Rightarrow> Map.empty)
      in current'(k \<mapsto> VMap (set_field_parts nxt (k' # ks) v)))"

definition SetFieldPath :: "gmap \<Rightarrow> string \<Rightarrow> gval \<Rightarrow> gmap" where
  "SetFieldPath obj path v = set_field_parts obj (split_dot path) v"

text \<open>\<^verbatim>\<open>setNestedPatch\<close> of \<^verbatim>\<open>mutation.go\<close> builds the merge patch the same way.\<close>

fun set_patch_parts :: "gmap \<Rightarrow> string list \<Rightarrow> gval \<Rightarrow> gmap" where
  "set_patch_parts current [] v = current"
| "set_patch_parts current [k] v = current(k \<mapsto> v)"
| "set_patch_parts current (k # k' # ks) v =
     (let current1 = (if current k = None then current(k \<mapsto> VMap Map.empty) else current)
      in case current1 k of
           Some (VMap nxt) \<Rightarrow> current1(k \<mapsto> VMap (set_patch_parts nxt (k' # ks) v))
         | _ \<Rightarrow> current1(k \<mapsto> VMap (set_patch_parts Map.empty (k' # ks) v)))"

definition setNestedPatch :: "gmap \<Rightarrow> string \<Rightarrow> gval \<Rightarrow> gmap" where
  "setNestedPatch patch path v = set_patch_parts patch (split_dot path) v"

text \<open>\<^verbatim>\<open>setNestedNormalized\<close> of \<^verbatim>\<open>normalize.go\<close>, over its own \<^verbatim>\<open>splitDotPath\<close>.\<close>

definition splitDotPath :: "string \<Rightarrow> string list" where
  "splitDotPath path = split_on_loop path (CHR ''.'') 0 0 []"

fun set_normalized_parts :: "gmap \<Rightarrow> string list \<Rightarrow> gval \<Rightarrow> gmap \<times> path_error option" where
  "set_normalized_parts current [] v = (current, None)"
| "set_normalized_parts current [k] v = (current(k \<mapsto> v), None)"
| "set_normalized_parts current (k # k' # ks) v =
     (case current k of
        None \<Rightarrow>
          (case set_normalized_parts Map.empty (k' # ks) v of
             (new_map, err) \<Rightarrow> (current(k \<mapsto> VMap new_map), err))
      | Some nxt \<Rightarrow>
          (case as_map nxt of
             None \<Rightarrow> (current, Some (NotAMap k))
           | Some nxt_map \<Rightarrow>
               (case set_normalized_parts nxt_map (k' # ks) v of
                  (nxt', err) \<Rightarrow> (current(k \<mapsto> VMap nxt'), err))))"

definition setNestedNormalized :: "gmap \<Rightarrow> string \<Rightarrow> gval \<Rightarrow> gmap \<times> path_error option" where
  "setNestedNormalized obj path v =
     (if splitDotPath path = [] then (obj, Some EmptyPath)
      else set_normalized_parts obj (splitDotPath path) v)"

text \<open>\<^verbatim>\<open>nestedGet\<close>: reading a missing key of a Go map gives nil.\<close>

fun nested_get_parts :: "gmap \<Rightarrow> string list \<Rightarrow> gval" where
  "nested_get_parts current [] = VNil"
| "nested_get_parts current [k] = (case current k of None \<Rightarrow> VNil | Some v \<Rightarrow> v)"
| "nested_get_parts current (k # k' # ks) =
     (case current k of
        None \<Rightarrow> VNil
      | Some nxt \<Rightarrow> (case as_map nxt of None \<Rightarrow> VNil | Some m \<Rightarrow> nested_get_parts m (k' # ks)))"

definition nestedGet :: "gmap \<Rightarrow> string \<Rightarrow> gval" where
  "nestedGet obj path = nested_get_parts obj (splitDotPath path)"

text \<open>
  \<^verbatim>\<open>DeleteNestedPath\<close>: \<^verbatim>\<open>strings.SplitN(path, ".", 2)\<close> at each level is the recursion over
  the parts.  \<open>None\<close> is the nil map, on which it does nothing.
\<close>

fun delete_parts :: "gmap \<Rightarrow> string list \<Rightarrow> gmap" where
  "delete_parts obj [] = obj"
| "delete_parts obj [k] = obj(k := None)"
| "delete_parts obj (k # k' # ks) =
     (case obj k of Some (VMap nested) \<Rightarrow> obj(k \<mapsto> VMap (delete_parts nested (k' # ks))) | _ \<Rightarrow> obj)"

definition DeleteNestedPath :: "gmap option \<Rightarrow> string \<Rightarrow> gmap option" where
  "DeleteNestedPath obj path = map_option (\<lambda>m. delete_parts m (split_dot path)) obj"

definition IsNestedPath :: "string \<Rightarrow> bool" where
  "IsNestedPath path = str_contains path ''.''"

definition SplitPath :: "string \<Rightarrow> string list" where
  "SplitPath path = filter (\<lambda>p. p \<noteq> []) (split_dot path)"

section \<open>Readers of the condition evaluator\<close>

fun navigate_parts :: "gval \<Rightarrow> string list \<Rightarrow> gval option" where
  "navigate_parts current [] = Some current"
| "navigate_parts current (part # parts) =
     (case as_map current of
        None \<Rightarrow> None
      | Some typed \<Rightarrow> (case typed part of None \<Rightarrow> None | Some c \<Rightarrow> navigate_parts c parts))"

definition NavigateRawPath :: "gmap \<Rightarrow> string \<Rightarrow> gval" where
  "NavigateRawPath m path =
     (if path = [] then VNil
      else case navigate_parts (VMap m) (typesSplitDot path) of
             None \<Rightarrow> VNil
           | Some current \<Rightarrow> (if current = VNil then VNil else current))"

definition NavigateDotPath :: "goenv \<Rightarrow> gmap \<Rightarrow> string \<Rightarrow> string" where
  "NavigateDotPath E m path =
     (if path = [] then []
      else case navigate_parts (VMap m) (typesSplitDot path) of
             None \<Rightarrow> []
           | Some VNil \<Rightarrow> []
           | Some (VStr s) \<Rightarrow> s
           | Some current \<Rightarrow> sprintf_v E current)"

text \<open>\<^verbatim>\<open>ResolveScalarField\<close>: the text of the value and whether it was found.\<close>

definition ResolveScalarField :: "goenv \<Rightarrow> gmap \<Rightarrow> string \<Rightarrow> string \<times> bool" where
  "ResolveScalarField E data path =
     (case get_parts data (split_dot path) of
        None \<Rightarrow> ([], False)
      | Some v \<Rightarrow> (ScalarToString E v, True))"

section \<open>All setters write the same tree\<close>

lemma set_patch_parts_eq: "set_patch_parts m ks v = set_field_parts m ks v"
  by (induction m ks v rule: set_patch_parts.induct)
    (auto simp: Let_def split: option.splits gval.splits)

lemma set_normalized_parts_eq: "set_normalized_parts m ks v = set_parts m ks v"
proof (induction m ks v rule: set_normalized_parts.induct)
  case (3 current k k' ks v)
  show ?case
  proof (cases "current k")
    case None
    with 3 show ?thesis by (auto split: prod.splits)
  next
    case (Some nxt)
    with 3 show ?thesis by (cases nxt) (auto split: prod.splits)
  qed
qed auto

lemma splitDotPath_eq [simp]: "splitDotPath p = split_dot p"
  by (simp add: splitDotPath_def flip: typesSplitOn_def)

lemma set_parts_fresh: "snd (set_parts Map.empty ks v) = None"
  by (induction ks) (case_tac ks; auto split: prod.splits)+

lemma set_parts_ok: "snd (set_parts m ks v) = None \<Longrightarrow> fst (set_parts m ks v) = set_field_parts m ks v"
proof (induction m ks v rule: set_parts.induct)
  case (3 current k k' ks v)
  let ?cur = "if current k = None then current(k \<mapsto> VMap Map.empty) else current"
  from 3(2) obtain c where c: "?cur k = Some (VMap c)"
    by (cases "current k"; cases "the (current k)") auto
  with 3(2) have "snd (set_parts c (k' # ks) v) = None"
    by (simp add: Let_def split: prod.splits)
  with 3(1) [OF refl c refl] have "fst (set_parts c (k' # ks) v) = set_field_parts c (k' # ks) v"
    by simp
  with c show ?case by (cases "set_parts c (k' # ks) v") (auto simp: Let_def)
qed auto

lemma set_parts_err: "snd (set_parts m ks v) \<noteq> None \<Longrightarrow> fst (set_parts m ks v) = m"
proof (induction m ks v rule: set_parts.induct)
  case (3 current k k' ks v)
  show ?case
  proof (cases "current k")
    case None
    with 3(2) have False
      using set_parts_fresh [of "k' # ks" v] by (auto split: prod.splits)
    then show ?thesis ..
  next
    case (Some nxt)
    show ?thesis
    proof (cases nxt)
      case (VMap c)
      with Some 3(2) have "snd (set_parts c (k' # ks) v) \<noteq> None" by (auto split: prod.splits)
      then have "fst (set_parts c (k' # ks) v) = c"
        using 3(1) [OF refl] Some VMap by simp
      with Some VMap show ?thesis by (auto split: prod.splits)
    qed (simp_all add: Some)
  qed
qed auto

section \<open>The tree laws\<close>

lemma parallel_Cons [simp]: "(a # xs) \<parallel> (b # ys) \<longleftrightarrow> a \<noteq> b \<or> xs \<parallel> ys"
  by (auto simp: parallel_def)

lemma parallel_Nil [simp]: "\<not> xs \<parallel> []" "\<not> [] \<parallel> xs"
  by (auto simp: parallel_def)

lemma get_set_field: "ks \<noteq> [] \<Longrightarrow> get_parts (set_field_parts m ks v) ks = Some v"
  by (induction m ks v rule: set_field_parts.induct) (auto simp: Let_def)

lemma get_empty [simp]: "get_parts Map.empty ks = None"
  by (cases ks; cases "tl ks") auto

lemma set_field_frame:
  "ks \<parallel> js \<Longrightarrow> get_parts (set_field_parts m ks v) js = get_parts m js"
proof (induction m ks v arbitrary: js rule: set_field_parts.induct)
  case (1 m v)
  then show ?case by (simp add: parallel_def)
next
  case (2 m k v)
  then obtain j js' where "js = j # js'" "j \<noteq> k" by (cases js) auto
  then show ?case by (cases js') auto
next
  case (3 m k k' ks v)
  then obtain j js' where js: "js = j # js'" by (cases js) auto
  show ?case
  proof (cases "j = k")
    case False
    with js show ?thesis by (cases js') (auto simp: Let_def)
  next
    case True
    with 3(2) js obtain j' js'' where js': "js' = j' # js''" "(k' # ks) \<parallel> js'"
      by (cases js') auto
    show ?thesis
    proof (cases "m k")
      case None
      with 3(1) [OF refl refl js'(2)] True js js' show ?thesis by (simp add: Let_def)
    next
      case (Some c)
      with 3(1) [OF refl refl js'(2)] True js js' show ?thesis by (cases c) (simp_all add: Let_def)
    qed
  qed
qed

lemma set_field_overwrite:
  "set_field_parts (set_field_parts m ks v) ks w = set_field_parts m ks w"
  by (induction m ks v rule: set_field_parts.induct) (auto simp: Let_def)

lemma get_delete_parts: "ks \<noteq> [] \<Longrightarrow> get_parts (delete_parts m ks) ks = None"
  by (induction m ks rule: delete_parts.induct) (auto split: option.splits gval.splits)

lemma delete_frame: "ks \<parallel> js \<Longrightarrow> get_parts (delete_parts m ks) js = get_parts m js"
proof (induction m ks arbitrary: js rule: delete_parts.induct)
  case (1 m)
  then show ?case by (simp add: parallel_def)
next
  case (2 m k)
  then obtain j js' where "js = j # js'" "j \<noteq> k" by (cases js) auto
  then show ?case by (cases js') auto
next
  case (3 m k k' ks)
  then obtain j js' where js: "js = j # js'" by (cases js) auto
  show ?case
  proof (cases "\<exists>c. j = k \<and> m k = Some (VMap c)")
    case False
    with js show ?thesis by (cases js') (auto split: option.splits gval.splits)
  next
    case True
    then obtain c where c: "j = k" "m k = Some (VMap c)" by blast
    with 3(2) js obtain j' js'' where js': "js' = j' # js''" "(k' # ks) \<parallel> js'"
      by (cases js') auto
    from 3(1) [OF c(2) refl js'(2)] c js js' show ?thesis by simp
  qed
qed

lemma deep_copy_val_id: "deep_copy_val v = v"
proof (induction v)
  case (VMap m)
  have "map_option deep_copy_val (m k) = m k" for k
    by (cases "m k") (use VMap [OF rangeI [of m k]] in auto)
  then show ?case by simp
qed auto

lemma get_parts_navigate:
  "ks \<noteq> [] \<Longrightarrow> get_parts m ks = navigate_parts (VMap m) ks"
  by (induction m ks rule: get_parts.induct) (auto split: option.splits gval.splits)

section \<open>The setter interface\<close>

text \<open>
  What every caller of a dot-path setter relies on, whichever of the four functions it
  calls: \<open>ok m p v\<close> says the call succeeds.  \<open>indep\<close> is independence of two paths: neither is
  a dot-path prefix of the other.
\<close>

definition indep :: "string \<Rightarrow> string \<Rightarrow> bool" where
  "indep p q \<longleftrightarrow> split_dot p \<parallel> split_dot q"

lemma indep_sym: "indep p q \<Longrightarrow> indep q p"
  by (auto simp: indep_def parallel_def)

locale path_setter =
  fixes set_path :: "gmap \<Rightarrow> string \<Rightarrow> gval \<Rightarrow> gmap"
    and ok :: "gmap \<Rightarrow> string \<Rightarrow> gval \<Rightarrow> bool"
  assumes get_set: "p \<noteq> [] \<Longrightarrow> ok m p v \<Longrightarrow> GetNestedPath (set_path m p v) p = Some v"
    and get_frame: "ok m p v \<Longrightarrow> indep p q \<Longrightarrow> GetNestedPath (set_path m p v) q = GetNestedPath m q"
    and overwrite: "ok m p v \<Longrightarrow> ok m p w \<Longrightarrow> ok (set_path m p v) p w \<Longrightarrow>
      set_path (set_path m p v) p w = set_path m p w"
begin

fun set_all :: "gmap \<Rightarrow> (string \<times> gval) list \<Rightarrow> gmap" where
  "set_all m [] = m"
| "set_all m ((p, v) # r) = set_all (set_path m p v) r"

fun all_ok :: "gmap \<Rightarrow> (string \<times> gval) list \<Rightarrow> bool" where
  "all_ok m [] = True"
| "all_ok m ((p, v) # r) = (ok m p v \<and> all_ok (set_path m p v) r)"

lemma set_all_frame:
  "all_ok m r \<Longrightarrow> (\<And>p v. (p, v) \<in> set r \<Longrightarrow> indep p q) \<Longrightarrow>
   GetNestedPath (set_all m r) q = GetNestedPath m q"
proof (induction m r rule: set_all.induct)
  case (1 m)
  then show ?case by simp
next
  case (2 m p v r)
  have "GetNestedPath (set_all (set_path m p v) r) q = GetNestedPath (set_path m p v) q"
    by (rule 2(1)) (use 2(2,3) in auto)
  also have "\<dots> = GetNestedPath m q"
    by (rule get_frame) (use 2(2,3) in auto)
  finally show ?case by simp
qed

lemma set_all_get:
  "all_ok m r \<Longrightarrow> sorted_wrt (\<lambda>a b. indep (fst a) (fst b)) r \<Longrightarrow>
   (p, v) \<in> set r \<Longrightarrow> p \<noteq> [] \<Longrightarrow> GetNestedPath (set_all m r) p = Some v"
proof (induction m r rule: set_all.induct)
  case (1 m)
  then show ?case by simp
next
  case (2 m p' v' r)
  show ?case
  proof (cases "(p, v) = (p', v')")
    case True
    with 2(3) have "\<And>q w. (q, w) \<in> set r \<Longrightarrow> indep q p" by (fastforce intro: indep_sym)
    with 2(2) True have "GetNestedPath (set_all (set_path m p v) r) p = GetNestedPath (set_path m p v) p"
      by (intro set_all_frame) auto
    with True 2(2,5) show ?thesis by (simp add: get_set)
  next
    case False
    with 2 show ?thesis by auto
  qed
qed

end

lemma path_setter_of_field:
  assumes "\<And>m p v. ok m p v \<Longrightarrow> set_path m p v = set_field_parts m (split_dot p) v"
  shows "path_setter set_path ok"
  by unfold_locales
    (auto simp: assms GetNestedPath_def get_set_field indep_def set_field_frame set_field_overwrite)

interpretation nested: path_setter
  "\<lambda>m p v. fst (SetNestedPath m p v)" "\<lambda>m p v. p \<noteq> [] \<and> snd (SetNestedPath m p v) = None"
  by (rule path_setter_of_field) (auto simp: SetNestedPath_def set_parts_ok)

interpretation normalized: path_setter
  "\<lambda>m p v. fst (setNestedNormalized m p v)" "\<lambda>m p v. snd (setNestedNormalized m p v) = None"
  by (rule path_setter_of_field)
    (auto simp: setNestedNormalized_def set_normalized_parts_eq set_parts_ok)

interpretation patch: path_setter setNestedPatch "\<lambda>m p v. True"
  by (rule path_setter_of_field) (simp add: setNestedPatch_def set_patch_parts_eq)

interpretation field: path_setter SetFieldPath "\<lambda>m p v. True"
  by (rule path_setter_of_field) (simp add: SetFieldPath_def)

section \<open>Properties\<close>

text \<open>
  C25. \<^verbatim>\<open>SetNestedPath\<close> either succeeds or changes nothing: after a success the path reads back
  the value and every independent path reads what it did before; after an error the map is
  the one passed in, although the code creates intermediate maps on its way down.
\<close>
theorem SetNestedPath_contract:
  "case SetNestedPath m p v of
     (m', None) \<Rightarrow> GetNestedPath m' p = Some v \<and>
        (indep p q \<longrightarrow> GetNestedPath m' q = GetNestedPath m q)
   | (m', Some err) \<Rightarrow> m' = m"
proof (cases "SetNestedPath m p v")
  case (Pair m' e)
  show ?thesis
  proof (cases e)
    case None
    with Pair have "p \<noteq> []" "snd (SetNestedPath m p v) = None" by (auto simp: SetNestedPath_def)
    then have "GetNestedPath m' p = Some v" "indep p q \<Longrightarrow> GetNestedPath m' q = GetNestedPath m q"
      using nested.get_set [of p m v] nested.get_frame [of p m v q] Pair by auto
    with Pair None show ?thesis by simp
  next
    case (Some err)
    with Pair set_parts_err [of m "split_dot p" v] show ?thesis
      by (auto simp: SetNestedPath_def split: if_splits)
  qed
qed

theorem SetNestedPath_contract_witness:
  "fst (SetNestedPath [''a'' \<mapsto> VInt KInt 1] ''b.c'' (VBool True)) = [''a'' \<mapsto> VInt KInt 1, ''b'' \<mapsto> VMap [''c'' \<mapsto> VBool True]]
   \<and> GetNestedPath (fst (SetNestedPath [''a'' \<mapsto> VInt KInt 1] ''b.c'' (VBool True))) ''a'' = Some (VInt KInt 1)"
proof -
  have i: "indep ''b.c'' ''a''" by (simp add: indep_def)
  have e: "SetNestedPath [''a'' \<mapsto> VInt KInt 1] ''b.c'' (VBool True) =
     ([''a'' \<mapsto> VInt KInt 1, ''b'' \<mapsto> VMap [''c'' \<mapsto> VBool True]], None)"
    by (simp add: SetNestedPath_def)
  show ?thesis
    using SetNestedPath_contract [where m = "[''a'' \<mapsto> VInt KInt 1]" and p = "''b.c''"
        and v = "VBool True" and q = "''a''"] i
    unfolding e by (simp add: GetNestedPath_def)
qed

text \<open>
  A merge patch built by \<^verbatim>\<open>setNestedPatch\<close> from any list of pairwise independent field
  changes holds every one of them: later writes never overwrite earlier ones.
\<close>
lemma patch_keeps_all_changes:
  assumes "sorted_wrt (\<lambda>a b. indep (fst a) (fst b)) changes"
    and "(p, v) \<in> set changes" and "p \<noteq> []"
  shows "GetNestedPath (foldl (\<lambda>m (q, w). setNestedPatch m q w) Map.empty changes) p = Some v"
proof -
  have ok: "patch.all_ok m r" for m r by (induction m r rule: patch.set_all.induct) auto
  have "patch.set_all m r = foldl (\<lambda>m (q, w). setNestedPatch m q w) m r" for m r
    by (induction m r rule: patch.set_all.induct) auto
  with patch.set_all_get [OF ok assms] show ?thesis by simp
qed

text \<open>
  Deleting a path removes exactly that path: it reads as absent afterwards and every
  independent path keeps its value, whether or not the path existed.
\<close>
lemma DeleteNestedPath_contract:
  assumes "DeleteNestedPath (Some m) p = Some m'"
  shows "GetNestedPath m' p = None \<and> (indep p q \<longrightarrow> GetNestedPath m' q = GetNestedPath m q)"
proof -
  have "m' = delete_parts m (split_dot p)" using assms by (simp add: DeleteNestedPath_def)
  then show ?thesis
    by (auto simp: GetNestedPath_def get_delete_parts indep_def delete_frame simp del: split_char.simps)
qed

text \<open>
  The three readers agree: for a non-empty path, \<^verbatim>\<open>NavigateRawPath\<close> returns what
  \<^verbatim>\<open>GetNestedPath\<close> finds (nil when it finds nothing), and \<^verbatim>\<open>NavigateDotPath\<close> and
  \<^verbatim>\<open>ResolveScalarField\<close> give the same text for every value that is not a float or a
  composite.
\<close>
lemma path_readers_agree:
  assumes "p \<noteq> []"
  shows "NavigateRawPath m p = (case GetNestedPath m p of None \<Rightarrow> VNil | Some v \<Rightarrow> v)
    \<and> snd (ResolveScalarField E m p) = (GetNestedPath m p \<noteq> None)
    \<and> (TypeOf (NavigateRawPath m p) \<in> {''null'', ''string'', ''bool''} \<or>
        (\<exists>k i. NavigateRawPath m p = VInt k i)
       \<longrightarrow> NavigateDotPath E m p = fst (ResolveScalarField E m p))"
proof -
  have nav: "navigate_parts (VMap m) (split_dot p) = get_parts m (split_dot p)"
    by (simp add: get_parts_navigate)
  then show ?thesis
    using assms
    by (cases "get_parts m (split_dot p)"; cases "the (get_parts m (split_dot p))")
      (simp_all add: NavigateRawPath_def GetNestedPath_def ResolveScalarField_def NavigateDotPath_def)
qed

end
