(* ===== verification/Conditions.thy ===== *)
theory Conditions
  imports NestedPaths
begin

text \<open>
  The condition language of \<^verbatim>\<open>when:\<close> and \<^verbatim>\<open>or:\<close> blocks: \<^verbatim>\<open>pkg/types/conditions.go\<close>,
  \<^verbatim>\<open>types_time.go\<close> and \<^verbatim>\<open>when.go\<close>.  Every gate of the runtime (templates, queue limits,
  autoscaling, cleanup, validation and mutation rules, ordered deletion) calls
  \<open>EvaluateConditions\<close>.
\<close>

section \<open>Operators\<close>

text \<open>
  \<^verbatim>\<open>ConditionOperator\<close> is a string in the code; the constants are the constructors and any
  other text is \<open>OpOther\<close>.  \<open>OpOther []\<close> is the unset operator.
\<close>

datatype condition_operator =
    OpEquals | OpNotEquals | OpContains | OpPrefix | OpNotPrefix | OpSuffix | OpNotSuffix
  | OpExists | OpNotExists | OpGt | OpLt | OpGte | OpLte | OpIn | OpNotIn | OpNotContains
  | OpRegex | OpBetween | OpNotBetween | OpUnique | OpTypeOf | OpTypeMap | OpTypeList
  | OpTypeString | OpTypeNumber | OpTypeBool | OpTypeNull | OpOther string

abbreviation no_operator :: condition_operator where "no_operator \<equiv> OpOther []"

fun op_name :: "condition_operator \<Rightarrow> string" where
  "op_name OpEquals = ''equals''"
| "op_name OpNotEquals = ''notEquals''"
| "op_name OpContains = ''contains''"
| "op_name OpPrefix = ''prefix''"
| "op_name OpNotPrefix = ''notPrefix''"
| "op_name OpSuffix = ''suffix''"
| "op_name OpNotSuffix = ''notSuffix''"
| "op_name OpExists = ''exists''"
| "op_name OpNotExists = ''notExists''"
| "op_name OpGt = ''gt''"
| "op_name OpLt = ''lt''"
| "op_name OpGte = ''gte''"
| "op_name OpLte = ''lte''"
| "op_name OpIn = ''in''"
| "op_name OpNotIn = ''notIn''"
| "op_name OpNotContains = ''notContains''"
| "op_name OpRegex = ''regex''"
| "op_name OpBetween = ''between''"
| "op_name OpNotBetween = ''notBetween''"
| "op_name OpUnique = ''unique''"
| "op_name OpTypeOf = ''typeOf''"
| "op_name OpTypeMap = ''typeMap''"
| "op_name OpTypeList = ''typeList''"
| "op_name OpTypeString = ''typeString''"
| "op_name OpTypeNumber = ''typeNumber''"
| "op_name OpTypeBool = ''typeBool''"
| "op_name OpTypeNull = ''typeNull''"
| "op_name (OpOther s) = s"

text \<open>\<^verbatim>\<open>knownConditionOperators\<close> and \<^verbatim>\<open>IsValidConditionOperator\<close>.\<close>

definition knownConditionOperators :: "condition_operator list" where
  "knownConditionOperators =
     [OpEquals, OpNotEquals, OpContains, OpPrefix, OpNotPrefix, OpSuffix, OpNotSuffix,
      OpExists, OpNotExists, OpGt, OpLt, OpGte, OpLte, OpIn, OpNotIn, OpNotContains,
      OpRegex, OpBetween, OpNotBetween, OpUnique, OpTypeOf, OpTypeMap, OpTypeList,
      OpTypeString, OpTypeNumber, OpTypeBool, OpTypeNull]"

definition IsValidConditionOperator :: "condition_operator \<Rightarrow> bool" where
  "IsValidConditionOperator op \<longleftrightarrow> List.member knownConditionOperators op"

lemma valid_operator_iff: "IsValidConditionOperator op \<longleftrightarrow> (\<forall>s. op \<noteq> OpOther s)"
  by (cases op) (auto simp: IsValidConditionOperator_def knownConditionOperators_def)

section \<open>Conditions\<close>

record time_window =
  tw_after :: string
  tw_before :: string

record day_of_week =
  dw_weekday :: "bool option"
  dw_weekend :: "bool option"
  dw_in :: "string list"
  dw_not_in :: "string list"

record cross_source =
  cs_endpoint :: string
  cs_host :: string
  cs_protocol :: string
  cs_namespace :: string

text \<open>Durations are nanoseconds; an absent pointer is \<open>None\<close>, an absent string is empty.\<close>

record condition =
  c_field :: string
  c_operator :: condition_operator
  c_value :: string
  c_equals :: string
  c_not_equals :: string
  c_contains :: string
  c_not_contains :: string
  c_regex :: string
  c_prefix :: string
  c_not_prefix :: string
  c_suffix :: string
  c_not_suffix :: string
  c_exists :: "bool option"
  c_not_exists :: "bool option"
  c_greater_than :: string
  c_less_than :: string
  c_gte :: string
  c_lte :: string
  c_min :: string
  c_max :: string
  c_between :: string
  c_not_between :: string
  c_in :: string
  c_not_in :: string
  c_time :: "time_window option"
  c_day_of_week :: "day_of_week option"
  c_cron :: string
  c_duration :: int
  c_negate :: bool
  c_source :: "cross_source option"

definition no_condition :: condition where
  "no_condition =
     \<lparr>c_field = [], c_operator = no_operator, c_value = [], c_equals = [], c_not_equals = [],
      c_contains = [], c_not_contains = [], c_regex = [], c_prefix = [], c_not_prefix = [],
      c_suffix = [], c_not_suffix = [], c_exists = None, c_not_exists = None,
      c_greater_than = [], c_less_than = [], c_gte = [], c_lte = [], c_min = [], c_max = [],
      c_between = [], c_not_between = [], c_in = [], c_not_in = [], c_time = None,
      c_day_of_week = None, c_cron = [], c_duration = 0, c_negate = False, c_source = None\<rparr>"

definition ResolveConditionOp :: "condition \<Rightarrow> condition_operator \<times> string" where
  "ResolveConditionOp c =
     (if c_exists c = Some True then (OpExists, [])
      else if c_not_exists c = Some True then (OpNotExists, [])
      else if c_equals c \<noteq> [] then (OpEquals, c_equals c)
      else if c_not_equals c \<noteq> [] then (OpNotEquals, c_not_equals c)
      else if c_prefix c \<noteq> [] then (OpPrefix, c_prefix c)
      else if c_not_prefix c \<noteq> [] then (OpNotPrefix, c_not_prefix c)
      else if c_suffix c \<noteq> [] then (OpSuffix, c_suffix c)
      else if c_not_suffix c \<noteq> [] then (OpNotSuffix, c_not_suffix c)
      else if c_contains c \<noteq> [] then (OpContains, c_contains c)
      else if c_not_contains c \<noteq> [] then (OpNotContains, c_not_contains c)
      else if c_regex c \<noteq> [] then (OpRegex, c_regex c)
      else if c_greater_than c \<noteq> [] then (OpGt, c_greater_than c)
      else if c_less_than c \<noteq> [] then (OpLt, c_less_than c)
      else if c_gte c \<noteq> [] then (OpGte, c_gte c)
      else if c_lte c \<noteq> [] then (OpLte, c_lte c)
      else if c_min c \<noteq> [] then (OpGte, c_min c)
      else if c_max c \<noteq> [] then (OpLte, c_max c)
      else if c_between c \<noteq> [] then (OpBetween, c_between c)
      else if c_not_between c \<noteq> [] then (OpNotBetween, c_not_between c)
      else if c_in c \<noteq> [] then (OpIn, c_in c)
      else if c_not_in c \<noteq> [] then (OpNotIn, c_not_in c)
      else if c_operator c \<noteq> no_operator then (c_operator c, c_value c)
      else if c_value c \<noteq> [] then (OpEquals, c_value c)
      else (OpExists, []))"

section \<open>Numbers and ranges\<close>

text \<open>
  \<^verbatim>\<open>typeParseFloat\<close> treats the empty string as zero; on a scan error the variable keeps
  its zero value, so the pair is the value and whether there was no error.
\<close>

definition typeParseFloat :: "goenv \<Rightarrow> string \<Rightarrow> f64 \<times> bool" where
  "typeParseFloat E s =
     (if s = [] then (f_zero, True)
      else case ge_scan_float E s of None \<Rightarrow> (f_zero, False) | Some f \<Rightarrow> (f, True))"

definition parseBetween :: "goenv \<Rightarrow> string \<Rightarrow> (f64 \<times> f64) option" where
  "parseBetween E expected =
     (case typesSplitComma expected of
        [a, b] \<Rightarrow>
          (case typeParseFloat E (typesTrimSpace a) of
             (lo, True) \<Rightarrow>
               (case typeParseFloat E (typesTrimSpace b) of
                  (hi, True) \<Rightarrow> Some (lo, hi)
                | _ \<Rightarrow> None)
           | _ \<Rightarrow> None)
      | _ \<Rightarrow> None)"

text \<open>The numeric comparisons: an absent or non-numeric field counts as zero.\<close>

definition numeric_op :: "goenv \<Rightarrow> (f64 \<Rightarrow> f64 \<Rightarrow> bool) \<Rightarrow> string \<Rightarrow> string \<Rightarrow> bool" where
  "numeric_op E cmp fieldVal expected =
     (case typeParseFloat E expected of
        (_, False) \<Rightarrow> False
      | (ev, True) \<Rightarrow> cmp (fst (typeParseFloat E fieldVal)) ev)"

fun in_list_loop :: "string list \<Rightarrow> string \<Rightarrow> bool" where
  "in_list_loop [] fieldVal = False"
| "in_list_loop (v # vs) fieldVal =
     (if typesTrimSpace v = fieldVal then True else in_list_loop vs fieldVal)"

section \<open>Uniqueness\<close>

definition uniquenessCheckerKey :: string where
  "uniquenessCheckerKey = ''_uniquenessChecker''"

definition resolveUnique :: "goenv \<Rightarrow> gmap \<Rightarrow> string \<Rightarrow> string \<Rightarrow> bool" where
  "resolveUnique E data field fieldVal =
     (if data uniquenessCheckerKey = Some VChecker then
        (let selfNS = fst (ResolveScalarField E data ''metadata.namespace'');
             selfName = fst (ResolveScalarField E data ''metadata.name'')
         in case ge_is_unique E field fieldVal selfNS selfName of
              None \<Rightarrow> True
            | Some unique \<Rightarrow> unique)
      else True)"

section \<open>Applying an operator\<close>

fun applyOperator ::
  "goenv \<Rightarrow> condition_operator \<Rightarrow> string \<Rightarrow> string \<Rightarrow> gmap \<Rightarrow> condition \<Rightarrow> bool" where
  "applyOperator E OpExists fv ev data c = (fv \<noteq> [] \<and> fv \<noteq> ''<no value>'')"
| "applyOperator E OpNotExists fv ev data c = (fv = [] \<or> fv = ''<no value>'')"
| "applyOperator E OpEquals fv ev data c = (fv = ev)"
| "applyOperator E OpNotEquals fv ev data c = (fv \<noteq> ev)"
| "applyOperator E OpContains fv ev data c = typeContains fv ev"
| "applyOperator E OpNotContains fv ev data c = (\<not> typeContains fv ev)"
| "applyOperator E OpRegex fv ev data c =
     (case ge_regex E ev fv of None \<Rightarrow> False | Some b \<Rightarrow> b)"
| "applyOperator E OpPrefix fv ev data c = typeHasPrefix fv ev"
| "applyOperator E OpNotPrefix fv ev data c = (\<not> typeHasPrefix fv ev)"
| "applyOperator E OpSuffix fv ev data c = typeHasSuffix fv ev"
| "applyOperator E OpNotSuffix fv ev data c = (\<not> typeHasSuffix fv ev)"
| "applyOperator E OpGt fv ev data c = numeric_op E (\<lambda>a b. f_less b a) fv ev"
| "applyOperator E OpLt fv ev data c = numeric_op E f_less fv ev"
| "applyOperator E OpGte fv ev data c = numeric_op E (\<lambda>a b. f_le b a) fv ev"
| "applyOperator E OpLte fv ev data c = numeric_op E f_le fv ev"
| "applyOperator E OpIn fv ev data c = in_list_loop (typesSplitComma ev) fv"
| "applyOperator E OpNotIn fv ev data c = (\<not> in_list_loop (typesSplitComma ev) fv)"
| "applyOperator E OpBetween fv ev data c =
     (case parseBetween E ev of
        None \<Rightarrow> False
      | Some (lo, hi) \<Rightarrow>
          (case typeParseFloat E fv of (x, ok) \<Rightarrow> ok \<and> f_le lo x \<and> f_le x hi))"
| "applyOperator E OpNotBetween fv ev data c =
     (case parseBetween E ev of
        None \<Rightarrow> False
      | Some (lo, hi) \<Rightarrow>
          (case typeParseFloat E fv of (x, ok) \<Rightarrow> ok \<and> (f_less x lo \<or> f_less hi x)))"
| "applyOperator E OpUnique fv ev data c = resolveUnique E data (c_field c) fv"
| "applyOperator E OpTypeOf fv ev data c = (TypeOf (NavigateRawPath data (c_field c)) = ev)"
| "applyOperator E OpTypeMap fv ev data c = (TypeOf (NavigateRawPath data (c_field c)) = ''map'')"
| "applyOperator E OpTypeList fv ev data c = (TypeOf (NavigateRawPath data (c_field c)) = ''slice'')"
| "applyOperator E OpTypeString fv ev data c = (TypeOf (NavigateRawPath data (c_field c)) = ''string'')"
| "applyOperator E OpTypeNumber fv ev data c = (TypeOf (NavigateRawPath data (c_field c)) = ''number'')"
| "applyOperator E OpTypeBool fv ev data c = (TypeOf (NavigateRawPath data (c_field c)) = ''bool'')"
| "applyOperator E OpTypeNull fv ev data c = (TypeOf (NavigateRawPath data (c_field c)) = ''null'')"
| "applyOperator E (OpOther s) fv ev data c = False"

section \<open>Clock conditions\<close>

text \<open>
  \<^verbatim>\<open>time.Parse("15:04", s)\<close>: an hour of one or two digits below 24, a colon, a minute of
  exactly two digits below 60, and nothing after it.
\<close>

definition parse_clock :: "string \<Rightarrow> (nat \<times> nat) option" where
  "parse_clock s =
     (let digits = takeWhile is_digit (take 2 s); rest = drop (length digits) s in
      if digits = [] then None
      else case rest of
        c # a # b # [] \<Rightarrow>
          (let h = the (digits_val 0 digits); m = digit_val a * 10 + digit_val b in
           if c = CHR '':'' \<and> is_digit a \<and> is_digit b \<and> h < 24 \<and> m < 60 then Some (h, m) else None)
      | _ \<Rightarrow> None)"

definition parseHHMM :: "string \<Rightarrow> gotime \<Rightarrow> int option" where
  "parseHHMM s now = map_option (\<lambda>(h, m). now_at now h m) (parse_clock s)"

definition evalTimeWindow :: "time_window \<Rightarrow> gotime \<Rightarrow> bool" where
  "evalTimeWindow tw now =
     (if tw_after tw \<noteq> [] \<and>
         (case parseHHMM (tw_after tw) now of None \<Rightarrow> True | Some t \<Rightarrow> now_ns now < t) then False
      else if tw_before tw \<noteq> [] \<and>
         (case parseHHMM (tw_before tw) now of None \<Rightarrow> True | Some t \<Rightarrow> now_ns now > t) then False
      else True)"

definition weekday_names :: "string list" where
  "weekday_names =
     [''Sunday'', ''Monday'', ''Tuesday'', ''Wednesday'', ''Thursday'', ''Friday'', ''Saturday'']"

fun day_in_loop :: "string list \<Rightarrow> string \<Rightarrow> bool" where
  "day_in_loop [] today = False"
| "day_in_loop (d # ds) today = (if equal_fold d today then True else day_in_loop ds today)"

definition evalDayOfWeek :: "day_of_week \<Rightarrow> gotime \<Rightarrow> bool" where
  "evalDayOfWeek d now =
     (let wd = now_weekday now in
      case dw_weekday d of
        Some b \<Rightarrow> b = (wd \<ge> 1 \<and> wd \<le> 5)
      | None \<Rightarrow>
          (case dw_weekend d of
             Some b \<Rightarrow> b = (wd = 6 \<or> wd = 0)
           | None \<Rightarrow>
               (let today = weekday_names ! wd in
                if dw_in d \<noteq> [] then day_in_loop (dw_in d) today
                else if dw_not_in d \<noteq> [] then \<not> day_in_loop (dw_not_in d) today
                else False)))"

definition EvalDayOfWeekAt :: "day_of_week \<Rightarrow> gotime \<Rightarrow> bool" where
  "EvalDayOfWeekAt d now = evalDayOfWeek d now"

definition evalCronWindow :: "goenv \<Rightarrow> string \<Rightarrow> int \<Rightarrow> gotime \<Rightarrow> bool" where
  "evalCronWindow E expr duration now =
     (case ge_cron E expr of
        None \<Rightarrow> False
      | Some next_fire \<Rightarrow>
          (let d = (if duration = 0
                    then (let n = next_fire (now_ns now) in next_fire n - n)
                    else duration)
           in \<not> next_fire (now_ns now - d) > now_ns now))"

section \<open>Evaluating conditions\<close>

definition IsTemplate :: "string \<Rightarrow> bool" where
  "IsTemplate s = str_contains s ''{{''"

text \<open>\<^verbatim>\<open>TemplateEvaluator\<close>: \<open>None\<close> is the nil evaluator; the function fails with \<open>None\<close>.\<close>

type_synonym evaluator = "(string \<Rightarrow> string option) option"

definition cron_window_state :: "gmap \<Rightarrow> string \<Rightarrow> bool option" where
  "cron_window_state data expr =
     (case data ''_cronWindows'' of
        Some (VMap windows) \<Rightarrow> map_option (\<lambda>v. v = VStr ''true'') (windows expr)
      | _ \<Rightarrow> None)"

definition resolve_expected :: "evaluator \<Rightarrow> string \<Rightarrow> string" where
  "resolve_expected ev expected =
     (case ev of
        None \<Rightarrow> expected
      | Some f \<Rightarrow>
          (if IsTemplate expected then (case f expected of None \<Rightarrow> expected | Some r \<Rightarrow> r)
           else expected))"

definition evaluateOneCond :: "goenv \<Rightarrow> gotime \<Rightarrow> gmap \<Rightarrow> condition \<Rightarrow> evaluator \<Rightarrow> bool" where
  "evaluateOneCond E now data c ev =
     (case c_time c of
        Some tw \<Rightarrow> evalTimeWindow tw now
      | None \<Rightarrow>
     (case c_day_of_week c of
        Some d \<Rightarrow> evalDayOfWeek d now
      | None \<Rightarrow>
     (if c_cron c \<noteq> [] then
        (case cron_window_state data (c_cron c) of
           Some opened \<Rightarrow> opened
         | None \<Rightarrow> evalCronWindow E (c_cron c) (c_duration c) now)
      else
        (case ResolveConditionOp c of (op, expected0) \<Rightarrow>
           (let expected = resolve_expected ev expected0 in
            if IsTemplate (c_field c) \<and> ev \<noteq> None then
              (case the ev (c_field c) of
                 None \<Rightarrow> False
               | Some result \<Rightarrow> applyOperator E op result expected data c)
            else applyOperator E op (NavigateDotPath E data (c_field c)) expected data c)))))"

definition EvaluateOneCond :: "goenv \<Rightarrow> gotime \<Rightarrow> gmap \<Rightarrow> condition \<Rightarrow> evaluator \<Rightarrow> bool" where
  "EvaluateOneCond E now data c ev =
     (let result = evaluateOneCond E now data c ev in if c_negate c then \<not> result else result)"

fun all_of_loop :: "goenv \<Rightarrow> gotime \<Rightarrow> gmap \<Rightarrow> condition list \<Rightarrow> evaluator \<Rightarrow> bool" where
  "all_of_loop E now data [] ev = True"
| "all_of_loop E now data (c # cs) ev =
     (if \<not> EvaluateOneCond E now data c ev then False else all_of_loop E now data cs ev)"

fun any_of_loop :: "goenv \<Rightarrow> gotime \<Rightarrow> gmap \<Rightarrow> condition list \<Rightarrow> evaluator \<Rightarrow> bool" where
  "any_of_loop E now data [] ev = False"
| "any_of_loop E now data (c # cs) ev =
     (if EvaluateOneCond E now data c ev then True else any_of_loop E now data cs ev)"

definition EvaluateConditions ::
  "goenv \<Rightarrow> gotime \<Rightarrow> gmap \<Rightarrow> condition list \<Rightarrow> condition list \<Rightarrow> evaluator \<Rightarrow> bool" where
  "EvaluateConditions E now data allOf or_block ev =
     (if \<not> all_of_loop E now data allOf ev then False
      else if length or_block > 0 then any_of_loop E now data or_block ev
      else True)"

section \<open>Lemmas on the evaluator\<close>

lemma all_of_loop_eq: "all_of_loop E now data cs ev = list_all (\<lambda>c. EvaluateOneCond E now data c ev) cs"
  by (induction cs) auto

lemma any_of_loop_eq: "any_of_loop E now data cs ev = list_ex (\<lambda>c. EvaluateOneCond E now data c ev) cs"
  by (induction cs) auto

lemma in_list_loop_eq: "in_list_loop vs x \<longleftrightarrow> x \<in> trim_with is_blank ` set vs"
  by (induction vs) auto

lemma day_in_loop_eq: "day_in_loop ds today = list_ex (\<lambda>d. equal_fold d today) ds"
  by (induction ds) auto

lemma parseBetween_pair:
  assumes "CHR '','' \<notin> set a" "CHR '','' \<notin> set b"
  shows "parseBetween E (a @ '','' @ b) =
    (case (typeParseFloat E (trim_with is_blank a), typeParseFloat E (trim_with is_blank b)) of
       ((lo, True), (hi, True)) \<Rightarrow> Some (lo, hi) | _ \<Rightarrow> None)"
  using assms
  by (auto simp: parseBetween_def split_char_append split_char_no_sep split: prod.splits bool.splits)

lemma plain_condition_eval:
  assumes "c_time c = None" "c_day_of_week c = None" "c_cron c = []" "c_negate c = False"
    and "ResolveConditionOp c = (op, expected)"
  shows "EvaluateOneCond E now data c None =
     applyOperator E op (NavigateDotPath E data (c_field c)) expected data c"
  using assms by (simp add: EvaluateOneCond_def evaluateOneCond_def resolve_expected_def)

lemmas evaluator_loops = all_of_loop_eq any_of_loop_eq in_list_loop_eq day_in_loop_eq

section \<open>Properties\<close>

text \<open>
  A gate passes exactly when every \<^verbatim>\<open>when\<close> condition holds and, if an \<^verbatim>\<open>or\<close> block is
  declared, at least one of its conditions holds; an empty block always passes.
\<close>
lemma EvaluateConditions_meaning:
  "EvaluateConditions E now data allOf or_block ev \<longleftrightarrow>
     list_all (\<lambda>c. EvaluateOneCond E now data c ev) allOf \<and>
     (or_block = [] \<or> list_ex (\<lambda>c. EvaluateOneCond E now data c ev) or_block)"
  by (simp add: EvaluateConditions_def evaluator_loops)

text \<open>
  The index loops of the condition evaluator compute the library functions: splitting,
  trimming blanks and tabs, substring, prefix and suffix.
\<close>
lemma string_loops_correct:
  "typesSplitOn s sep = split_char sep s \<and>
   join_char sep (typesSplitOn s sep) = s \<and>
   typesTrimSpace s = rev (dropWhile is_blank (rev (dropWhile is_blank s))) \<and>
   (typeContains s t \<longleftrightarrow> (\<exists>p q. s = p @ t @ q)) \<and>
   (typeHasPrefix s t \<longleftrightarrow> prefix t s) \<and>
   (typeHasSuffix s t \<longleftrightarrow> suffix t s)"
  by (simp add: str_contains_iff str_has_prefix_iff str_has_suffix_iff trim_with_def)

text \<open>
  \<^verbatim>\<open>between: "a,b"\<close> means \<^verbatim>\<open>min: a\<close> and \<^verbatim>\<open>max: b\<close> for a field that parses as a number:
  both bounds are inclusive.  On a field that does not parse, \<^verbatim>\<open>between\<close> fails although
  \<^verbatim>\<open>min\<close> and \<^verbatim>\<open>max\<close> read it as zero.
\<close>
lemma between_is_min_and_max:
  assumes "CHR '','' \<notin> set a" "CHR '','' \<notin> set b"
    and "typesTrimSpace a = a" "typesTrimSpace b = b"
  shows "applyOperator E OpBetween fv (a @ '','' @ b) data c \<longleftrightarrow>
      snd (typeParseFloat E fv) \<and>
      applyOperator E OpGte fv a data c \<and> applyOperator E OpLte fv b data c"
  using assms
  by (cases "typeParseFloat E fv")
    (auto simp: parseBetween_pair numeric_op_def simp del: append.simps
      split: prod.splits bool.splits)

text \<open>
  \<^verbatim>\<open>notBetween\<close> is the exact complement of \<^verbatim>\<open>between\<close>, and \<^verbatim>\<open>gt\<close> of \<^verbatim>\<open>lte\<close>, on numbers that
  are not NaN; without a well-formed bound both sides of each pair fail.
\<close>
lemma numeric_complements:
  "(case parseBetween E ev of
      None \<Rightarrow> \<not> applyOperator E OpBetween fv ev data c \<and> \<not> applyOperator E OpNotBetween fv ev data c
    | Some (lo, hi) \<Rightarrow>
        lo = FNaN \<or> hi = FNaN \<or> fst (typeParseFloat E fv) = FNaN \<or> \<not> snd (typeParseFloat E fv) \<or>
        applyOperator E OpNotBetween fv ev data c = (\<not> applyOperator E OpBetween fv ev data c)) \<and>
   (case typeParseFloat E ev of
      (_, False) \<Rightarrow> \<not> applyOperator E OpGt fv ev data c \<and> \<not> applyOperator E OpLte fv ev data c
    | (b, True) \<Rightarrow>
        b = FNaN \<or> fst (typeParseFloat E fv) = FNaN \<or>
        applyOperator E OpGt fv ev data c = (\<not> applyOperator E OpLte fv ev data c))"
proof (intro conjI)
  show "case parseBetween E ev of
      None \<Rightarrow> \<not> applyOperator E OpBetween fv ev data c \<and> \<not> applyOperator E OpNotBetween fv ev data c
    | Some (lo, hi) \<Rightarrow>
        lo = FNaN \<or> hi = FNaN \<or> fst (typeParseFloat E fv) = FNaN \<or> \<not> snd (typeParseFloat E fv) \<or>
        applyOperator E OpNotBetween fv ev data c = (\<not> applyOperator E OpBetween fv ev data c)"
    by (auto simp: f_le_total [symmetric] split: option.splits prod.splits)
  show "case typeParseFloat E ev of
      (_, False) \<Rightarrow> \<not> applyOperator E OpGt fv ev data c \<and> \<not> applyOperator E OpLte fv ev data c
    | (b, True) \<Rightarrow>
        b = FNaN \<or> fst (typeParseFloat E fv) = FNaN \<or>
        applyOperator E OpGt fv ev data c = (\<not> applyOperator E OpLte fv ev data c)"
    by (auto simp: numeric_op_def f_le_total [symmetric] split: prod.splits bool.splits)
qed

text \<open>
  \<^verbatim>\<open>in\<close> is membership in the comma list with blanks trimmed, \<^verbatim>\<open>notIn\<close> its negation; for
  items without commas or surrounding blanks it is plain membership, the empty item
  matching an empty field.
\<close>
lemma in_operator_membership:
  assumes "items \<noteq> []"
    and "list_all (\<lambda>i. CHR '','' \<notin> set i \<and> typesTrimSpace i = i) items"
  shows "applyOperator E OpIn fv (join_char (CHR '','') items) data c = (fv \<in> set items)
     \<and> applyOperator E OpNotIn fv (join_char (CHR '','') items) data c = (fv \<notin> set items)"
proof -
  have "split_char (CHR '','') (join_char (CHR '','') items) = items"
    using assms by (simp add: split_join list_all_iff)
  moreover have "trim_with is_blank ` set items = set items"
    using assms(2) by (force simp: list_all_iff)
  ultimately show ?thesis by (simp add: in_list_loop_eq)
qed

text \<open>
  An explicit operator the evaluator does not know makes the condition fail (and a
  negated one pass), whatever the data: it is not skipped, as the comment on
  \<^verbatim>\<open>IsValidConditionOperator\<close> says.
\<close>
lemma unknown_operator_fails:
  assumes "\<not> IsValidConditionOperator op" "op \<noteq> no_operator"
  shows "EvaluateOneCond E now data
      (no_condition\<lparr>c_field := f, c_operator := op, c_value := v, c_negate := n\<rparr>) ev = n"
proof -
  from assms(1) obtain s where "op = OpOther s" by (auto simp: valid_operator_iff)
  with assms(2) show ?thesis
    by (auto simp: EvaluateOneCond_def evaluateOneCond_def no_condition_def ResolveConditionOp_def
        split: option.splits)
qed

text \<open>
  A clock window with both ends holds exactly from \<^verbatim>\<open>after\<close> to \<^verbatim>\<open>before\<close>, both inclusive;
  one whose \<^verbatim>\<open>after\<close> lies later in the day than its \<^verbatim>\<open>before\<close> (an overnight window) never
  holds.
\<close>
lemma time_window_bounds:
  assumes "parseHHMM (tw_after tw) now = Some a" "parseHHMM (tw_before tw) now = Some b"
  shows "evalTimeWindow tw now = (a \<le> now_ns now \<and> now_ns now \<le> b)
     \<and> (b < a \<longrightarrow> \<not> evalTimeWindow tw now)"
proof -
  have "tw_after tw \<noteq> []" "tw_before tw \<noteq> []"
    using assms by (auto simp: parseHHMM_def parse_clock_def Let_def)
  with assms show ?thesis by (auto simp: evalTimeWindow_def)
qed

end
