(* ===== verification/Validation.thy ===== *)
theory Validation
  imports Conditions
begin

text \<open>
  Validation rules: \<^verbatim>\<open>pkg/types/validation_eval.go\<close> (one rule against one object),
  \<^verbatim>\<open>pkg/types/admission.go\<close> (the rule list and its queries) and
  \<^verbatim>\<open>pkg/runtime/coordinator/prepare/validation.go\<close> (all rules of a CRD at reconcile
  time), with the template resolver they use (\<^verbatim>\<open>pkg/template/resolver.go\<close>).
\<close>

section \<open>The template resolver\<close>

text \<open>
  \<open>rs_exec\<close> is Go's \<^verbatim>\<open>text/template\<close>: parsing and executing a template against the data
  map with the note functions; \<open>None\<close> is its error.
\<close>

record resolver =
  rs_data :: gmap
  rs_exec :: "string \<Rightarrow> gmap \<Rightarrow> string option"

function str_remove_all :: "string \<Rightarrow> string \<Rightarrow> string" where
  "str_remove_all t [] = []"
| "str_remove_all t (c # s) =
     (if t \<noteq> [] \<and> str_has_prefix (c # s) t then str_remove_all t (drop (length t) (c # s))
      else c # str_remove_all t s)"
  by pat_completeness auto
termination by (relation "measure (length \<circ> snd)") auto

definition resolve :: "resolver \<Rightarrow> string \<Rightarrow> (string \<times> bool) option" where
  "resolve r value =
     (if value = [] then Some ([], False)
      else if \<not> IsTemplate value then Some (value, False)
      else case rs_exec r value (rs_data r) of
             None \<Rightarrow> None
           | Some buf \<Rightarrow>
               (let raw = trim_space buf
                in Some (str_remove_all ''<no value>'' raw, str_contains raw ''<no value>'')))"

definition Resolve :: "resolver \<Rightarrow> string \<Rightarrow> string option" where
  "Resolve r value = map_option fst (resolve r value)"

text \<open>\<^verbatim>\<open>name, _ := resolver.Resolve(raw)\<close>\<close>

definition resolved_or_empty :: "resolver \<Rightarrow> string \<Rightarrow> string" where
  "resolved_or_empty r raw = (case Resolve r raw of None \<Rightarrow> [] | Some v \<Rightarrow> v)"

text \<open>\<^verbatim>\<open>WithChildren\<close>, \<^verbatim>\<open>WithMetrics\<close>, \<^verbatim>\<open>WithHealth\<close>, \<^verbatim>\<open>WithCross\<close>: an empty map adds nothing.\<close>

definition with_key :: "string \<Rightarrow> gmap \<Rightarrow> resolver \<Rightarrow> resolver" where
  "with_key k m r = (if m = Map.empty then r else r\<lparr>rs_data := (rs_data r)(k \<mapsto> VMap m)\<rparr>)"

definition ResolveStrict :: "resolver \<Rightarrow> string \<Rightarrow> (string \<times> bool) option" where
  "ResolveStrict r value = resolve r value"

definition RenderString :: "resolver \<Rightarrow> string \<Rightarrow> string option" where
  "RenderString r tmpl = (case Resolve r tmpl of None \<Rightarrow> None | Some result \<Rightarrow> Some result)"

text \<open>The evaluator a possibly nil resolver hands to the condition evaluator.\<close>

definition TemplateEvaluator :: "resolver option \<Rightarrow> evaluator" where
  "TemplateEvaluator r = map_option RenderString r"

text \<open>\<^verbatim>\<open>if resolver != nil && IsTemplate(s) { if resolved, err := ...; err == nil { s = resolved } }\<close>\<close>

definition resolve_template :: "resolver option \<Rightarrow> string \<Rightarrow> string" where
  "resolve_template r s =
     (case r of
        None \<Rightarrow> s
      | Some rs \<Rightarrow> (if IsTemplate s then (case Resolve rs s of None \<Rightarrow> s | Some t \<Rightarrow> t) else s))"

section \<open>Rules\<close>

text \<open>\<^verbatim>\<open>ValidationAction\<close>; \<open>ActOther []\<close> is the omitted action.\<close>

datatype validation_action = ActDeny | ActWarn | ActOther string

definition EffectiveAction :: "validation_action \<Rightarrow> validation_action" where
  "EffectiveAction a = (if a = ActOther [] then ActDeny else a)"

definition IsDeny :: "validation_action \<Rightarrow> bool" where
  "IsDeny a = (EffectiveAction a = ActDeny)"

definition IsWarn :: "validation_action \<Rightarrow> bool" where
  "IsWarn a = (EffectiveAction a = ActWarn)"

record fires_config =
  fc_reconcile :: "bool option"

definition FiresAtReconcile :: "fires_config option \<Rightarrow> bool" where
  "FiresAtReconcile f =
     (case f of None \<Rightarrow> True | Some c \<Rightarrow> (case fc_reconcile c of None \<Rightarrow> True | Some b \<Rightarrow> b))"

record validation_rule =
  v_field :: string
  v_message :: string
  v_action :: validation_action
  v_equals :: string
  v_not_equals :: string
  v_prefix :: string
  v_not_prefix :: string
  v_suffix :: string
  v_not_suffix :: string
  v_contains :: string
  v_min :: string
  v_max :: string
  v_greater_than :: string
  v_less_than :: string
  v_gte :: string
  v_lte :: string
  v_not_contains :: string
  v_regex :: string
  v_between :: string
  v_not_between :: string
  v_in :: string
  v_not_in :: string
  v_operator :: condition_operator
  v_value :: string
  v_when :: "condition list"
  v_or :: "condition list"
  v_fires :: "fires_config option"
  v_link :: string

definition no_rule :: validation_rule where
  "no_rule =
     \<lparr>v_field = [], v_message = [], v_action = ActOther [], v_equals = [], v_not_equals = [],
      v_prefix = [], v_not_prefix = [], v_suffix = [], v_not_suffix = [], v_contains = [],
      v_min = [], v_max = [], v_greater_than = [], v_less_than = [], v_gte = [], v_lte = [],
      v_not_contains = [], v_regex = [], v_between = [], v_not_between = [], v_in = [],
      v_not_in = [], v_operator = no_operator, v_value = [], v_when = [], v_or = [],
      v_fires = None, v_link = []\<rparr>"

definition ShorthandsEmpty :: "validation_rule \<Rightarrow> bool" where
  "ShorthandsEmpty r \<longleftrightarrow>
     v_equals r = [] \<and> v_not_equals r = [] \<and> v_greater_than r = [] \<and> v_less_than r = [] \<and>
     v_gte r = [] \<and> v_lte r = [] \<and> v_between r = [] \<and> v_not_between r = [] \<and>
     v_contains r = [] \<and> v_not_contains r = [] \<and> v_in r = [] \<and> v_not_in r = [] \<and>
     v_prefix r = [] \<and> v_not_prefix r = [] \<and> v_suffix r = [] \<and> v_not_suffix r = [] \<and>
     v_min r = [] \<and> v_max r = [] \<and> v_regex r = []"

definition IsEmptyAssertions :: "validation_rule \<Rightarrow> bool" where
  "IsEmptyAssertions r \<longleftrightarrow> v_operator r = no_operator \<and> ShorthandsEmpty r"

definition ResolveValidationOp :: "validation_rule \<Rightarrow> condition_operator \<times> string" where
  "ResolveValidationOp r =
     (if v_equals r \<noteq> [] then (OpEquals, v_equals r)
      else if v_not_equals r \<noteq> [] then (OpNotEquals, v_not_equals r)
      else if v_prefix r \<noteq> [] then (OpPrefix, v_prefix r)
      else if v_not_prefix r \<noteq> [] then (OpNotPrefix, v_not_prefix r)
      else if v_suffix r \<noteq> [] then (OpSuffix, v_suffix r)
      else if v_not_suffix r \<noteq> [] then (OpNotSuffix, v_not_suffix r)
      else if v_contains r \<noteq> [] then (OpContains, v_contains r)
      else if v_not_contains r \<noteq> [] then (OpNotContains, v_not_contains r)
      else if v_regex r \<noteq> [] then (OpRegex, v_regex r)
      else if v_min r \<noteq> [] then (OpGte, v_min r)
      else if v_max r \<noteq> [] then (OpLte, v_max r)
      else if v_greater_than r \<noteq> [] then (OpGt, v_greater_than r)
      else if v_less_than r \<noteq> [] then (OpLt, v_less_than r)
      else if v_gte r \<noteq> [] then (OpGte, v_gte r)
      else if v_lte r \<noteq> [] then (OpLte, v_lte r)
      else if v_between r \<noteq> [] then (OpBetween, v_between r)
      else if v_not_between r \<noteq> [] then (OpNotBetween, v_not_between r)
      else if v_in r \<noteq> [] then (OpIn, v_in r)
      else if v_not_in r \<noteq> [] then (OpNotIn, v_not_in r)
      else if v_operator r \<noteq> no_operator then (v_operator r, v_value r)
      else (OpExists, []))"

definition RuleTypeLabel :: "validation_rule \<Rightarrow> string" where
  "RuleTypeLabel r =
     (if v_equals r \<noteq> [] then ''equals''
      else if v_not_equals r \<noteq> [] then ''notEquals''
      else if v_prefix r \<noteq> [] then ''prefix''
      else if v_suffix r \<noteq> [] then ''suffix''
      else if v_contains r \<noteq> [] then ''contains''
      else if v_not_contains r \<noteq> [] then ''notContains''
      else if v_regex r \<noteq> [] then ''regex''
      else if v_min r \<noteq> [] then ''min''
      else if v_max r \<noteq> [] then ''max''
      else if v_greater_than r \<noteq> [] then ''greaterThan''
      else if v_less_than r \<noteq> [] then ''lessThan''
      else if v_gte r \<noteq> [] then ''greaterThanOrEqual''
      else if v_lte r \<noteq> [] then ''lessThanOrEqual''
      else if v_between r \<noteq> [] then ''between''
      else if v_not_between r \<noteq> [] then ''notBetween''
      else if v_in r \<noteq> [] then ''in''
      else if v_not_in r \<noteq> [] then ''notIn''
      else if v_operator r \<noteq> no_operator then op_name (v_operator r)
      else ''exists'')"

section \<open>Evaluating one rule\<close>

record rule_violation =
  rv_field :: string
  rv_rule :: string
  rv_value :: string
  rv_message :: string
  rv_action :: validation_action

text \<open>
  The field's text and whether it was found: a template field is rendered, a plain path
  is read from the data and, when absent, tried as a template on the resolver.
\<close>

definition rule_field_value ::
  "goenv \<Rightarrow> gmap \<Rightarrow> resolver option \<Rightarrow> validation_rule \<Rightarrow> string \<times> bool" where
  "rule_field_value E data r rule =
     (case r of
        Some rs \<Rightarrow>
          (if IsTemplate (v_field rule) then
             (let fv = (case Resolve rs (v_field rule) of None \<Rightarrow> [] | Some t \<Rightarrow> t) in (fv, fv \<noteq> []))
           else
             (case ResolveScalarField E data (v_field rule) of
                (fv, True) \<Rightarrow> (fv, True)
              | (fv, False) \<Rightarrow>
                  (case Resolve rs (''{{ .'' @ v_field rule @ '' }}'') of
                     None \<Rightarrow> (fv, False)
                   | Some t \<Rightarrow> (if t \<noteq> [] then (t, True) else (fv, False)))))
      | None \<Rightarrow> ResolveScalarField E data (v_field rule))"

text \<open>
  The operator switch: whether the rule passes.  A malformed bound or pattern skips the
  rule; operators without a case pass.
\<close>

definition parsed_cmp :: "goenv \<Rightarrow> (f64 \<Rightarrow> f64 \<Rightarrow> bool) \<Rightarrow> string \<Rightarrow> string \<Rightarrow> bool" where
  "parsed_cmp E bad fieldVal expected =
     (case ge_parse_float E expected of
        None \<Rightarrow> True
      | Some cv \<Rightarrow> (case ge_parse_float E fieldVal of None \<Rightarrow> False | Some fv \<Rightarrow> \<not> bad fv cv))"

fun rule_passes ::
  "goenv \<Rightarrow> gmap \<Rightarrow> string \<Rightarrow> condition_operator \<Rightarrow> string \<Rightarrow> bool \<Rightarrow> string \<Rightarrow> bool" where
  "rule_passes E data field OpExists fv found ev = (\<not> (\<not> found \<or> fv = []))"
| "rule_passes E data field OpNotExists fv found ev = (\<not> (found \<and> fv \<noteq> []))"
| "rule_passes E data field OpEquals fv found ev = (\<not> (\<not> found \<or> fv \<noteq> ev))"
| "rule_passes E data field OpNotEquals fv found ev = (\<not> (found \<and> fv = ev))"
| "rule_passes E data field OpContains fv found ev = (\<not> (\<not> found \<or> \<not> str_contains fv ev))"
| "rule_passes E data field OpPrefix fv found ev = (\<not> (\<not> found \<or> \<not> str_has_prefix fv ev))"
| "rule_passes E data field OpNotPrefix fv found ev = (\<not> (\<not> found \<or> str_has_prefix fv ev))"
| "rule_passes E data field OpSuffix fv found ev = (\<not> (\<not> found \<or> \<not> str_has_suffix fv ev))"
| "rule_passes E data field OpNotSuffix fv found ev = (\<not> (\<not> found \<or> str_has_suffix fv ev))"
| "rule_passes E data field OpIn fv found ev = (\<not> (\<not> found \<or> \<not> inCommaList fv ev))"
| "rule_passes E data field OpNotIn fv found ev = (\<not> (\<not> found \<or> inCommaList fv ev))"
| "rule_passes E data field OpNotContains fv found ev = (\<not> (\<not> found \<or> str_contains fv ev))"
| "rule_passes E data field OpRegex fv found ev =
     (case ge_regex E ev fv of None \<Rightarrow> True | Some matched \<Rightarrow> \<not> (\<not> found \<or> \<not> matched))"
| "rule_passes E data field OpGt fv found ev = parsed_cmp E (\<lambda>f c. f_le f c) fv ev"
| "rule_passes E data field OpLt fv found ev = parsed_cmp E (\<lambda>f c. f_le c f) fv ev"
| "rule_passes E data field OpGte fv found ev = parsed_cmp E (\<lambda>f c. f_less f c) fv ev"
| "rule_passes E data field OpLte fv found ev = parsed_cmp E (\<lambda>f c. f_less c f) fv ev"
| "rule_passes E data field OpBetween fv found ev =
     (case parseBetween E ev of
        None \<Rightarrow> True
      | Some (lo, hi) \<Rightarrow>
          (case ge_parse_float E fv of None \<Rightarrow> False | Some f \<Rightarrow> \<not> (f_less f lo \<or> f_less hi f)))"
| "rule_passes E data field OpNotBetween fv found ev =
     (case parseBetween E ev of
        None \<Rightarrow> True
      | Some (lo, hi) \<Rightarrow>
          (case ge_parse_float E fv of None \<Rightarrow> False | Some f \<Rightarrow> \<not> (f_le lo f \<and> f_le f hi)))"
| "rule_passes E data field OpUnique fv found ev =
     (if data uniquenessCheckerKey \<noteq> Some VChecker then True
      else \<not> (\<not> found \<or> \<not> resolveUnique E data field fv))"
| "rule_passes E data field op fv found ev = True"

definition EvaluateValidationRule ::
  "goenv \<Rightarrow> gmap \<Rightarrow> resolver option \<Rightarrow> validation_rule \<Rightarrow> rule_violation option" where
  "EvaluateValidationRule E data r rule =
     (case ResolveValidationOp rule of (op, expected0) \<Rightarrow>
        (let expected = resolve_template r expected0;
             message = resolve_template r (v_message rule);
             displayField = (if v_link rule \<noteq> [] then v_link rule else v_field rule)
         in case rule_field_value E data r rule of (fieldVal, found) \<Rightarrow>
              if rule_passes E data (v_field rule) op fieldVal found expected then None
              else Some \<lparr>rv_field = displayField, rv_rule = op_name op, rv_value = fieldVal,
                         rv_message = message, rv_action = v_action rule\<rparr>))"

text \<open>The spellings of a \<^verbatim>\<open>valueType\<close> in the switches of the code.\<close>

definition int_type :: "string \<Rightarrow> bool" where
  "int_type t \<longleftrightarrow> t = ''int'' \<or> t = ''integer''"

definition bool_type :: "string \<Rightarrow> bool" where
  "bool_type t \<longleftrightarrow> t = ''bool'' \<or> t = ''boolean''"

definition float_type :: "string \<Rightarrow> bool" where
  "float_type t \<longleftrightarrow> t = ''float'' \<or> t = ''number''"

lemma type_names [simp]:
  "int_type ''int''" "int_type ''integer''" "bool_type ''bool''" "bool_type ''boolean''"
  "float_type ''float''" "float_type ''number''"
  "\<not> int_type ''bool''" "\<not> int_type ''number''" "\<not> bool_type ''number''"
  "\<not> int_type []" "\<not> bool_type []" "\<not> float_type []"
  by (simp_all add: int_type_def bool_type_def float_type_def)

text \<open>\<^verbatim>\<open>ConvertToType\<close>: the type names and the conversion, \<open>None\<close> on a parse error.\<close>

definition ConvertToType :: "goenv \<Rightarrow> string \<Rightarrow> string \<Rightarrow> gval option" where
  "ConvertToType E val valueType =
     (if int_type valueType then
        map_option (VInt KInt64) (parse_int64 val)
      else if bool_type valueType then
        map_option VBool (parse_bool val)
      else if float_type valueType then
        map_option (VFloat KF64) (ge_parse_float E val)
      else Some (VStr val))"

section \<open>The rule list of a CRD\<close>

text \<open>
  \<^verbatim>\<open>ExternalCallSpec\<close> is carried whole by the name of the call; the model reads its
  \<^verbatim>\<open>fires\<close> block only.
\<close>

record external_call =
  ec_name :: string
  ec_fires :: "fires_config option"

record validation_config =
  vc_external :: "external_call list"
  vc_rules :: "validation_rule list"

definition AdmissionExternal :: "validation_config option \<Rightarrow> external_call list" where
  "AdmissionExternal c = (case c of None \<Rightarrow> [] | Some cfg \<Rightarrow> vc_external cfg)"

definition HasExternalCall :: "validation_config option \<Rightarrow> bool" where
  "HasExternalCall c = (case c of None \<Rightarrow> False | Some cfg \<Rightarrow> length (vc_external cfg) > 0)"

definition ReconcileExternal :: "validation_config option \<Rightarrow> external_call list" where
  "ReconcileExternal c =
     (case c of None \<Rightarrow> [] | Some cfg \<Rightarrow> filter (\<lambda>e. FiresAtReconcile (ec_fires e)) (vc_external cfg))"

definition HasDenyRules :: "validation_config option \<Rightarrow> bool" where
  "HasDenyRules c =
     (case c of None \<Rightarrow> False
      | Some cfg \<Rightarrow> list_ex (\<lambda>r. IsDeny (v_action r) \<or> v_action r = ActOther []) (vc_rules cfg))"

definition HasWarnRules :: "validation_config option \<Rightarrow> bool" where
  "HasWarnRules c =
     (case c of None \<Rightarrow> False | Some cfg \<Rightarrow> list_ex (\<lambda>r. IsWarn (v_action r)) (vc_rules cfg))"

definition HasAnyRules :: "validation_config option \<Rightarrow> bool" where
  "HasAnyRules c = (case c of None \<Rightarrow> False | Some cfg \<Rightarrow> length (vc_rules cfg) > 0)"

definition HasUniqueRule :: "validation_config option \<Rightarrow> bool" where
  "HasUniqueRule c =
     (case c of None \<Rightarrow> False | Some cfg \<Rightarrow> list_ex (\<lambda>r. v_operator r = OpUnique) (vc_rules cfg))"

fun ValidationRuleFor :: "validation_rule list \<Rightarrow> string \<Rightarrow> validation_rule" where
  "ValidationRuleFor [] field = no_rule"
| "ValidationRuleFor (rule # rules) field =
     (if v_field rule = field then rule else ValidationRuleFor rules field)"

definition ValidationRulesFor :: "validation_rule list \<Rightarrow> string \<Rightarrow> validation_rule list" where
  "ValidationRulesFor rules field = filter (\<lambda>rule. v_field rule = field) rules"

section \<open>All rules of one reconcile\<close>

record validation_violation =
  vv_field :: string
  vv_rule :: string
  vv_value :: string
  vv_message :: string
  vv_action :: validation_action

record validation_result =
  vr_passed :: bool
  vr_deny :: bool
  vr_warnings :: "validation_violation list"
  vr_violations :: "validation_violation list"

definition empty_result :: validation_result where
  "empty_result = \<lparr>vr_passed = True, vr_deny = False, vr_warnings = [], vr_violations = []\<rparr>"

definition to_violation :: "validation_action \<Rightarrow> rule_violation \<Rightarrow> validation_violation" where
  "to_violation action rv =
     \<lparr>vv_field = rv_field rv, vv_rule = rv_rule rv, vv_value = rv_value rv,
      vv_message = rv_message rv, vv_action = action\<rparr>"

definition record_violation ::
  "validation_action \<Rightarrow> rule_violation \<Rightarrow> validation_result \<Rightarrow> validation_result" where
  "record_violation action rv res =
     (let violation = to_violation action rv;
          res1 = res\<lparr>vr_violations := vr_violations res @ [violation]\<rparr>
      in if action = ActDeny then res1\<lparr>vr_deny := True, vr_passed := False\<rparr>
         else if action = ActWarn then res1\<lparr>vr_warnings := vr_warnings res1 @ [violation]\<rparr>
         else res1)"

definition validate_step ::
  "goenv \<Rightarrow> gotime \<Rightarrow> gmap \<Rightarrow> resolver option \<Rightarrow> validation_rule \<Rightarrow> validation_result \<Rightarrow> validation_result" where
  "validate_step E now data r rule res =
     (if \<not> FiresAtReconcile (v_fires rule) then res
      else if \<not> EvaluateConditions E now data (v_when rule) (v_or rule) (TemplateEvaluator r) then res
      else case EvaluateValidationRule E data r rule of
             None \<Rightarrow> res
           | Some rv \<Rightarrow> record_violation (EffectiveAction (v_action rule)) rv res)"

fun validate_loop ::
  "goenv \<Rightarrow> gotime \<Rightarrow> gmap \<Rightarrow> resolver option \<Rightarrow> validation_rule list \<Rightarrow> validation_result \<Rightarrow> validation_result" where
  "validate_loop E now data r [] res = res"
| "validate_loop E now data r (rule # rules) res =
     validate_loop E now data r rules (validate_step E now data r rule res)"

definition runValidation ::
  "goenv \<Rightarrow> gotime \<Rightarrow> gmap \<Rightarrow> resolver option \<Rightarrow> validation_config option \<Rightarrow> validation_result" where
  "runValidation E now data r cfg =
     (case cfg of
        None \<Rightarrow> empty_result
      | Some c \<Rightarrow>
          (if vc_rules c = [] then empty_result
           else validate_loop E now data r (vc_rules c) empty_result))"

text \<open>The label the run is counted under in \<^verbatim>\<open>controller_validation_total\<close>.\<close>

definition validation_label :: "validation_result \<Rightarrow> string" where
  "validation_label res =
     (if \<not> vr_passed res then ''rejected''
      else if length (vr_warnings res) > 0 then ''warned'' else ''passed'')"

definition HasWarnings :: "validation_result \<Rightarrow> bool" where
  "HasWarnings res \<longleftrightarrow> length (vr_warnings res) > 0"

definition HasViolations :: "validation_result \<Rightarrow> bool" where
  "HasViolations res \<longleftrightarrow> length (vr_violations res) > 0"

fun join_str :: "string \<Rightarrow> string list \<Rightarrow> string" where
  "join_str sep [] = []"
| "join_str sep [x] = x"
| "join_str sep (x # y # xs) = x @ sep @ join_str sep (y # xs)"

definition violation_text :: "goenv \<Rightarrow> validation_violation \<Rightarrow> string" where
  "violation_text E v =
     ''field '' @ ge_quote E (vv_field v) @ '': '' @ vv_message v @
     '' (got '' @ ge_quote E (vv_value v) @ '')''"

definition result_error :: "goenv \<Rightarrow> validation_result \<Rightarrow> string option" where
  "result_error E res =
     (if vr_passed res then None
      else Some (''validation failed: '' @ join_str ''; '' (map (violation_text E) (vr_violations res))))"

definition ViolationSummary :: "validation_result \<Rightarrow> string" where
  "ViolationSummary res =
     (if vr_passed res \<or> length (vr_violations res) = 0 then []
      else join_str ''; '' (map (\<lambda>v. vv_field v @ '': '' @ vv_message v) (vr_violations res)))"

definition DenialMessage :: "goenv \<Rightarrow> validation_result \<Rightarrow> string" where
  "DenialMessage E res =
     (if \<not> vr_deny res then []
      else case vr_violations res of
             [] \<Rightarrow> ''validation denied''
           | v # _ \<Rightarrow> violation_text E v)"

definition DenialError :: "goenv \<Rightarrow> validation_result \<Rightarrow> string option" where
  "DenialError E res =
     (if \<not> vr_deny res then None else Some (''validation denied: '' @ DenialMessage E res))"

definition WarningSummary :: "goenv \<Rightarrow> validation_result \<Rightarrow> string" where
  "WarningSummary E res =
     (if length (vr_warnings res) = 0 then []
      else join_str ''; '' (map (\<lambda>w. ''field '' @ ge_quote E (vv_field w) @ '': '' @ vv_message w)
             (vr_warnings res)))"

text \<open>
  \<^verbatim>\<open>applyValidation\<close>: the external calls (\<^verbatim>\<open>external.Run\<close>, I/O) are the parameter \<open>run_ext\<close>,
  which returns the enriched resolver and the error, if any.
\<close>

type_synonym external_runner =
  "resolver \<Rightarrow> external_call list \<Rightarrow> resolver \<times> string option"

definition applyValidation ::
  "goenv \<Rightarrow> gotime \<Rightarrow> external_runner \<Rightarrow> resolver \<Rightarrow> validation_config option \<Rightarrow>
   resolver \<times> validation_result option \<times> string option" where
  "applyValidation E now run_ext r cfg =
     (if \<not> HasAnyRules cfg then (r, None, None)
      else
        (let calls = ReconcileExternal cfg;
             ran = (if length calls > 0 then run_ext r calls else (r, None))
         in case ran of
              (r', Some err) \<Rightarrow> (r', None, Some err)
            | (r', None) \<Rightarrow>
                (let result = runValidation E now (rs_data r') (Some r') cfg
                 in if vr_deny result then (r', Some result, DenialError E result)
                    else (r', Some result, None))))"

section \<open>Lemmas\<close>

text \<open>The rules that are evaluated and the violation each of them records.\<close>

definition rule_outcome ::
  "goenv \<Rightarrow> gotime \<Rightarrow> gmap \<Rightarrow> resolver option \<Rightarrow> validation_rule \<Rightarrow> validation_violation option" where
  "rule_outcome E now data r rule =
     (if FiresAtReconcile (v_fires rule) \<and>
         EvaluateConditions E now data (v_when rule) (v_or rule) (TemplateEvaluator r)
      then map_option (to_violation (EffectiveAction (v_action rule)))
             (EvaluateValidationRule E data r rule)
      else None)"

definition outcomes ::
  "goenv \<Rightarrow> gotime \<Rightarrow> gmap \<Rightarrow> resolver option \<Rightarrow> validation_rule list \<Rightarrow> validation_violation list" where
  "outcomes E now data r rules = List.map_filter (rule_outcome E now data r) rules"

lemma to_violation_action [simp]: "vv_action (to_violation a rv) = a"
  by (simp add: to_violation_def)

lemma validate_step_outcome:
  "validate_step E now data r rule res =
     (case rule_outcome E now data r rule of
        None \<Rightarrow> res
      | Some v \<Rightarrow> res\<lparr>vr_violations := vr_violations res @ [v],
                       vr_deny := (vr_deny res \<or> vv_action v = ActDeny),
                       vr_passed := (vr_passed res \<and> vv_action v \<noteq> ActDeny),
                       vr_warnings := vr_warnings res @ (if vv_action v = ActWarn then [v] else [])\<rparr>)"
  by (auto simp: validate_step_def rule_outcome_def record_violation_def Let_def split: option.splits)

lemma validate_loop_outcomes:
  "validate_loop E now data r rules res =
     (let vs = outcomes E now data r rules in
      res\<lparr>vr_violations := vr_violations res @ vs,
          vr_deny := (vr_deny res \<or> list_ex (\<lambda>v. vv_action v = ActDeny) vs),
          vr_passed := (vr_passed res \<and> \<not> list_ex (\<lambda>v. vv_action v = ActDeny) vs),
          vr_warnings := vr_warnings res @ filter (\<lambda>v. vv_action v = ActWarn) vs\<rparr>)"
proof (induction rules arbitrary: res)
  case Nil
  then show ?case by (simp add: outcomes_def map_filter_simps)
next
  case (Cons rule rules)
  show ?case
    by (cases "rule_outcome E now data r rule")
      (simp_all add: Cons validate_step_outcome outcomes_def map_filter_simps Let_def)
qed

lemma runValidation_outcomes:
  "runValidation E now data r (Some c) =
     (let vs = outcomes E now data r (vc_rules c) in
      \<lparr>vr_passed = (\<not> list_ex (\<lambda>v. vv_action v = ActDeny) vs),
       vr_deny = list_ex (\<lambda>v. vv_action v = ActDeny) vs,
       vr_warnings = filter (\<lambda>v. vv_action v = ActWarn) vs, vr_violations = vs\<rparr>)"
  by (auto simp: runValidation_def validate_loop_outcomes empty_result_def outcomes_def
      map_filter_simps Let_def)

lemma outcome_action:
  "rule_outcome E now data r rule = Some v \<Longrightarrow> vv_action v = EffectiveAction (v_action rule)"
  by (auto simp: rule_outcome_def split: if_splits)

lemma outcomes_action:
  "v \<in> set (outcomes E now data r rules) \<Longrightarrow>
   \<exists>rule \<in> set rules. vv_action v = EffectiveAction (v_action rule)"
  by (induction rules)
    (auto simp: outcomes_def map_filter_simps split: option.splits dest: outcome_action)

lemma static_rule_value:
  "rule_field_value E data None rule = ResolveScalarField E data (v_field rule)"
  by (simp add: rule_field_value_def)

lemma explicit_operator_rule:
  "op \<noteq> no_operator \<Longrightarrow>
   ResolveValidationOp (no_rule\<lparr>v_field := f, v_operator := op, v_value := v\<rparr>) = (op, v)"
  by (simp add: ResolveValidationOp_def no_rule_def)

lemma static_rule_verdict:
  assumes "op \<noteq> no_operator" "ResolveScalarField E data f = (fv, found)"
  shows "(EvaluateValidationRule E data None (no_rule\<lparr>v_field := f, v_operator := op, v_value := v\<rparr>) = None)
    = rule_passes E data f op fv found v"
proof -
  have "v_field (no_rule\<lparr>v_field := f, v_operator := op, v_value := v\<rparr>) = f" by simp
  then show ?thesis
    using assms
    by (simp add: EvaluateValidationRule_def explicit_operator_rule static_rule_value
        resolve_template_def del: op_name.simps)
qed

lemma explicit_operator_condition:
  assumes "op \<noteq> no_operator"
  shows "EvaluateOneCond E now data (no_condition\<lparr>c_field := f, c_operator := op, c_value := v\<rparr>) None =
     applyOperator E op (NavigateDotPath E data f) v data
       (no_condition\<lparr>c_field := f, c_operator := op, c_value := v\<rparr>)"
  by (subst plain_condition_eval [where op = op and expected = v])
    (use assms in \<open>simp_all add: no_condition_def ResolveConditionOp_def\<close>)

section \<open>Properties\<close>

text \<open>
  C4. One run evaluates every rule and reports all violations together, in declaration
  order: a rule contributes its violation when it fires at reconcile time, its conditions
  hold and its assertion fails.  The run denies exactly when one of the violations has the
  effective action deny, passes exactly when it does not deny, and the warnings are the
  violations with the action warn.
\<close>
theorem validation_reports_every_violation:
  "runValidation E now data r (Some c) =
     (let vs = outcomes E now data r (vc_rules c) in
      \<lparr>vr_passed = (\<not> list_ex (\<lambda>v. vv_action v = ActDeny) vs),
       vr_deny = list_ex (\<lambda>v. vv_action v = ActDeny) vs,
       vr_warnings = filter (\<lambda>v. vv_action v = ActWarn) vs, vr_violations = vs\<rparr>)"
  by (rule runValidation_outcomes)

text \<open>
  The queries that decide whether a webhook is registered are sound: a run that denies
  has a deny rule, one that warns has a warn rule, and \<^verbatim>\<open>applyValidation\<close> stops the
  reconcile only when an external call failed or a rule denied.
\<close>
lemma denial_has_a_cause:
  "(case applyValidation E now run_ext r cfg of
      (r', Some res, None) \<Rightarrow> \<not> vr_deny res \<and> (vr_warnings res = [] \<or> HasWarnRules cfg)
    | (r', Some res, Some err) \<Rightarrow> vr_deny res \<and> HasDenyRules cfg
    | (r', None, None) \<Rightarrow> \<not> HasAnyRules cfg
    | (r', None, Some err) \<Rightarrow>
        ReconcileExternal cfg \<noteq> [] \<and> run_ext r (ReconcileExternal cfg) = (r', Some err))"
proof (cases "HasAnyRules cfg")
  case False
  then show ?thesis by (simp add: applyValidation_def)
next
  case True
  then obtain c where cfg: "cfg = Some c" by (auto simp: HasAnyRules_def split: option.splits)
  have deny: "HasDenyRules cfg" if "vr_deny (runValidation E now d rr (Some c))" for d rr
    using that cfg outcomes_action [of _ E now d rr "vc_rules c"]
    by (fastforce simp: runValidation_outcomes HasDenyRules_def IsDeny_def list_ex_iff Let_def)
  have warn: "HasWarnRules cfg" if "vr_warnings (runValidation E now d rr (Some c)) \<noteq> []" for d rr
    using that cfg outcomes_action [of _ E now d rr "vc_rules c"]
    by (fastforce simp: runValidation_outcomes HasWarnRules_def IsWarn_def list_ex_iff Let_def
        filter_empty_conv)
  show ?thesis
  proof (cases "if length (ReconcileExternal cfg) > 0 then run_ext r (ReconcileExternal cfg) else (r, None)")
    case (Pair r' e)
    show ?thesis
    proof (cases e)
      case None
      let ?res = "runValidation E now (rs_data r') (Some r') cfg"
      have "applyValidation E now run_ext r cfg =
          (r', Some ?res, if vr_deny ?res then DenialError E ?res else None)"
        using True Pair None by (simp add: applyValidation_def Let_def)
      moreover have "DenialError E ?res \<noteq> None" if "vr_deny ?res" using that by (simp add: DenialError_def)
      ultimately show ?thesis using deny warn by (auto simp: cfg)
    next
      case (Some err)
      then have "applyValidation E now run_ext r cfg = (r', None, Some err)"
        using True Pair by (simp add: applyValidation_def Let_def)
      with Pair Some show ?thesis by (auto split: if_splits)
    qed
  qed
qed

text \<open>
  On a plain path holding a string, a validation rule and a \<^verbatim>\<open>when\<close> condition with the
  same explicit operator and value give the same verdict, for every string operator.
\<close>
lemma rule_agrees_with_condition:
  assumes "GetNestedPath data f = Some (VStr s)" "s \<noteq> ''<no value>''"
  shows "list_all (\<lambda>op.
      (EvaluateValidationRule E data None (no_rule\<lparr>v_field := f, v_operator := op, v_value := v\<rparr>) = None) =
      EvaluateOneCond E now data (no_condition\<lparr>c_field := f, c_operator := op, c_value := v\<rparr>) None)
    [OpExists, OpNotExists, OpEquals, OpNotEquals, OpContains, OpNotContains, OpPrefix, OpNotPrefix,
     OpSuffix, OpNotSuffix]"
proof -
  from assms(1) have f: "f \<noteq> []" by (auto simp: GetNestedPath_def)
  then have get: "navigate_parts (VMap data) (split_char (CHR ''.'') f) = Some (VStr s)"
    using assms(1) get_parts_navigate [of "split_char (CHR ''.'') f" data] by (simp add: GetNestedPath_def)
  have field: "NavigateDotPath E data f = s" using f get by (simp add: NavigateDotPath_def)
  moreover have "ResolveScalarField E data f = (s, True)"
    using f get by (simp add: ResolveScalarField_def get_parts_navigate)
  ultimately show ?thesis
    using assms(2) by (simp add: static_rule_verdict explicit_operator_condition)
qed

text \<open>
  On a missing plain path the two disagree for the negative string operators: the rule
  fails where the condition holds.  The type operators, which the condition evaluator
  knows, have no case in the rule evaluator and never fail a rule.
\<close>
lemma rule_diverges_from_condition:
  assumes "ResolveScalarField E data f = ([], False)" "NavigateDotPath E data f = []"
    and "v \<noteq> []" "typesTrimSpace v = v" "CHR '','' \<notin> set v"
  shows "list_all (\<lambda>op.
      EvaluateValidationRule E data None (no_rule\<lparr>v_field := f, v_operator := op, v_value := v\<rparr>) \<noteq> None \<and>
      EvaluateOneCond E now data (no_condition\<lparr>c_field := f, c_operator := op, c_value := v\<rparr>) None)
    [OpNotContains, OpNotPrefix, OpNotSuffix, OpNotIn]
   \<and> list_all (\<lambda>op. IsValidConditionOperator op \<and>
      EvaluateValidationRule E data None (no_rule\<lparr>v_field := f, v_operator := op, v_value := v\<rparr>) = None)
    [OpTypeOf, OpTypeMap, OpTypeList, OpTypeString, OpTypeNumber, OpTypeBool, OpTypeNull]"
proof -
  have "split_char (CHR '','') v = [v]" using assms(5) by (simp add: split_char_no_sep)
  then show ?thesis
    using assms
    by (simp add: static_rule_verdict explicit_operator_condition valid_operator_iff
        in_list_loop_eq str_contains_iff str_has_prefix_iff str_has_suffix_iff del: not_None_eq)
qed

end
