(* ===== verification/Mutation.thy ===== *)
theory Mutation
  imports Validation
begin

text \<open>
  Mutation and normalization of a custom resource at reconcile time:
  \<^verbatim>\<open>pkg/runtime/coordinator/prepare/mutation.go\<close> (rules produce one merge patch, sent to
  the API server) and \<^verbatim>\<open>prepare/normalize.go\<close> (templates rewrite a copy of the object).
\<close>

section \<open>Mutation rules\<close>

text \<open>\<^verbatim>\<open>Default\<close> and \<^verbatim>\<open>Override\<close> are \<^verbatim>\<open>interface{}\<close>: \<open>VNil\<close> when not declared.\<close>

record mutation_rule =
  mr_field :: string
  mr_default :: gval
  mr_override :: gval
  mr_value_type :: string
  mr_when :: "condition list"
  mr_or :: "condition list"
  mr_fires :: "fires_config option"

record mutation_config =
  mc_external :: "external_call list"
  mc_rules :: "mutation_rule list"

record mutation_change =
  ch_field :: string
  ch_old :: string
  ch_new :: gval
  ch_type :: string

record mutation_result =
  mres_applied :: nat
  mres_changes :: "mutation_change list"

datatype convert_error = TemplateFailed string | CannotConvert gval string

datatype mutation_error =
    FieldError string convert_error
  | MarshalError
  | PatchError string

text \<open>What the API server answers to the merge patch.\<close>

datatype patch_reply = PatchAccepted | PatchConflict | PatchRejected string

section \<open>The value of a rule\<close>

definition to_int_value :: "goenv \<Rightarrow> gval \<Rightarrow> convert_error + gval" where
  "to_int_value E val =
     (case val of
        VInt KInt64 v \<Rightarrow> Inr (VInt KInt64 v)
      | VInt KInt v \<Rightarrow> Inr (VInt KInt64 v)
      | VFloat KF64 v \<Rightarrow> Inr (VInt KInt64 (f64_to_int64 (ge_conv_oob E) v))
      | VStr v \<Rightarrow>
          (case parse_int64 v of
             None \<Rightarrow> Inl (CannotConvert val ''int64'')
           | Some i \<Rightarrow> Inr (VInt KInt64 i))
      | _ \<Rightarrow> Inl (CannotConvert val ''int64''))"

definition to_bool_value :: "gval \<Rightarrow> convert_error + gval" where
  "to_bool_value val =
     (case val of
        VBool v \<Rightarrow> Inr (VBool v)
      | VStr v \<Rightarrow>
          (case parse_bool v of
             None \<Rightarrow> Inl (CannotConvert val ''bool'')
           | Some b \<Rightarrow> Inr (VBool b))
      | _ \<Rightarrow> Inl (CannotConvert val ''bool''))"

definition to_float_value :: "goenv \<Rightarrow> gval \<Rightarrow> convert_error + gval" where
  "to_float_value E val =
     (case val of
        VFloat KF64 v \<Rightarrow> Inr (VFloat KF64 v)
      | VInt KInt64 v \<Rightarrow> Inr (VFloat KF64 (int_to_f64 v))
      | VInt KInt v \<Rightarrow> Inr (VFloat KF64 (int_to_f64 v))
      | VStr v \<Rightarrow>
          (case ge_parse_float E v of
             None \<Rightarrow> Inl (CannotConvert val ''float64'')
           | Some f \<Rightarrow> Inr (VFloat KF64 f))
      | _ \<Rightarrow> Inl (CannotConvert val ''float64''))"

definition convert_value :: "goenv \<Rightarrow> gval \<Rightarrow> string \<Rightarrow> convert_error + gval" where
  "convert_value E val valueType =
     (if int_type valueType then to_int_value E val
      else if bool_type valueType then to_bool_value val
      else if float_type valueType then to_float_value E val
      else (case val of VStr s \<Rightarrow> Inr (VStr s) | _ \<Rightarrow> Inr (VStr (sprintf_v E val))))"

definition resolveTypedValue ::
  "goenv \<Rightarrow> gval \<Rightarrow> string \<Rightarrow> resolver \<Rightarrow> convert_error + gval" where
  "resolveTypedValue E val valueType r =
     (case val of
        VStr s \<Rightarrow>
          (if IsTemplate s then
             (case Resolve r s of
                None \<Rightarrow> Inl (TemplateFailed s)
              | Some resolved \<Rightarrow> convert_value E (VStr resolved) valueType)
           else convert_value E val valueType)
      | _ \<Rightarrow> convert_value E val valueType)"

text \<open>\<open>(VNil, [])\<close> when the rule does not apply.\<close>

definition ResolveRuleValue ::
  "goenv \<Rightarrow> mutation_rule \<Rightarrow> bool \<Rightarrow> string \<Rightarrow> resolver \<Rightarrow> convert_error + (gval \<times> string)" where
  "ResolveRuleValue E rule found currentVal r =
     (if mr_override rule \<noteq> VNil then
        (case resolveTypedValue E (mr_override rule) (mr_value_type rule) r of
           Inl e \<Rightarrow> Inl e | Inr v \<Rightarrow> Inr (v, ''override''))
      else if mr_default rule \<noteq> VNil then
        (if found \<and> currentVal \<noteq> [] then Inr (VNil, [])
         else (case resolveTypedValue E (mr_default rule) (mr_value_type rule) r of
                 Inl e \<Rightarrow> Inl e | Inr v \<Rightarrow> Inr (v, ''default'')))
      else Inr (VNil, []))"

section \<open>All rules of one reconcile\<close>

definition target_field :: "resolver \<Rightarrow> mutation_rule \<Rightarrow> string" where
  "target_field r rule = resolve_template (Some r) (mr_field rule)"

text \<open>One rule: no change, or the change it makes.\<close>

definition mutate_rule ::
  "goenv \<Rightarrow> gotime \<Rightarrow> resolver \<Rightarrow> mutation_rule \<Rightarrow> mutation_error + mutation_change option" where
  "mutate_rule E now r rule =
     (if \<not> FiresAtReconcile (mr_fires rule) then Inr None
      else if \<not> EvaluateConditions E now (rs_data r) (mr_when rule) (mr_or rule)
                 (TemplateEvaluator (Some r)) then Inr None
      else
        (let targetField = target_field r rule in
         case ResolveScalarField E (rs_data r) targetField of (currentVal, found) \<Rightarrow>
           (case ResolveRuleValue E rule found currentVal r of
              Inl err \<Rightarrow> Inl (FieldError targetField err)
            | Inr (rawVal, mutationType) \<Rightarrow>
                (if rawVal = VNil then Inr None
                 else if sprintf_v E rawVal = currentVal then Inr None
                 else Inr (Some \<lparr>ch_field = targetField, ch_old = currentVal,
                                 ch_new = rawVal, ch_type = mutationType\<rparr>)))))"

fun mutate_loop ::
  "goenv \<Rightarrow> gotime \<Rightarrow> resolver \<Rightarrow> mutation_rule list \<Rightarrow> gmap \<times> mutation_change list \<Rightarrow>
   mutation_error + gmap \<times> mutation_change list" where
  "mutate_loop E now r [] st = Inr st"
| "mutate_loop E now r (rule # rules) (patch, changes) =
     (case mutate_rule E now r rule of
        Inl err \<Rightarrow> Inl err
      | Inr None \<Rightarrow> mutate_loop E now r rules (patch, changes)
      | Inr (Some c) \<Rightarrow>
          mutate_loop E now r rules
            (setNestedPatch patch (ch_field c) (ch_new c), changes @ [c]))"

text \<open>
  \<^verbatim>\<open>runMutation\<close>: \<open>marshal_ok\<close> is whether \<^verbatim>\<open>json.Marshal\<close> accepts the patch and \<open>api\<close> the
  dynamic client's \<^verbatim>\<open>Patch\<close>.  The result carries the patch sent to it, if any.
\<close>

definition runMutation ::
  "goenv \<Rightarrow> gotime \<Rightarrow> (gmap \<Rightarrow> bool) \<Rightarrow> (gmap \<Rightarrow> patch_reply) \<Rightarrow> resolver \<Rightarrow> mutation_config option \<Rightarrow>
   gmap option \<times> (mutation_error + mutation_result)" where
  "runMutation E now marshal_ok api r cfg =
     (let none = \<lparr>mres_applied = 0, mres_changes = []\<rparr> in
      case cfg of
        None \<Rightarrow> (None, Inr none)
      | Some c \<Rightarrow>
          (if mc_rules c = [] then (None, Inr none)
           else case mutate_loop E now r (mc_rules c) (Map.empty, []) of
                  Inl err \<Rightarrow> (None, Inl err)
                | Inr (patch, changes) \<Rightarrow>
                    (if changes = [] then (None, Inr none)
                     else if \<not> marshal_ok patch then (None, Inl MarshalError)
                     else case api patch of
                            PatchConflict \<Rightarrow>
                              (Some patch, Inr \<lparr>mres_applied = 0, mres_changes = changes\<rparr>)
                          | PatchRejected e \<Rightarrow> (Some patch, Inl (PatchError e))
                          | PatchAccepted \<Rightarrow>
                              (Some patch,
                               Inr \<lparr>mres_applied = length changes, mres_changes = changes\<rparr>))))"

definition mutation_reconcile_external :: "mutation_config \<Rightarrow> external_call list" where
  "mutation_reconcile_external c = filter (\<lambda>e. FiresAtReconcile (ec_fires e)) (mc_external c)"

datatype apply_error = ExternalFailed string | RunFailed mutation_error

definition applyMutation ::
  "goenv \<Rightarrow> gotime \<Rightarrow> (gmap \<Rightarrow> bool) \<Rightarrow> (gmap \<Rightarrow> patch_reply) \<Rightarrow> external_runner \<Rightarrow> resolver \<Rightarrow>
   mutation_config option \<Rightarrow> resolver \<times> gmap option \<times> apply_error option" where
  "applyMutation E now marshal_ok api run_ext r cfg =
     (case cfg of
        None \<Rightarrow> (r, None, None)
      | Some c \<Rightarrow>
          (if mc_rules c = [] then (r, None, None)
           else
             (let calls = mutation_reconcile_external c;
                  ran = (if length calls > 0 then run_ext r calls else (r, None))
              in case ran of
                   (r', Some err) \<Rightarrow> (r', None, Some (ExternalFailed err))
                 | (r', None) \<Rightarrow>
                     (case runMutation E now marshal_ok api r' cfg of
                        (sent, Inl e) \<Rightarrow> (r', sent, Some (RunFailed e))
                      | (sent, Inr res) \<Rightarrow> (r', sent, None)))))"

section \<open>Normalization\<close>

datatype normalize_error =
    NormTemplate string
  | NormType string string
  | NormPath string path_error

text \<open>\<^verbatim>\<open>parseNormalizedValue\<close>: \<open>yaml\<close> is \<^verbatim>\<open>yaml.Unmarshal\<close> into an \<^verbatim>\<open>interface{}\<close>.\<close>

definition parseNormalizedValue :: "(string \<Rightarrow> gval option) \<Rightarrow> string \<Rightarrow> gval" where
  "parseNormalizedValue yaml s =
     (if s = [] then VStr []
      else case yaml s of
             None \<Rightarrow> VStr s
           | Some v \<Rightarrow>
               (if v = VNil then VStr s
                else case v of VInt KInt i \<Rightarrow> VInt KInt64 i | _ \<Rightarrow> v))"

text \<open>\<open>Some VNil\<close> is the nil result without an error.\<close>

definition coerceNormalizedValue :: "goenv \<Rightarrow> string \<Rightarrow> string \<Rightarrow> gval option" where
  "coerceNormalizedValue E rendered typ =
     (if rendered = [] then Some VNil
      else if int_type (to_lower typ) then
        map_option (VInt KInt64) (parse_int64 rendered)
      else if bool_type (to_lower typ) then
        map_option VBool (parse_bool rendered)
      else if float_type (to_lower typ) then
        map_option (VFloat KF64) (ge_parse_float E rendered)
      else if to_lower typ = ''string'' \<or> to_lower typ = [] then Some (VStr rendered)
      else None)"

record normalize_config =
  nc_spec :: "(string \<times> string) list"  \<comment> \<open>in the order the map is iterated\<close>
  nc_types :: "string \<Rightarrow> string option"
  nc_audit :: bool

record normalize_change =
  nch_field :: string
  nch_from :: gval
  nch_to :: gval

text \<open>The value one entry renders to; \<open>Inr VNil\<close> leaves the field alone.\<close>

definition normalized_value ::
  "goenv \<Rightarrow> (string \<Rightarrow> gval option) \<Rightarrow> normalize_config \<Rightarrow> resolver \<Rightarrow> string \<times> string \<Rightarrow>
   normalize_error + gval" where
  "normalized_value E yaml nc r = (\<lambda>(fieldPath, tpl).
     case Resolve r tpl of
       None \<Rightarrow> Inl (NormTemplate fieldPath)
     | Some rendered0 \<Rightarrow>
         (let rendered = trim_space rendered0 in
          case nc_types nc fieldPath of
            Some declared \<Rightarrow>
              (case coerceNormalizedValue E rendered declared of
                 None \<Rightarrow> Inl (NormType fieldPath declared)
               | Some v \<Rightarrow> Inr v)
          | None \<Rightarrow> Inr (parseNormalizedValue yaml rendered)))"

text \<open>
  The loop over \<^verbatim>\<open>norm.Spec\<close>.  \<open>aliased\<close> is whether the base resolver's data map is the
  content map itself, as it is for an unstructured object (\<^verbatim>\<open>objectToMap\<close> returns its map):
  then a later template reads the fields already written.
\<close>

fun normalize_loop ::
  "goenv \<Rightarrow> (string \<Rightarrow> gval option) \<Rightarrow> normalize_config \<Rightarrow> bool \<Rightarrow> resolver \<Rightarrow>
   (string \<times> string) list \<Rightarrow> gmap \<Rightarrow> normalize_change list \<Rightarrow>
   normalize_error + gmap \<times> normalize_change list" where
  "normalize_loop E yaml nc aliased r [] content changes = Inr (content, changes)"
| "normalize_loop E yaml nc aliased r ((fieldPath, tpl) # entries) content changes =
     (case normalized_value E yaml nc
             (if aliased then r\<lparr>rs_data := content\<rparr> else r) (fieldPath, tpl) of
        Inl err \<Rightarrow> Inl err
      | Inr parsed \<Rightarrow>
          (if parsed = VNil then normalize_loop E yaml nc aliased r entries content changes
           else
             (let fullPath = ''spec.'' @ fieldPath;
                  before = (if nc_audit nc then nestedGet content fullPath else VNil)
              in case setNestedNormalized content fullPath parsed of
                   (content', Some err) \<Rightarrow> Inl (NormPath fieldPath err)
                 | (content', None) \<Rightarrow>
                     normalize_loop E yaml nc aliased r entries content'
                       (if nc_audit nc \<and> sprintf_v E before \<noteq> sprintf_v E parsed
                        then changes @ [\<lparr>nch_field = fieldPath, nch_from = before, nch_to = parsed\<rparr>]
                        else changes))))"

text \<open>
  \<^verbatim>\<open>template.NewResolver\<close>: the object's map with \<^verbatim>\<open>inputs\<close> and the runtime facts added.
  For an unstructured object the two keys are written into the object's own map.
\<close>

definition resolver_data :: "gval \<Rightarrow> gmap \<Rightarrow> gmap" where
  "resolver_data inrun_ctx m =
     (if m ''inputs'' = None then m(''inputs'' \<mapsto> VMap Map.empty) else m)(''inrun'' \<mapsto> inrun_ctx)"

definition NewResolver ::
  "(string \<Rightarrow> gmap \<Rightarrow> string option) \<Rightarrow> gval \<Rightarrow> gmap \<Rightarrow> resolver" where
  "NewResolver exec inrun_ctx m = \<lparr>rs_data = resolver_data inrun_ctx m, rs_exec = exec\<rparr>"

text \<open>
  \<^verbatim>\<open>applyNormalize\<close> on an object with content \<open>obj\<close>: the normalized content, the changes
  and the resolver over it.  Without a normalize block the object is returned as it is.
\<close>

definition applyNormalize ::
  "goenv \<Rightarrow> (string \<Rightarrow> gval option) \<Rightarrow> (string \<Rightarrow> gmap \<Rightarrow> string option) \<Rightarrow> gval \<Rightarrow>
   bool \<Rightarrow> normalize_config option \<Rightarrow> gmap \<Rightarrow>
   normalize_error + gmap \<times> resolver \<times> normalize_change list" where
  "applyNormalize E yaml exec inrun_ctx unstructured cfg obj =
     (let base = NewResolver exec inrun_ctx obj;
          own = (if unstructured then rs_data base else obj)
      in case cfg of
           None \<Rightarrow> Inr (own, base, [])
         | Some nc \<Rightarrow>
             (if nc_spec nc = [] then Inr (own, base, [])
              else case normalize_loop E yaml nc unstructured base (nc_spec nc) own [] of
                     Inl err \<Rightarrow> Inl err
                   | Inr (content, changes) \<Rightarrow>
                       (let normalized = NewResolver exec inrun_ctx content
                        in Inr (rs_data normalized, normalized, changes))))"

section \<open>Lemmas\<close>

lemma not_found_empty: "ResolveScalarField E m p = (s, False) \<Longrightarrow> s = []"
  by (auto simp: ResolveScalarField_def split: option.splits if_splits)

text \<open>The dynamic types a declared \<^verbatim>\<open>valueType\<close> stands for.\<close>

definition has_declared_type :: "string \<Rightarrow> gval \<Rightarrow> bool" where
  "has_declared_type t v =
     (if int_type t then (case v of VInt k _ \<Rightarrow> k = KInt64 | _ \<Rightarrow> False)
      else if bool_type t then (case v of VBool _ \<Rightarrow> True | _ \<Rightarrow> False)
      else if float_type t then (case v of VFloat k _ \<Rightarrow> k = KF64 | _ \<Rightarrow> False)
      else (case v of VStr _ \<Rightarrow> True | _ \<Rightarrow> False))"

lemma to_int_value_typed: "to_int_value E v = Inr w \<Longrightarrow> \<exists>i. w = VInt KInt64 i"
  by (cases v) (auto simp: to_int_value_def split: int_kind.splits float_kind.splits option.splits)

lemma to_bool_value_typed: "to_bool_value v = Inr w \<Longrightarrow> \<exists>b. w = VBool b"
  by (cases v) (auto simp: to_bool_value_def split: option.splits)

lemma to_float_value_typed: "to_float_value E v = Inr w \<Longrightarrow> \<exists>f. w = VFloat KF64 f"
  by (cases v) (auto simp: to_float_value_def split: int_kind.splits float_kind.splits option.splits)

lemma convert_typed:
  assumes "convert_value E v t = Inr w"
  shows "has_declared_type t w"
  using assms
  by (cases v)
    (auto simp: has_declared_type_def convert_value_def
      dest: to_int_value_typed to_bool_value_typed to_float_value_typed split: if_split_asm)

lemma resolve_typed: "resolveTypedValue E v t r = Inr w \<Longrightarrow> has_declared_type t w"
  by (cases v) (auto simp: resolveTypedValue_def dest: convert_typed split: if_splits option.splits)

lemma typed_not_nil: "has_declared_type t w \<Longrightarrow> w \<noteq> VNil"
  by (auto simp: has_declared_type_def split: if_splits)

lemma typed_text:
  "has_declared_type t w \<Longrightarrow> (TypeOf w = ''number'' \<longrightarrow> (\<exists>k i. w = VInt k i)) \<Longrightarrow>
   sprintf_v E w = ScalarToString E w"
  by (cases w) (auto simp: has_declared_type_def split: if_splits)

text \<open>What a rule must look like to make the change \<open>c\<close>.\<close>

definition justifies :: "goenv \<Rightarrow> resolver \<Rightarrow> mutation_change \<Rightarrow> mutation_rule \<Rightarrow> bool" where
  "justifies E r c rule \<longleftrightarrow>
     FiresAtReconcile (mr_fires rule) \<and> ch_field c = target_field r rule \<and>
     ch_old c = fst (ResolveScalarField E (rs_data r) (ch_field c)) \<and>
     (if mr_override rule \<noteq> VNil then
        ch_type c = ''override'' \<and>
        resolveTypedValue E (mr_override rule) (mr_value_type rule) r = Inr (ch_new c)
      else ch_type c = ''default'' \<and> mr_default rule \<noteq> VNil \<and> ch_old c = [] \<and>
        resolveTypedValue E (mr_default rule) (mr_value_type rule) r = Inr (ch_new c)) \<and>
     sprintf_v E (ch_new c) \<noteq> ch_old c"

lemma mutate_rule_justified:
  assumes "mutate_rule E now r rule = Inr (Some c)"
  shows "justifies E r c rule"
  using assms
  by (auto simp: mutate_rule_def justifies_def ResolveRuleValue_def Let_def
      split: if_splits prod.splits sum.splits dest: not_found_empty)

lemma mutate_loop_changes:
  "mutate_loop E now r rules (patch, changes) = Inr (patch', changes') \<Longrightarrow>
   \<exists>cs. changes' = changes @ cs \<and>
     patch' = foldl (\<lambda>m c. setNestedPatch m (ch_field c) (ch_new c)) patch cs \<and>
     list_all (\<lambda>c. list_ex (justifies E r c) rules) cs"
proof (induction rules arbitrary: patch changes)
  case Nil
  then show ?case by auto
next
  case (Cons rule rules)
  show ?case
  proof (cases "mutate_rule E now r rule")
    case (Inl e)
    with Cons.prems show ?thesis by simp
  next
    case (Inr o1)
    show ?thesis
    proof (cases o1)
      case None
      with Inr Cons.prems have "mutate_loop E now r rules (patch, changes) = Inr (patch', changes')" by simp
      with Cons.IH obtain cs where "changes' = changes @ cs"
        "patch' = foldl (\<lambda>m c. setNestedPatch m (ch_field c) (ch_new c)) patch cs"
        "list_all (\<lambda>c. list_ex (justifies E r c) rules) cs" by blast
      then show ?thesis by (intro exI [of _ cs]) (auto simp: list_all_iff)
    next
      case (Some c)
      with Inr Cons.prems
      have "mutate_loop E now r rules (setNestedPatch patch (ch_field c) (ch_new c), changes @ [c]) =
        Inr (patch', changes')" by simp
      with Cons.IH obtain cs where "changes' = (changes @ [c]) @ cs"
        "patch' = foldl (\<lambda>m c. setNestedPatch m (ch_field c) (ch_new c))
           (setNestedPatch patch (ch_field c) (ch_new c)) cs"
        "list_all (\<lambda>c. list_ex (justifies E r c) rules) cs" by blast
      then show ?thesis
        using mutate_rule_justified [of E now r rule c] Inr Some
        by (intro exI [of _ "c # cs"]) (auto simp: list_all_iff)
    qed
  qed
qed

lemma normalize_step:
  assumes "normalize_loop E yaml nc False r ((p, t) # es) content changes = Inr res"
  shows "(normalize_loop E yaml nc False r es content changes = Inr res
      \<and> normalized_value E yaml nc r (p, t) = Inr VNil) \<or>
    (\<exists>v c1 ch1. normalized_value E yaml nc r (p, t) = Inr v \<and>
       setNestedNormalized content (''spec.'' @ p) v = (c1, None) \<and>
       normalize_loop E yaml nc False r es c1 ch1 = Inr res)"
proof (cases "normalized_value E yaml nc r (p, t)")
  case (Inl e)
  with assms show ?thesis by simp
next
  case (Inr v)
  show ?thesis
  proof (cases "v = VNil")
    case True
    with Inr assms show ?thesis by simp
  next
    case False
    obtain c1 err where set1: "setNestedNormalized content (''spec.'' @ p) v = (c1, err)"
      by (cases "setNestedNormalized content (''spec.'' @ p) v")
    with Inr False assms have "err = None"
      by (cases err) (simp_all add: Let_def del: append.simps)
    with Inr False assms set1 show ?thesis
      by (auto simp: Let_def simp del: append.simps)
  qed
qed

lemma foldl_patch_set_all:
  "foldl (\<lambda>m c. setNestedPatch m (ch_field c) (ch_new c)) m cs =
   patch.set_all m (map (\<lambda>c. (ch_field c, ch_new c)) cs)"
  by (induction cs arbitrary: m) auto

lemma patch_all_ok: "patch.all_ok m r"
  by (induction m r rule: patch.set_all.induct) auto

section \<open>Properties\<close>

text \<open>
  Every change in the patch is made by a declared rule that fires at reconcile time: an
  override sets its typed value, a default applies only to a field that is absent or empty,
  and neither is sent when the field already reads as that value.  The patch is exactly
  these changes, applied in order; without a change nothing is sent, and the changes count
  as applied only when the API server accepted the patch.
\<close>
lemma mutation_changes_are_justified:
  "case runMutation E now marshal_ok api r (Some cfg) of
     (None, Inr res) \<Rightarrow> mres_changes res = [] \<and> mres_applied res = 0
   | (None, Inl e) \<Rightarrow> True
   | (Some patch, Inl e) \<Rightarrow> (\<exists>msg. api patch = PatchRejected msg \<and> e = PatchError msg)
   | (Some patch, Inr res) \<Rightarrow>
       mres_changes res \<noteq> [] \<and>
       mres_applied res = (if api patch = PatchAccepted then length (mres_changes res) else 0) \<and>
       patch = foldl (\<lambda>m c. setNestedPatch m (ch_field c) (ch_new c)) Map.empty (mres_changes res) \<and>
       list_all (\<lambda>c. list_ex (justifies E r c) (mc_rules cfg)) (mres_changes res)"
proof (cases "mutate_loop E now r (mc_rules cfg) (Map.empty, [])")
  case (Inl e)
  then show ?thesis by (cases "mc_rules cfg") (simp_all add: runMutation_def Let_def)
next
  case (Inr st)
  obtain patch changes where st: "st = (patch, changes)" by (cases st)
  from mutate_loop_changes [OF Inr [unfolded st]] Inr st show ?thesis
    by (cases "api patch") (auto simp: runMutation_def Let_def split: if_splits)
qed

text \<open>
  When the changed fields are pairwise independent paths, the patch holds the new value
  of every changed field and says nothing about any path independent of them all.
\<close>
lemma mutation_patch_content:
  assumes "runMutation E now marshal_ok api r (Some cfg) = (Some patch, Inr res)"
    and "sorted_wrt (\<lambda>c d. indep (ch_field c) (ch_field d)) (mres_changes res)"
  shows "list_all (\<lambda>c. ch_field c = [] \<or> GetNestedPath patch (ch_field c) = Some (ch_new c)) (mres_changes res)
    \<and> (list_all (\<lambda>c. indep (ch_field c) q) (mres_changes res) \<longrightarrow> GetNestedPath patch q = None)"
proof -
  let ?sets = "map (\<lambda>c. (ch_field c, ch_new c)) (mres_changes res)"
  have patch: "patch = patch.set_all Map.empty ?sets"
    using assms(1) mutate_loop_changes [of E now r "mc_rules cfg" Map.empty "[]"]
    by (auto simp: runMutation_def Let_def foldl_patch_set_all
        split: if_splits sum.splits prod.splits patch_reply.splits)
  have "sorted_wrt (\<lambda>a b. indep (fst a) (fst b)) ?sets"
    using assms(2) by (simp add: sorted_wrt_map)
  then have "GetNestedPath patch (ch_field c) = Some (ch_new c)"
    if "c \<in> set (mres_changes res)" "ch_field c \<noteq> []" for c
    using that patch.set_all_get [OF patch_all_ok] unfolding patch by auto
  moreover have "GetNestedPath patch q = None" if "list_all (\<lambda>c. indep (ch_field c) q) (mres_changes res)"
  proof -
    have "GetNestedPath (patch.set_all Map.empty ?sets) q = GetNestedPath Map.empty q"
      by (rule patch.set_all_frame [OF patch_all_ok]) (use that in \<open>auto simp: list_all_iff\<close>)
    then show ?thesis by (simp add: patch GetNestedPath_def)
  qed
  ultimately show ?thesis by (auto simp: list_all_iff)
qed

text \<open>A CRD with one rule defaulting \<^verbatim>\<open>spec.replicas\<close> to 2, and an object without it.\<close>

definition replicas_rule :: mutation_rule where
  "replicas_rule =
     \<lparr>mr_field = ''spec.replicas'', mr_default = VInt KInt 2, mr_override = VNil,
      mr_value_type = ''int'', mr_when = [], mr_or = [], mr_fires = None\<rparr>"

definition plain_resolver :: "gmap \<Rightarrow> resolver" where
  "plain_resolver m = \<lparr>rs_data = m, rs_exec = (\<lambda>s d. None)\<rparr>"

lemma replicas_run:
  "runMutation sample_env (sample_time 9 0) (\<lambda>p. True) (\<lambda>p. PatchAccepted) (plain_resolver Map.empty)
     (Some \<lparr>mc_external = [], mc_rules = [replicas_rule]\<rparr>) =
   (Some (setNestedPatch Map.empty ''spec.replicas'' (VInt KInt64 2)),
    Inr \<lparr>mres_applied = 1,
         mres_changes = [\<lparr>ch_field = ''spec.replicas'', ch_old = [], ch_new = VInt KInt64 2,
                          ch_type = ''default''\<rparr>]\<rparr>)"
proof -
  have f: "FiresAtReconcile None" by (simp add: FiresAtReconcile_def)
  have t: "resolve_template (Some R) ''spec.replicas'' = ''spec.replicas''" for R
    by (simp add: resolve_template_def IsTemplate_def str_contains_def str_has_prefix_def)
  have d: "format_int 2 = ''2''" by (simp add: format_int_def nat_digits.simps)
  have v: "ResolveScalarField sample_env Map.empty ''spec.replicas'' = ([], False)"
    by (simp add: ResolveScalarField_def)
  have "mutate_rule sample_env (sample_time 9 0) (plain_resolver Map.empty) replicas_rule =
     Inr (Some \<lparr>ch_field = ''spec.replicas'', ch_old = [], ch_new = VInt KInt64 2, ch_type = ''default''\<rparr>)"
    by (simp add: mutate_rule_def replicas_rule_def f t target_field_def EvaluateConditions_def v d
        ResolveRuleValue_def resolveTypedValue_def convert_value_def to_int_value_def
        plain_resolver_def del: typesSplitOn_eq)
  then show ?thesis by (simp add: runMutation_def)
qed

text \<open>
  Mutation settles: once the field reads as the value of the rule, the rule makes no
  further change, whether it is a default or an override.  The value must not be a float,
  see \<open>float_override_repeats\<close>.
\<close>
lemma mutation_settles:
  assumes "ResolveScalarField E (rs_data r) (target_field r rule) = (ScalarToString E v, True)"
    and "resolveTypedValue E (if mr_override rule \<noteq> VNil then mr_override rule else mr_default rule)
           (mr_value_type rule) r = Inr v"
    and "TypeOf v = ''number'' \<longrightarrow> (\<exists>k i. v = VInt k i)"
  shows "mutate_rule E now r rule = Inr None"
proof -
  from resolve_typed [OF assms(2)] have "v \<noteq> VNil" "sprintf_v E v = ScalarToString E v"
    using typed_not_nil typed_text assms(3) by blast+
  then show ?thesis
    using assms
    by (auto simp: mutate_rule_def ResolveRuleValue_def Let_def split: if_splits)
qed

text \<open>
  A float override never settles when its \<^verbatim>\<open>%v\<close> text differs from the field's text: the
  code compares \<^verbatim>\<open>1e+06\<close> with \<^verbatim>\<open>1000000\<close>, finds them different and sends the same patch
  at every reconcile, although the field already holds the number.
\<close>
lemma float_override_repeats:
  "let E = sample_env\<lparr>ge_fmt_composite := (\<lambda>v. ''1e+06'')\<rparr>;
       rule = replicas_rule\<lparr>mr_field := ''limit'', mr_override := VFloat KF64 (FFin 1000000),
                            mr_value_type := ''number''\<rparr>;
       data = [''limit'' \<mapsto> VFloat KF64 (FFin 1000000)]
   in mutate_rule E (sample_time 9 0) (plain_resolver data) rule =
        Inr (Some \<lparr>ch_field = ''limit'', ch_old = ''1000000'', ch_new = VFloat KF64 (FFin 1000000),
                   ch_type = ''override''\<rparr>)
      \<and> GetNestedPath data ''limit'' = Some (VFloat KF64 (FFin 1000000))"
proof -
  have f: "FiresAtReconcile None" by (simp add: FiresAtReconcile_def)
  have t: "resolve_template (Some R) ''limit'' = ''limit''" for R
    by (simp add: resolve_template_def IsTemplate_def str_contains_def str_has_prefix_def)
  have d: "format_int 1000000 = ''1000000''" by (simp add: format_int_def nat_digits.simps)
  have s: "ScalarToString E (VFloat KF64 (FFin 1000000)) = ''1000000''" for E
    using ScalarToString_int_float [of 1000000 E] d by simp
  have v: "ResolveScalarField E [''limit'' \<mapsto> VFloat KF64 (FFin 1000000)] ''limit'' = (''1000000'', True)" for E
    using s by (simp add: ResolveScalarField_def del: ScalarToString.simps)
  show ?thesis
    by (simp add: mutate_rule_def replicas_rule_def f t target_field_def EvaluateConditions_def v
        ResolveRuleValue_def resolveTypedValue_def convert_value_def to_float_value_def
        plain_resolver_def GetNestedPath_def Let_def)
qed

text \<open>
  A normalization of a typed object (its content is not the resolver's own map) gives
  every field the value its template renders on the raw object, in whatever order the spec
  map is iterated, when the paths are pairwise independent.
\<close>
lemma normalize_reads_raw_object:
  assumes "normalize_loop E yaml nc False r entries content changes = Inr (content', changes')"
    and "sorted_wrt (\<lambda>a b. indep (''spec.'' @ fst a) (''spec.'' @ fst b)) entries"
    and "(p, tpl) \<in> set entries"
    and "normalized_value E yaml nc r (p, tpl) = Inr v" "v \<noteq> VNil"
  shows "GetNestedPath content' (''spec.'' @ p) = Some v"
proof -
  have frame: "GetNestedPath content' q = GetNestedPath content q"
    if "normalize_loop E yaml nc False r entries content changes = Inr (content', changes')"
      and "list_all (\<lambda>e. indep (''spec.'' @ fst e) q) entries" for entries content changes q
    using that
  proof (induction entries arbitrary: content changes)
    case (Cons e es)
    obtain p t where e: "e = (p, t)" by (cases e)
    from normalize_step [OF Cons.prems(1) [unfolded e]] show ?case
    proof
      assume "normalize_loop E yaml nc False r es content changes = Inr (content', changes')
         \<and> normalized_value E yaml nc r (p, t) = Inr VNil"
      with Cons.IH [of content changes] Cons.prems(2) show ?thesis by simp
    next
      assume "\<exists>v c1 ch1. normalized_value E yaml nc r (p, t) = Inr v \<and>
        setNestedNormalized content (''spec.'' @ p) v = (c1, None) \<and>
        normalize_loop E yaml nc False r es c1 ch1 = Inr (content', changes')"
      then obtain v c1 ch1 where set1: "setNestedNormalized content (''spec.'' @ p) v = (c1, None)"
        and rest: "normalize_loop E yaml nc False r es c1 ch1 = Inr (content', changes')" by blast
      have "GetNestedPath c1 q = GetNestedPath content q"
        using normalized.get_frame [of content "''spec.'' @ p" v q] set1 Cons.prems(2) e
        by (simp del: append.simps)
      with Cons.IH [OF rest] Cons.prems(2) show ?thesis by simp
    qed
  qed simp
  from assms show ?thesis
  proof (induction entries arbitrary: content changes)
    case (Cons e es)
    obtain q t where e: "e = (q, t)" by (cases e)
    note step = normalize_step [OF Cons.prems(1) [unfolded e]]
    show ?case
    proof (cases "(p, tpl) = e")
      case False
      with Cons.prems(3) have "(p, tpl) \<in> set es" by simp
      with step Cons.IH Cons.prems(2) assms(4,5) show ?thesis by auto
    next
      case True
      with step e assms(4,5) obtain c1 ch1 where
        set1: "setNestedNormalized content (''spec.'' @ p) v = (c1, None)" and
        rest: "normalize_loop E yaml nc False r es c1 ch1 = Inr (content', changes')" by auto
      have "list_all (\<lambda>d. indep (''spec.'' @ fst d) (''spec.'' @ p)) es"
        using Cons.prems(2) True by (force simp: list_all_iff simp del: append.simps intro: indep_sym)
      then have "GetNestedPath content' (''spec.'' @ p) = GetNestedPath c1 (''spec.'' @ p)"
        by (rule frame [OF rest])
      also have "\<dots> = Some v"
        using normalized.get_set [of "''spec.'' @ p" content v] set1 by (simp del: append.simps)
      finally show ?thesis .
    qed
  qed simp
qed

text \<open>
  A template engine for the witnesses: the only templates are single field references,
  \<^verbatim>\<open>{{ .path }}\<close>, which print a string field as it is.
\<close>

definition field_exec :: "string \<Rightarrow> gmap \<Rightarrow> string option" where
  "field_exec s d =
     (case GetNestedPath d (drop 4 (take (length s - 3) s)) of
        Some (VStr t) \<Rightarrow> Some t
      | _ \<Rightarrow> Some ''<no value>'')"

definition swap_config :: "(string \<times> string) list \<Rightarrow> normalize_config" where
  "swap_config entries = \<lparr>nc_spec = entries, nc_types = Map.empty, nc_audit = False\<rparr>"

definition swap_object :: gmap where
  "swap_object = [''spec'' \<mapsto> VMap [''a'' \<mapsto> VStr ''x'', ''b'' \<mapsto> VStr ''y'']]"

definition swap_a_b :: "(string \<times> string) list" where
  "swap_a_b = [(''a'', ''{{ .spec.b }}''), (''b'', ''{{ .spec.a }}'')]"

definition swap_run :: "bool \<Rightarrow> (string \<times> string) list \<Rightarrow> (gval option \<times> gval option) option" where
  "swap_run unstructured entries =
     (case applyNormalize sample_env (\<lambda>s. Some (VStr s)) field_exec VNil unstructured
             (Some (swap_config entries)) swap_object of
        Inl _ \<Rightarrow> None
      | Inr (content, r, changes) \<Rightarrow>
          Some (GetNestedPath content ''spec.a'', GetNestedPath content ''spec.b''))"

lemma template_ab:
  "IsTemplate ''{{ .spec.a }}''" "IsTemplate ''{{ .spec.b }}''"
  by (simp_all add: IsTemplate_def str_contains_def str_has_prefix_def)

lemma Resolve_spec_a:
  "GetNestedPath d ''spec.a'' = Some (VStr [c]) \<Longrightarrow> \<not> is_space c \<Longrightarrow> c \<noteq> CHR ''<'' \<Longrightarrow>
   Resolve \<lparr>rs_data = d, rs_exec = field_exec\<rparr> ''{{ .spec.a }}'' = Some [c]"
  by (simp add: Resolve_def resolve_def template_ab field_exec_def trim_space_def trim_with_def
      str_has_prefix_def Let_def)

lemma Resolve_spec_b:
  "GetNestedPath d ''spec.b'' = Some (VStr [c]) \<Longrightarrow> \<not> is_space c \<Longrightarrow> c \<noteq> CHR ''<'' \<Longrightarrow>
   Resolve \<lparr>rs_data = d, rs_exec = field_exec\<rparr> ''{{ .spec.b }}'' = Some [c]"
  by (simp add: Resolve_def resolve_def template_ab field_exec_def trim_space_def trim_with_def
      str_has_prefix_def Let_def)

lemma not_space_xy: "\<not> is_space (CHR ''x'')" "\<not> is_space (CHR ''y'')"
  by (simp_all add: is_space_def)

text \<open>
  On an unstructured object the outcome of normalization depends on the iteration order
  of the spec map, which Go leaves unspecified: a template reads fields that other entries
  have already rewritten.  Two entries that exchange \<^verbatim>\<open>spec.a\<close> and \<^verbatim>\<open>spec.b\<close> make both equal,
  to either value; on a typed object they are exchanged in both orders.
\<close>
lemma normalize_depends_on_order:
  "swap_run True swap_a_b = Some (Some (VStr ''y''), Some (VStr ''y''))
   \<and> swap_run True (rev swap_a_b) = Some (Some (VStr ''x''), Some (VStr ''x''))
   \<and> swap_run False swap_a_b = Some (Some (VStr ''y''), Some (VStr ''x''))
   \<and> swap_run False (rev swap_a_b) = Some (Some (VStr ''y''), Some (VStr ''x''))"
  by (simp add: swap_run_def swap_a_b_def swap_config_def applyNormalize_def NewResolver_def
      resolver_data_def swap_object_def normalized_value_def Resolve_spec_a Resolve_spec_b
      GetNestedPath_def not_space_xy parseNormalizedValue_def trim_space_def trim_with_def
      setNestedNormalized_def Let_def)

end
