(* ===== verification/Dependencies.thy ===== *)
theory Dependencies
  imports GoPrelude "HOL-Library.AList" "HOL-Library.List_Lexorder" "HOL-Library.Char_ord"
    "HOL-Library.Multiset"
begin

text \<open>
  The dependency graph of the CRDs of a catalog, \<^verbatim>\<open>pkg/catalog/dependencies.go\<close>: building
  it, the startup order (Kahn's algorithm with a sorted queue) and its reverse, the shutdown
  order.  Go maps that are iterated are association lists in iteration order.
\<close>

section \<open>The graph\<close>

record node =
  n_name :: string
  n_in :: int
  n_out :: int

record dep_graph =
  g_nodes :: "(string \<times> node) list"
  g_edges :: "(string \<times> string list) list"  \<comment> \<open>dependency, its dependents\<close>
  g_order :: "string list option"  \<comment> \<open>\<^verbatim>\<open>startupOrder\<close> behind its \<^verbatim>\<open>sync.Once\<close>\<close>

datatype dep_error = MissingDependency string string | CircularDependency

text \<open>A catalog: every enabled CRD with the CRDs it depends on.\<close>

type_synonym dep_catalog = "(string \<times> string list) list"

definition edges_of :: "(string \<times> string list) list \<Rightarrow> string \<Rightarrow> string list" where
  "edges_of es d = (case map_of es d of None \<Rightarrow> [] | Some l \<Rightarrow> l)"

definition add_edge :: "string \<Rightarrow> string \<Rightarrow> dep_graph \<Rightarrow> dep_error + dep_graph" where
  "add_edge name dep g =
     (if map_of (g_nodes g) dep = None then Inl (MissingDependency dep name)
      else Inr (g\<lparr>g_edges := AList.update dep (edges_of (g_edges g) dep @ [name]) (g_edges g),
                  g_nodes := AList.map_entry dep (\<lambda>n. n\<lparr>n_out := n_out n + 1\<rparr>)
                     (AList.map_entry name (\<lambda>n. n\<lparr>n_in := n_in n + 1\<rparr>) (g_nodes g))\<rparr>))"

fun add_deps :: "string \<Rightarrow> string list \<Rightarrow> dep_graph \<Rightarrow> dep_error + dep_graph" where
  "add_deps name [] g = Inr g"
| "add_deps name (dep # deps) g =
     (case add_edge name dep g of Inl e \<Rightarrow> Inl e | Inr g' \<Rightarrow> add_deps name deps g')"

fun add_crds :: "dep_catalog \<Rightarrow> dep_graph \<Rightarrow> dep_error + dep_graph" where
  "add_crds [] g = Inr g"
| "add_crds ((name, deps) # crds) g =
     (case add_deps name deps g of Inl e \<Rightarrow> Inl e | Inr g' \<Rightarrow> add_crds crds g')"

definition new_node :: "string \<Rightarrow> node" where
  "new_node name = \<lparr>n_name = name, n_in = 0, n_out = 0\<rparr>"

definition NewDependencyGraph :: "dep_catalog \<Rightarrow> dep_error + dep_graph" where
  "NewDependencyGraph cat =
     add_crds cat \<lparr>g_nodes = map (\<lambda>(name, _). (name, new_node name)) cat, g_edges = [], g_order = None\<rparr>"

section \<open>Startup and shutdown order\<close>

text \<open>The inner loop: every dependent loses one dependency and joins the queue at zero.\<close>

fun relax :: "string list \<Rightarrow> (string \<Rightarrow> int) \<Rightarrow> string list \<Rightarrow> (string \<Rightarrow> int) \<times> string list" where
  "relax [] indegree queue = (indegree, queue)"
| "relax (neighbor # neighbors) indegree queue =
     (let indegree' = indegree(neighbor := indegree neighbor - 1)
      in relax neighbors indegree'
           (if indegree' neighbor = 0 then queue @ [neighbor] else queue))"

partial_function (option) kahn ::
  "(string \<Rightarrow> string list) \<Rightarrow> string list \<Rightarrow> (string \<Rightarrow> int) \<Rightarrow> string list \<Rightarrow> string list option" where
  "kahn edges queue indegree order =
     (case queue of
        [] \<Rightarrow> Some order
      | current # queue' \<Rightarrow>
          (let r = relax (sort (edges current)) indegree queue'
           in kahn edges (sort (snd r)) (fst r) (order @ [current])))"

declare kahn.simps [code]

definition in_degree :: "dep_graph \<Rightarrow> string \<Rightarrow> int" where
  "in_degree g name = (case map_of (g_nodes g) name of None \<Rightarrow> 0 | Some n \<Rightarrow> n_in n)"

definition compute_order :: "dep_graph \<Rightarrow> (dep_error + string list) option" where
  "compute_order g =
     (let names = sort (map fst (g_nodes g));
          queue = filter (\<lambda>name. in_degree g name = 0) names
      in case kahn (edges_of (g_edges g)) queue (in_degree g) [] of
           None \<Rightarrow> None
         | Some order \<Rightarrow>
             (if length order \<noteq> length (g_nodes g) then Some (Inl CircularDependency)
              else Some (Inr order)))"

text \<open>\<^verbatim>\<open>StartupOrder\<close>; \<open>None\<close> would be a loop that does not end.\<close>

definition StartupOrder :: "dep_graph \<Rightarrow> (dep_error + string list) option \<times> dep_graph" where
  "StartupOrder g =
     (case g_order g of
        Some order \<Rightarrow> (Some (Inr order), g)
      | None \<Rightarrow>
          (case compute_order g of
             Some (Inr order) \<Rightarrow> (Some (Inr order), g\<lparr>g_order := Some order\<rparr>)
           | r \<Rightarrow> (r, g)))"

text \<open>\<^verbatim>\<open>utils.Reversed\<close> writes \<open>out[len-1-i] = s[i]\<close> for every index, so what the new slice
  holds before (here \<open>s\<close>, in Go zero values) does not matter.\<close>

definition Reversed :: "'a list \<Rightarrow> 'a list" where
  "Reversed s = foldl (\<lambda>out i. out[length s - 1 - i := s ! i]) s [0..<length s]"

definition ShutdownOrder :: "dep_graph \<Rightarrow> (dep_error + string list) option \<times> dep_graph" where
  "ShutdownOrder g =
     (case StartupOrder g of
        (Some (Inr order), g') \<Rightarrow> (Some (Inr (Reversed order)), g')
      | r \<Rightarrow> r)"

section \<open>Queries\<close>

definition GetNode :: "dep_graph \<Rightarrow> string \<Rightarrow> node option" where
  "GetNode g name = map_of (g_nodes g) name"

definition GetNodes :: "dep_graph \<Rightarrow> (string \<times> node) list" where
  "GetNodes g = g_nodes g"

definition GetEdges :: "dep_graph \<Rightarrow> (string \<times> string list) list" where
  "GetEdges g = g_edges g"

text \<open>\<open>None\<close> is the nil dereference on an unknown name.\<close>

definition GetInDegree :: "dep_graph \<Rightarrow> string \<Rightarrow> int option" where
  "GetInDegree g name = map_option n_in (map_of (g_nodes g) name)"

definition GetOutDegree :: "dep_graph \<Rightarrow> string \<Rightarrow> int option" where
  "GetOutDegree g name = map_option n_out (map_of (g_nodes g) name)"

definition GetDependents :: "dep_graph \<Rightarrow> string \<Rightarrow> string list" where
  "GetDependents g name =
     concat (map (\<lambda>(dep, deps). concat (map (\<lambda>d. if d = name then [dep] else []) deps)) (g_edges g))"

definition GetDependencies :: "dep_graph \<Rightarrow> string \<Rightarrow> string list" where
  "GetDependencies g name = edges_of (g_edges g) name"

definition Validate_graph :: "dep_graph \<Rightarrow> string option" where
  "Validate_graph g =
     map_option fst (List.find (\<lambda>(name, n). n_in n < 0 \<or> n_out n < 0) (g_nodes g))"

section \<open>What the order is for\<close>

text \<open>The dependency pairs \<open>(name, dependency)\<close> of a catalog, and the catalogs Go can hold.\<close>

definition dep_pairs :: "dep_catalog \<Rightarrow> (string \<times> string) list" where
  "dep_pairs cat = concat (map (\<lambda>(name, deps). map (\<lambda>d. (name, d)) deps) cat)"

definition wf_catalog :: "dep_catalog \<Rightarrow> bool" where
  "wf_catalog cat \<longleftrightarrow> distinct (map fst cat) \<and> list_all (\<lambda>c. distinct (snd c)) cat"

text \<open>An order is valid when it lists every CRD once, each after all its dependencies.\<close>

fun deps_first :: "(string \<times> string) list \<Rightarrow> string list \<Rightarrow> string list \<Rightarrow> bool" where
  "deps_first ps started [] = True"
| "deps_first ps started (x # xs) =
     (list_all (\<lambda>(n, d). n = x \<longrightarrow> d \<in> set started) ps \<and> deps_first ps (started @ [x]) xs)"

definition valid_order :: "dep_catalog \<Rightarrow> string list \<Rightarrow> bool" where
  "valid_order cat order \<longleftrightarrow>
     distinct order \<and> set order = set (map fst cat) \<and> deps_first (dep_pairs cat) [] order"

text \<open>A cycle: CRDs that each depend on one of themselves.\<close>

definition has_cycle :: "dep_catalog \<Rightarrow> bool" where
  "has_cycle cat \<longleftrightarrow>
     (\<exists>C. C \<noteq> {} \<and> C \<subseteq> set (map fst cat) \<and> (\<forall>n \<in> C. \<exists>d \<in> C. (n, d) \<in> set (dep_pairs cat)))"

section \<open>Lemmas: building the graph\<close>

lemma Reversed_eq [simp]: "Reversed s = rev s"
proof -
  let ?f = "\<lambda>out i. out[length s - 1 - i := s ! i]"
  have step: "length (foldl ?f s [0..<k]) = length s \<and>
      (\<forall>j < length s. length s - k \<le> j \<longrightarrow> foldl ?f s [0..<k] ! j = s ! (length s - 1 - j))"
    if "k \<le> length s" for k
    using that
  proof (induction k)
    case (Suc k)
    then show ?case by (auto simp: nth_list_update)
  qed simp
  from step [of "length s"] show ?thesis
    by (intro nth_equalityI) (auto simp: Reversed_def rev_nth)
qed

text \<open>The graph is determined by the list of pairs, added one at a time.\<close>

fun add_pairs :: "(string \<times> string) list \<Rightarrow> dep_graph \<Rightarrow> dep_error + dep_graph" where
  "add_pairs [] g = Inr g"
| "add_pairs ((n, d) # ps) g =
     (case add_edge n d g of Inl e \<Rightarrow> Inl e | Inr g' \<Rightarrow> add_pairs ps g')"

lemma add_pairs_append:
  "add_pairs (ps @ qs) g = (case add_pairs ps g of Inl e \<Rightarrow> Inl e | Inr g' \<Rightarrow> add_pairs qs g')"
  by (induction ps g rule: add_pairs.induct) (auto split: sum.splits)

lemma add_deps_pairs: "add_deps n ds g = add_pairs (map (\<lambda>d. (n, d)) ds) g"
  by (induction n ds g rule: add_deps.induct) (auto split: sum.splits)

lemma add_crds_pairs: "add_crds cat g = add_pairs (dep_pairs cat) g"
  by (induction cat g rule: add_crds.induct)
    (auto simp: dep_pairs_def add_pairs_append add_deps_pairs split: sum.splits)

definition targets :: "(string \<times> string) list \<Rightarrow> string \<Rightarrow> string list" where
  "targets ps d = map fst (filter (\<lambda>p. snd p = d) ps)"

definition sources :: "(string \<times> string) list \<Rightarrow> string \<Rightarrow> nat" where
  "sources ps n = length (filter (\<lambda>p. fst p = n) ps)"

lemma edges_of_update:
  "edges_of (AList.update d l es) = (edges_of es)(d := l)"
  by (auto simp: edges_of_def update_conv')

lemma add_edge_result:
  assumes "add_edge n d g = Inr g'"
  shows "map fst (g_nodes g') = map fst (g_nodes g)"
    and "edges_of (g_edges g') = (edges_of (g_edges g))(d := edges_of (g_edges g) d @ [n])"
    and "map_of (g_nodes g) n \<noteq> None \<Longrightarrow>
      in_degree g' = (in_degree g)(n := in_degree g n + 1)"
    and "g_order g' = g_order g" "d \<in> set (map fst (g_nodes g))"
proof -
  have keys: "map fst (AList.map_entry k f xs) = map fst xs" for k f and xs :: "(string \<times> node) list"
    by (induction xs) auto
  from assms show "map fst (g_nodes g') = map fst (g_nodes g)"
    "edges_of (g_edges g') = (edges_of (g_edges g))(d := edges_of (g_edges g) d @ [n])"
    "g_order g' = g_order g" "d \<in> set (map fst (g_nodes g))"
    by (auto simp: add_edge_def keys edges_of_update map_of_eq_None_iff split: if_splits)
  show "in_degree g' = (in_degree g)(n := in_degree g n + 1)" if "map_of (g_nodes g) n \<noteq> None"
    using assms that
    by (auto simp: add_edge_def in_degree_def fun_eq_iff map_of_map_entry split: if_splits option.splits)
qed

lemma add_pairs_result:
  assumes "add_pairs ps g = Inr g'" "fst ` set ps \<subseteq> set (map fst (g_nodes g))"
  shows "map fst (g_nodes g') = map fst (g_nodes g)
    \<and> (\<forall>d. edges_of (g_edges g') d = edges_of (g_edges g) d @ targets ps d)
    \<and> (\<forall>n. in_degree g' n = in_degree g n + int (sources ps n))
    \<and> g_order g' = g_order g \<and> snd ` set ps \<subseteq> set (map fst (g_nodes g))"
  using assms
proof (induction ps g rule: add_pairs.induct)
  case (1 g)
  then show ?case by (simp add: targets_def sources_def)
next
  case (2 n d ps g)
  then obtain g1 where g1: "add_edge n d g = Inr g1" "add_pairs ps g1 = Inr g'"
    by (auto split: sum.splits)
  have n: "map_of (g_nodes g) n \<noteq> None" using 2(3) by (auto simp: map_of_eq_None_iff)
  note r = add_edge_result [OF g1(1)]
  have "fst ` set ps \<subseteq> set (map fst (g_nodes g1))" using 2(3) r(1) by simp
  from 2(1) [OF g1 this] r(1,2,4,5) r(3) [OF n] show ?case
    by (simp add: targets_def sources_def)
qed

lemma new_graph:
  assumes "NewDependencyGraph cat = Inr g"
  shows "map fst (g_nodes g) = map fst cat"
    and "edges_of (g_edges g) = targets (dep_pairs cat)"
    and "in_degree g = (\<lambda>n. int (sources (dep_pairs cat) n))"
    and "g_order g = None" "snd ` set (dep_pairs cat) \<subseteq> set (map fst cat)"
proof -
  let ?g0 = "\<lparr>g_nodes = map (\<lambda>(name, _). (name, new_node name)) cat, g_edges = [], g_order = None\<rparr> :: dep_graph"
  have nodes: "map fst (g_nodes ?g0) = map fst cat" by auto
  have "in_degree ?g0 n = 0" for n
    by (auto simp: in_degree_def new_node_def dest!: map_of_SomeD split: option.splits)
  moreover have "edges_of (g_edges ?g0) d = []" for d by (simp add: edges_of_def)
  moreover have "fst ` set (dep_pairs cat) \<subseteq> set (map fst cat)"
    by (force simp: dep_pairs_def)
  moreover have "add_pairs (dep_pairs cat) ?g0 = Inr g"
    using assms by (simp add: NewDependencyGraph_def add_crds_pairs)
  moreover note add_pairs_result [of "dep_pairs cat" ?g0 g] nodes
  ultimately show "map fst (g_nodes g) = map fst cat"
    "edges_of (g_edges g) = targets (dep_pairs cat)"
    "in_degree g = (\<lambda>n. int (sources (dep_pairs cat) n))"
    "g_order g = None" "snd ` set (dep_pairs cat) \<subseteq> set (map fst cat)"
    by (auto simp: fun_eq_iff)
qed

section \<open>Lemmas: Kahn's algorithm\<close>

lemma relax_result:
  "distinct ns \<Longrightarrow>
   relax ns ind q = ((\<lambda>v. if v \<in> set ns then ind v - 1 else ind v), q @ filter (\<lambda>n. ind n = 1) ns)"
proof (induction ns arbitrary: ind q)
  case (Cons n ns)
  define ind1 where "ind1 = ind(n := ind n - 1)"
  have n1: "ind1 n = ind n - 1" "\<And>m. m \<noteq> n \<Longrightarrow> ind1 m = ind m" by (simp_all add: ind1_def)
  have same: "ind1 m = ind m" if "m \<in> set ns" for m
    using that Cons.prems n1(2) by (metis distinct.simps(2))
  have "filter (\<lambda>m. ind1 m = 1) ns = filter (\<lambda>m. ind m = 1) ns"
    by (rule filter_cong) (simp_all add: same)
  moreover have "(\<lambda>v. if v \<in> set ns then ind1 v - 1 else ind1 v) =
     (\<lambda>v. if v \<in> set (n # ns) then ind v - 1 else ind v)"
    using Cons.prems n1 by fastforce
  moreover have "relax (n # ns) ind q = relax ns ind1 (if ind n = 1 then q @ [n] else q)"
    unfolding ind1_def by (simp add: Let_def)
  ultimately show ?case
    using Cons.IH [of ind1] Cons.prems by simp
qed simp

text \<open>
  The invariant over the dependency pairs \<open>ps\<close> among the CRDs \<open>V\<close>: every count is the number
  of dependencies not started yet, the CRDs at zero are exactly those started or queued, and
  what is started respects the dependencies.
\<close>

definition open_deps :: "(string \<times> string) list \<Rightarrow> string list \<Rightarrow> string \<Rightarrow> int" where
  "open_deps ps started n = int (length (filter (\<lambda>p. fst p = n \<and> snd p \<notin> set started) ps))"

definition kahn_inv ::
  "(string \<times> string) list \<Rightarrow> string set \<Rightarrow> string list \<Rightarrow> (string \<Rightarrow> int) \<Rightarrow> string list \<Rightarrow> bool" where
  "kahn_inv ps V queue ind order \<longleftrightarrow>
     distinct (order @ queue) \<and> (\<forall>n. ind n = open_deps ps order n) \<and>
     set order \<union> set queue = {n \<in> V. ind n = 0} \<and> deps_first ps [] order"

lemma open_deps_0: "open_deps ps started n = 0 \<longleftrightarrow> (\<forall>d. (n, d) \<in> set ps \<longrightarrow> d \<in> set started)"
  by (force simp: open_deps_def filter_empty_conv)

lemma deps_first_append:
  "deps_first ps st (xs @ ys) \<longleftrightarrow> deps_first ps st xs \<and> deps_first ps (st @ xs) ys"
  by (induction xs arbitrary: st) auto

lemma open_deps_snoc:
  assumes "distinct ps" "c \<notin> set started"
  shows "open_deps ps (started @ [c]) n = open_deps ps started n - (if (n, c) \<in> set ps then 1 else 0)"
  using assms(1)
proof (induction ps)
  case Nil
  then show ?case by (simp add: open_deps_def)
next
  case (Cons p ps)
  then show ?case
    using assms(2) by (cases p) (auto simp: open_deps_def)
qed

lemma targets_set: "set (targets ps d) = {n. (n, d) \<in> set ps}"
  by (force simp: targets_def)

lemma targets_distinct: "distinct ps \<Longrightarrow> distinct (targets ps d)"
  by (auto simp: targets_def distinct_map intro!: inj_onI prod_eqI)

lemma kahn_step_inv:
  assumes inv: "kahn_inv ps V (c # q) ind order"
    and ps: "distinct ps" "fst ` set ps \<subseteq> V"
    and r: "relax (sort (targets ps c)) ind q = (ind', q')"
  shows "kahn_inv ps V (sort q') ind' (order @ [c])"
proof -
  have c: "c \<notin> set order" "c \<notin> set q" "c \<in> V" "ind c = 0"
    using inv by (auto simp: kahn_inv_def)
  have ind: "ind n = open_deps ps order n" for n using inv by (simp add: kahn_inv_def)
  have rr: "ind' = (\<lambda>v. if (v, c) \<in> set ps then ind v - 1 else ind v)"
    "q' = q @ filter (\<lambda>n. ind n = 1) (sort (targets ps c))"
    using r targets_distinct [OF ps(1)] by (simp_all add: relax_result targets_set)
  have ind': "ind' n = open_deps ps (order @ [c]) n" for n
    using open_deps_snoc [OF ps(1) c(1)] by (simp add: rr(1) ind)
  have pos: "(n, c) \<in> set ps \<Longrightarrow> ind n \<noteq> 0" for n using c(1) by (auto simp: ind open_deps_0)
  have fresh: "n \<notin> set order \<and> n \<notin> set (c # q)" if "(n, c) \<in> set ps" for n
    using inv pos [OF that] by (auto simp: kahn_inv_def)
  have "distinct ((order @ [c]) @ q')"
    using inv fresh targets_distinct [OF ps(1)] by (auto simp: kahn_inv_def rr(2) targets_set)
  moreover have "set (order @ [c]) \<union> set q' = {n \<in> V. ind' n = 0}"
  proof -
    have "set order \<union> set (c # q) = {n \<in> V. ind n = 0}" using inv by (simp add: kahn_inv_def)
    moreover have "n \<in> V" if "(n, c) \<in> set ps" for n using that ps(2) by force
    ultimately show ?thesis using pos by (auto simp: rr targets_set)
  qed
  moreover have "deps_first ps [] (order @ [c])"
  proof -
    have "\<forall>d. (c, d) \<in> set ps \<longrightarrow> d \<in> set order" using c(4) by (simp add: ind open_deps_0)
    then show ?thesis using inv by (auto simp: kahn_inv_def deps_first_append list_all_iff)
  qed
  ultimately show ?thesis
    using ind' by (auto simp: kahn_inv_def)
qed

lemma kahn_returns:
  assumes "kahn_inv ps V queue ind order" "distinct ps" "fst ` set ps \<subseteq> V" "finite V"
  shows "\<exists>order' ind'. kahn (targets ps) queue ind order = Some order' \<and> kahn_inv ps V [] ind' order'"
  using assms(1)
proof (induction "card V - length order" arbitrary: queue ind order rule: less_induct)
  case less
  show ?case
  proof (cases queue)
    case Nil
    with less.prems show ?thesis by (subst kahn.simps) auto
  next
    case (Cons c q)
    obtain ind' q' where r: "relax (sort (targets ps c)) ind q = (ind', q')" by fastforce
    have inv: "kahn_inv ps V (sort q') ind' (order @ [c])"
      by (rule kahn_step_inv [OF less.prems [unfolded Cons] assms(2,3) r])
    have "distinct (order @ [c])" "set (order @ [c]) \<subseteq> V"
      using inv by (auto simp: kahn_inv_def)
    then have "length (order @ [c]) \<le> card V"
      using card_mono [OF assms(4), of "set (order @ [c])"] distinct_card [of "order @ [c]"] by simp
    then have "card V - length (order @ [c]) < card V - length order" by simp
    from less.hyps [OF this inv] show ?thesis
      unfolding Cons by (subst kahn.simps) (simp add: r)
  qed
qed

lemma kahn_complete_or_stuck:
  assumes inv: "kahn_inv ps V [] ind order"
  shows "set order \<subseteq> V" "n \<in> V \<Longrightarrow> n \<notin> set order \<Longrightarrow> \<exists>d. d \<notin> set order \<and> (n, d) \<in> set ps"
proof -
  have eq: "set order = {n \<in> V. ind n = 0}" using inv by (simp add: kahn_inv_def)
  then show "set order \<subseteq> V" by blast
  assume "n \<in> V" "n \<notin> set order"
  with eq have "ind n \<noteq> 0" by blast
  moreover have "ind n = open_deps ps order n" using inv by (simp add: kahn_inv_def)
  ultimately have "open_deps ps order n \<noteq> 0" by simp
  then show "\<exists>d. d \<notin> set order \<and> (n, d) \<in> set ps" unfolding open_deps_0 by blast
qed

lemma cycle_not_ordered:
  assumes "deps_first ps st xs" "C \<noteq> {}" "C \<subseteq> set xs" "C \<inter> set st = {}"
    and "\<forall>n \<in> C. \<exists>d \<in> C. (n, d) \<in> set ps"
  shows False
  using assms
proof (induction xs arbitrary: st)
  case (Cons x xs)
  show ?case
  proof (cases "x \<in> C")
    case True
    with Cons.prems obtain d where "d \<in> C" "(x, d) \<in> set ps" by blast
    with Cons.prems(1,4) show ?thesis by (auto simp: list_all_iff)
  next
    case False
    show ?thesis
      by (rule Cons.IH [of "st @ [x]"]) (use Cons.prems False in auto)
  qed
qed auto

lemma graph_start_inv:
  assumes "NewDependencyGraph cat = Inr g" "wf_catalog cat"
  shows "kahn_inv (dep_pairs cat) (set (map fst cat))
     (filter (\<lambda>name. in_degree g name = 0) (sort (map fst (g_nodes g)))) (in_degree g) []"
  using assms new_graph [OF assms(1)]
  by (auto simp: kahn_inv_def wf_catalog_def open_deps_def sources_def)

lemma dep_pairs_distinct: "wf_catalog cat \<Longrightarrow> distinct (dep_pairs cat)"
proof (induction cat)
  case (Cons c cat)
  obtain n ds where "c = (n, ds)" by (cases c)
  with Cons show ?case
    by (force simp: wf_catalog_def dep_pairs_def distinct_map intro: inj_onI)
qed (simp add: dep_pairs_def)

lemma dep_pairs_fst: "fst ` set (dep_pairs cat) \<subseteq> set (map fst cat)"
  by (force simp: dep_pairs_def)

lemma compute_order_cases:
  assumes "NewDependencyGraph cat = Inr g" "wf_catalog cat"
  obtains (ordered) order where "compute_order g = Some (Inr order)" "valid_order cat order"
    | (cyclic) "compute_order g = Some (Inl CircularDependency)" "has_cycle cat"
proof -
  note new = new_graph [OF assms(1)]
  let ?V = "set (map fst cat)" and ?ps = "dep_pairs cat"
  obtain order ind where
    run: "kahn (targets ?ps) (filter (\<lambda>name. in_degree g name = 0) (sort (map fst (g_nodes g))))
      (in_degree g) [] = Some order" and inv: "kahn_inv ?ps ?V [] ind order"
    using kahn_returns [OF graph_start_inv [OF assms] dep_pairs_distinct [OF assms(2)] dep_pairs_fst] by auto
  note stuck = kahn_complete_or_stuck [OF inv]
  have "distinct order" using inv by (simp add: kahn_inv_def)
  then have len: "length order = card (set order)" by (simp add: distinct_card)
  have V: "length (g_nodes g) = card ?V"
    using assms(2) new(1) by (metis distinct_card length_map wf_catalog_def)
  show ?thesis
  proof (cases "set order = ?V")
    case True
    then have "valid_order cat order" using inv by (simp add: kahn_inv_def valid_order_def)
    moreover have "compute_order g = Some (Inr order)"
      using run V len True by (simp add: compute_order_def new(2) Let_def)
    ultimately show ?thesis using ordered by blast
  next
    case False
    with stuck(1) have "set order \<subset> ?V" by blast
    then have "length order \<noteq> length (g_nodes g)"
      using V len psubset_card_mono [of ?V "set order"] by simp
    then have "compute_order g = Some (Inl CircularDependency)"
      using run by (simp add: compute_order_def new(2) Let_def)
    moreover have "has_cycle cat"
      unfolding has_cycle_def
    proof (intro exI conjI ballI)
      show "?V - set order \<noteq> {}" using stuck(1) False by blast
      show "?V - set order \<subseteq> ?V" by blast
      fix n assume "n \<in> ?V - set order"
      with stuck(2) obtain d where "d \<notin> set order" "(n, d) \<in> set ?ps" by blast
      with new(5) show "\<exists>d \<in> ?V - set order. (n, d) \<in> set ?ps" by force
    qed
    ultimately show ?thesis using cyclic by blast
  qed
qed

lemma kahn_cong_Some:
  assumes "kahn e q ind ord = Some r"
  shows "\<forall>e'. (\<forall>c. sort (e c) = sort (e' c)) \<longrightarrow> kahn e' q ind ord = Some r"
  using assms
proof (rule kahn.raw_induct [where
      P = "\<lambda>e q ind ord r. \<forall>e'. (\<forall>c. sort (e c) = sort (e' c)) \<longrightarrow> kahn e' q ind ord = Some r", rotated])
  fix kahn' e q ind ord r
  assume IH: "\<And>e q ind ord y. kahn' e q ind ord = Some y \<Longrightarrow>
      \<forall>e'. (\<forall>c. sort (e c) = sort (e' c)) \<longrightarrow> kahn e' q ind ord = Some y"
    and body: "(case q of [] \<Rightarrow> Some ord
      | c # q' \<Rightarrow> (let r = relax (sort (e c)) ind q' in kahn' e (sort (snd r)) (fst r) (ord @ [c]))) = Some r"
  show "\<forall>e'. (\<forall>c. sort (e c) = sort (e' c)) \<longrightarrow> kahn e' q ind ord = Some r"
  proof (intro allI impI)
    fix e' :: "string \<Rightarrow> string list"
    assume same: "\<forall>c. sort (e c) = sort (e' c)"
    show "kahn e' q ind ord = Some r"
    proof (cases q)
      case Nil
      with body show ?thesis by (subst kahn.simps) simp
    next
      case (Cons c q')
      with body have "kahn' e (sort (snd (relax (sort (e c)) ind q'))) (fst (relax (sort (e c)) ind q'))
          (ord @ [c]) = Some r" by (simp add: Let_def)
      from IH [OF this] same have "kahn e' (sort (snd (relax (sort (e c)) ind q')))
          (fst (relax (sort (e c)) ind q')) (ord @ [c]) = Some r" by blast
      with Cons same show ?thesis by (subst kahn.simps) (simp add: Let_def)
    qed
  qed
qed

lemma kahn_cong:
  assumes "\<forall>c. sort (e c) = sort (e' c)"
  shows "kahn e q ind ord = kahn e' q ind ord"
proof (cases "kahn e q ind ord")
  case None
  show ?thesis
  proof (cases "kahn e' q ind ord")
    case (Some r)
    with kahn_cong_Some [OF Some] assms None show ?thesis by simp
  qed (simp add: None)
next
  case (Some r)
  with kahn_cong_Some [OF Some] assms show ?thesis by simp
qed

lemma add_pairs_total:
  "snd ` set ps \<subseteq> set (map fst (g_nodes g)) \<Longrightarrow> \<exists>g'. add_pairs ps g = Inr g'"
proof (induction ps g rule: add_pairs.induct)
  case (2 n d ps g)
  then obtain g1 where g1: "add_edge n d g = Inr g1"
    by (auto simp: add_edge_def map_of_eq_None_iff)
  have "snd ` set ps \<subseteq> set (map fst (g_nodes g1))"
    using add_edge_result(1) [OF g1] 2(2) by simp
  with 2(1) [OF g1] g1 show ?case by simp
qed simp

lemma new_graph_ok_iff:
  "(\<exists>g. NewDependencyGraph cat = Inr g) \<longleftrightarrow> snd ` set (dep_pairs cat) \<subseteq> set (map fst cat)"
proof
  assume "\<exists>g. NewDependencyGraph cat = Inr g"
  then show "snd ` set (dep_pairs cat) \<subseteq> set (map fst cat)" using new_graph(5) by blast
next
  assume "snd ` set (dep_pairs cat) \<subseteq> set (map fst cat)"
  then show "\<exists>g. NewDependencyGraph cat = Inr g"
    unfolding NewDependencyGraph_def add_crds_pairs by (intro add_pairs_total) (force simp: comp_def case_prod_unfold)
qed

lemma mset_dep_pairs:
  assumes "mset cat = mset cat'"
  shows "mset (dep_pairs cat) = mset (dep_pairs cat')"
proof -
  have "mset (dep_pairs c) = sum_mset (image_mset (\<lambda>(n, ds). mset (map (\<lambda>d. (n, d)) ds)) (mset c))"
    for c :: dep_catalog
    by (induction c) (auto simp: dep_pairs_def)
  with assms show ?thesis by simp
qed

section \<open>Properties\<close>

text \<open>
  C2. For every catalog whose dependencies exist, the computation of the startup order ends.
  It returns an order that lists every CRD once, each after everything it depends on, or
  reports a circular dependency, and then there is one; a catalog with a cycle is never
  given an order.
\<close>
theorem startup_order_correct:
  assumes "wf_catalog cat" "NewDependencyGraph cat = Inr g"
  shows "case fst (StartupOrder g) of
      None \<Rightarrow> False
    | Some (Inr order) \<Rightarrow> valid_order cat order \<and> \<not> has_cycle cat
    | Some (Inl e) \<Rightarrow> e = CircularDependency \<and> has_cycle cat"
proof -
  have start: "fst (StartupOrder g) = compute_order g"
    using new_graph(4) [OF assms(2)] by (auto simp: StartupOrder_def split: option.splits sum.splits)
  show ?thesis
  proof (cases rule: compute_order_cases [OF assms(2,1)])
    case (1 order)
    moreover have "\<not> has_cycle cat"
    proof
      assume "has_cycle cat"
      then obtain C where "C \<noteq> {}" "C \<subseteq> set order" "\<forall>n \<in> C. \<exists>d \<in> C. (n, d) \<in> set (dep_pairs cat)"
        using 1(2) by (auto simp: has_cycle_def valid_order_def)
      with cycle_not_ordered [of "dep_pairs cat" "[]" order C] 1(2) show False
        by (auto simp: valid_order_def)
    qed
    ultimately show ?thesis by (simp add: start)
  next
    case 2
    then show ?thesis by (simp add: start)
  qed
qed

text \<open>A catalog of three CRDs: the app needs the database and the network, the database the network.\<close>

definition sample_catalog :: dep_catalog where
  "sample_catalog =
     [(''app'', [''db'', ''net'']), (''db'', [''net'']), (''net'', [])]"

definition sample_graph :: dep_graph where
  "sample_graph =
     \<lparr>g_nodes = [(''app'', \<lparr>n_name = ''app'', n_in = 2, n_out = 0\<rparr>),
                 (''db'', \<lparr>n_name = ''db'', n_in = 1, n_out = 1\<rparr>),
                 (''net'', \<lparr>n_name = ''net'', n_in = 0, n_out = 2\<rparr>)],
      g_edges = [(''db'', [''app'']), (''net'', [''app'', ''db''])], g_order = None\<rparr>"

lemma sample_graph_new: "wf_catalog sample_catalog" "NewDependencyGraph sample_catalog = Inr sample_graph"
  by (simp_all add: sample_catalog_def sample_graph_def wf_catalog_def NewDependencyGraph_def
      new_node_def add_edge_def edges_of_def)

theorem startup_order_correct_witness:
  "\<not> has_cycle sample_catalog"
proof -
  have "compute_order sample_graph = Some (Inr [''net'', ''db'', ''app''])" by code_simp
  then have "fst (StartupOrder sample_graph) = Some (Inr [''net'', ''db'', ''app''])"
    by (simp add: StartupOrder_def sample_graph_def)
  with startup_order_correct [OF sample_graph_new] show ?thesis by simp
qed

lemma compute_order_permuted:
  assumes "mset cat = mset cat'" "NewDependencyGraph cat = Inr g" "NewDependencyGraph cat' = Inr g'"
  shows "compute_order g = compute_order g'"
proof -
  note new = new_graph [OF assms(2)] and new' = new_graph [OF assms(3)]
  have pairs: "mset (dep_pairs cat) = mset (dep_pairs cat')" by (rule mset_dep_pairs [OF assms(1)])
  have names: "mset (map fst (g_nodes g)) = mset (map fst (g_nodes g'))"
    using assms(1) by (simp add: new(1) new'(1) del: mset_map) (metis mset_map)
  then have sorted_names: "sort (map fst (g_nodes g)) = sort (map fst (g_nodes g'))"
    by (metis properties_for_sort sorted_sort mset_sort)
  have "mset (targets (dep_pairs cat) c) = mset (targets (dep_pairs cat') c)" for c
    using pairs by (simp add: targets_def)
  then have edges: "\<forall>c. sort (targets (dep_pairs cat) c) = sort (targets (dep_pairs cat') c)"
    by (metis properties_for_sort sorted_sort mset_sort)
  have "sources (dep_pairs cat) n = sources (dep_pairs cat') n" for n
    using pairs by (metis sources_def mset_filter size_mset)
  then have deg: "in_degree g = in_degree g'" by (simp add: new(3) new'(3))
  have len: "length (g_nodes g) = length (g_nodes g')" using names by (metis length_map size_mset)
  show ?thesis
    unfolding compute_order_def new(2) new'(2) sorted_names deg len kahn_cong [OF edges] by (rule refl)
qed

text \<open>
  The startup order does not depend on the order in which Go iterates the catalog and
  the dependency maps: two graphs built from the same CRDs in any order give the same
  result, and a dependency is missing for one exactly when one is missing for the other.
\<close>
lemma startup_order_deterministic:
  assumes "mset cat = mset cat'"
  shows "case (NewDependencyGraph cat, NewDependencyGraph cat') of
      (Inr g, Inr g') \<Rightarrow> fst (StartupOrder g) = fst (StartupOrder g')
    | (Inl _, Inl _) \<Rightarrow> True
    | _ \<Rightarrow> False"
proof -
  have "set (dep_pairs cat) = set (dep_pairs cat')" "set (map fst cat) = set (map fst cat')"
    using mset_eq_setD [OF mset_dep_pairs [OF assms]] mset_eq_setD [OF assms] by simp_all
  then have ok: "(\<exists>g. NewDependencyGraph cat = Inr g) = (\<exists>g. NewDependencyGraph cat' = Inr g)"
    by (simp add: new_graph_ok_iff)
  show ?thesis
  proof (cases "NewDependencyGraph cat")
    case (Inl e)
    with ok show ?thesis by (cases "NewDependencyGraph cat'") auto
  next
    case (Inr g)
    with ok obtain g' where g': "NewDependencyGraph cat' = Inr g'" by auto
    with Inr compute_order_permuted [OF assms Inr g'] new_graph(4) [OF Inr] new_graph(4) [OF g']
    show ?thesis by (auto simp: StartupOrder_def split: option.splits sum.splits)
  qed
qed

lemma deps_first_split:
  "deps_first ps st (xs @ x # ys) \<Longrightarrow> (x, d) \<in> set ps \<Longrightarrow> d \<in> set st \<union> set xs"
  by (auto simp: deps_first_append list_all_iff)

text \<open>
  The shutdown order stops a CRD only after every CRD that depends on it: wherever a
  dependency stands in the list, all its dependents stand before it.
\<close>
lemma shutdown_order_correct:
  assumes "wf_catalog cat" "NewDependencyGraph cat = Inr g"
    and "fst (ShutdownOrder g) = Some (Inr (before @ d # after))"
    and "(n, d) \<in> set (dep_pairs cat)"
  shows "n \<in> set before"
proof -
  have "fst (StartupOrder g) = Some (Inr (rev after @ d # rev before))"
  proof (cases "StartupOrder g")
    case (Pair r g')
    with assms(3) show ?thesis
      by (cases r; cases "the r") (auto simp: ShutdownOrder_def rev_eq_append_conv)
  qed
  moreover have "fst (StartupOrder g) = compute_order g"
    using new_graph(4) [OF assms(2)] by (auto simp: StartupOrder_def split: option.splits sum.splits)
  ultimately have run: "compute_order g = Some (Inr (rev after @ d # rev before))" by simp
  have valid: "valid_order cat (rev after @ d # rev before)"
  proof (rule compute_order_cases [OF assms(2,1)])
    fix order
    assume "compute_order g = Some (Inr order)" "valid_order cat order"
    with run show ?thesis by (simp only: option.inject sum.inject)
  next
    assume "compute_order g = Some (Inl CircularDependency)"
    with run show ?thesis by (simp only: option.inject sum.distinct)
  qed
  have "n \<in> fst ` set (dep_pairs cat)" using assms(4) by (rule image_eqI [rotated]) simp
  then have "n \<in> set (map fst cat)" using dep_pairs_fst by blast
  then have "n \<in> set (rev after @ d # rev before)"
    using valid unfolding valid_order_def by (simp only:)
  moreover have "n \<notin> set (rev after @ [d])"
  proof
    assume "n \<in> set (rev after @ [d])"
    then obtain us vs where split: "rev after @ [d] = us @ n # vs" by (meson split_list)
    then have "deps_first (dep_pairs cat) [] (us @ n # (vs @ rev before))"
      using valid unfolding valid_order_def by (metis append.assoc append_Cons append_Nil)
    from deps_first_split [OF this assms(4)] have "d \<in> set us" by simp
    have "distinct (us @ n # vs)"
      using valid split unfolding valid_order_def by (metis append.assoc append_Cons append_Nil distinct_append)
    show False
    proof (cases vs rule: rev_cases)
      case Nil
      with split have "d = n" "us = rev after" by simp_all
      with \<open>d \<in> set us\<close> \<open>distinct (us @ n # vs)\<close> show False by simp
    next
      case (snoc vs' y)
      with split have "rev after @ [d] = (us @ n # vs') @ [y]" by simp
      then have "d = y" by blast
      with \<open>d \<in> set us\<close> \<open>distinct (us @ n # vs)\<close> snoc show False by simp
    qed
  qed
  ultimately show ?thesis by auto
qed

text \<open>
  The two neighbour queries return each other's answer: \<^verbatim>\<open>GetDependencies\<close> lists the CRDs
  that depend on the given one, and \<^verbatim>\<open>GetDependents\<close> the CRDs it depends on.
\<close>
lemma neighbour_queries_are_swapped:
  assumes "NewDependencyGraph cat = Inr g"
  shows "set (GetDependencies g name) = {n. (n, name) \<in> set (dep_pairs cat)}
    \<and> set (GetDependents g name) = {d. (name, d) \<in> set (dep_pairs cat)}"
proof -
  have edges: "edges_of (g_edges g) d = targets (dep_pairs cat) d" for d
    using new_graph(2) [OF assms] by simp
  have dist: "distinct (map fst (g_edges g))"
  proof -
    have "distinct (map fst (g_edges g'))"
      if "add_pairs ps g0 = Inr g'" "distinct (map fst (g_edges g0))" for ps g0 g'
      using that
      by (induction ps g0 rule: add_pairs.induct)
        (auto simp: add_edge_def distinct_update split: sum.splits if_splits)
    then show ?thesis using assms by (simp add: NewDependencyGraph_def add_crds_pairs)
  qed
  have "d \<in> set (GetDependents g name) \<longleftrightarrow> name \<in> set (edges_of (g_edges g) d)" for d
    using dist
    by (auto simp: GetDependents_def edges_of_def dest: map_of_SomeD split: option.splits if_splits)
  then show ?thesis by (auto simp: GetDependencies_def edges targets_set)
qed

end
