(* ===== verification/WorkQueue.thy ===== *)
theory WorkQueue
  imports Conditions
begin

text \<open>
  The work queue of a CRD, \<^verbatim>\<open>pkg/runtime/queue\<close>: capacity checks before an item is added,
  event identities that keep items from being coalesced, and the sentinel values kept
  beside the queue until an item is forgotten; and the registry of the queues by GVK.

  The queue underneath is client-go's rate limiting queue, third-party code: its operations
  are the parameter \<open>ops\<close>, its state the type \<open>'q\<close>.  Calls on a nil \<^verbatim>\<open>*Workqueue\<close>, which the
  code turns into no-ops, are not modelled; the mutexes and atomics make each operation one
  step.
\<close>

section \<open>Queue configuration\<close>

text \<open>\<^verbatim>\<open>types.Queue\<close> and its behaviour settings.\<close>

record behaviour_setting =
  bs_drop :: "bool option"
  bs_value :: int
  bs_when :: "condition list"
  bs_or :: "condition list"

record queue_behaviour =
  qb_on_limit :: "behaviour_setting option"
  qb_on_threshold :: "behaviour_setting option"

record queue_config =
  qc_max_depth :: int
  qc_behaviour :: "queue_behaviour option"

definition HasCondition :: "behaviour_setting \<Rightarrow> bool" where
  "HasCondition s \<longleftrightarrow> length (bs_when s) > 0 \<or> length (bs_or s) > 0"

definition IsUnlimited :: "queue_config \<Rightarrow> bool" where
  "IsUnlimited c \<longleftrightarrow> qc_max_depth c = 0"

definition on_limit :: "queue_config \<Rightarrow> behaviour_setting option" where
  "on_limit c = (case qc_behaviour c of None \<Rightarrow> None | Some b \<Rightarrow> qb_on_limit b)"

definition on_threshold :: "queue_config \<Rightarrow> behaviour_setting option" where
  "on_threshold c = (case qc_behaviour c of None \<Rightarrow> None | Some b \<Rightarrow> qb_on_threshold b)"

definition HasOnThreshold :: "queue_config \<Rightarrow> bool" where
  "HasOnThreshold c \<longleftrightarrow> on_threshold c \<noteq> None"

definition HasOnLimitConditions :: "queue_config \<Rightarrow> bool" where
  "HasOnLimitConditions c = (case on_limit c of None \<Rightarrow> False | Some s \<Rightarrow> HasCondition s)"

definition HasOnThresholdConditions :: "queue_config \<Rightarrow> bool" where
  "HasOnThresholdConditions c = (case on_threshold c of None \<Rightarrow> False | Some s \<Rightarrow> HasCondition s)"

definition ThresholdValue :: "queue_config \<Rightarrow> int" where
  "ThresholdValue c = (case on_threshold c of None \<Rightarrow> 0 | Some s \<Rightarrow> bs_value s)"

text \<open>
  \<^verbatim>\<open>float64(thresh) <= float64(depth) / float64(max) * 100\<close>; depths and limits are far below
  \<open>2^53\<close>, so their conversions are exact.
\<close>

definition ThresholdReached :: "queue_config \<Rightarrow> int \<Rightarrow> bool" where
  "ThresholdReached c depth =
     (if \<not> HasOnThreshold c then False
      else if qc_max_depth c = 0 then False
      else of_int (ThresholdValue c) \<le> f_mul (f_div (of_int depth) (of_int (qc_max_depth c))) 100)"

section \<open>The queue\<close>

record queue_item =
  qi_key :: string
  qi_gvk :: string
  qi_event :: "64 word"

text \<open>Sentinel values of an event; \<open>None\<close> is the nil map.\<close>

type_synonym sentinel_map = "(string \<Rightarrow> string option) option"

record 'q client_queue =
  cq_add :: "queue_item \<Rightarrow> 'q \<Rightarrow> 'q"
  cq_get :: "'q \<Rightarrow> (queue_item \<times> 'q) option"
  cq_done :: "queue_item \<Rightarrow> 'q \<Rightarrow> 'q"
  cq_forget :: "queue_item \<Rightarrow> 'q \<Rightarrow> 'q"
  cq_add_rate_limited :: "queue_item \<Rightarrow> 'q \<Rightarrow> 'q"
  cq_add_after :: "queue_item \<Rightarrow> int \<Rightarrow> 'q \<Rightarrow> 'q"
  cq_len :: "'q \<Rightarrow> nat"
  cq_shutdown :: "'q \<Rightarrow> 'q"

record behaviour_eval =
  be_on_limit :: bool
  be_on_threshold :: bool

record 'q workqueue =
  wq_name :: string
  wq_queue :: 'q
  wq_cfg :: "queue_config option"
  wq_eval :: "behaviour_eval option"  \<comment> \<open>\<^verbatim>\<open>evaluateCond\<close>, a pointer\<close>
  wq_max_depth :: "32 word"
  wq_next_event :: "64 word"
  wq_sentinels :: "queue_item \<Rightarrow> sentinel_map option"

definition NewWorkqueue :: "'q \<Rightarrow> string \<Rightarrow> 'q workqueue" where
  "NewWorkqueue new_queue name =
     \<lparr>wq_name = (if name = [] then ''default workqueue'' else name), wq_queue = new_queue,
      wq_cfg = None, wq_eval = None, wq_max_depth = 0, wq_next_event = 0,
      wq_sentinels = Map.empty\<rparr>"

definition Depth :: "'q client_queue \<Rightarrow> 'q workqueue \<Rightarrow> nat" where
  "Depth ops wq = cq_len ops (wq_queue wq)"

definition MaxDepth :: "'q workqueue \<Rightarrow> int" where
  "MaxDepth wq = sint (wq_max_depth wq)"

definition wq_IsUnlimited :: "'q workqueue \<Rightarrow> bool" where
  "wq_IsUnlimited wq \<longleftrightarrow> MaxDepth wq = 0"

definition DepthReached :: "'q client_queue \<Rightarrow> 'q workqueue \<Rightarrow> bool" where
  "DepthReached ops wq \<longleftrightarrow> int (Depth ops wq) \<ge> MaxDepth wq"

text \<open>\<^verbatim>\<open>maxDepth.Store(int32(n))\<close>.\<close>

definition SetQueueDepth :: "int \<Rightarrow> 'q workqueue \<Rightarrow> 'q workqueue" where
  "SetQueueDepth n wq = wq\<lparr>wq_max_depth := word_of_int n\<rparr>"

definition OnLimitCond :: "'q workqueue \<Rightarrow> bool" where
  "OnLimitCond wq = (case wq_eval wq of None \<Rightarrow> False | Some c \<Rightarrow> be_on_limit c)"

definition OnThresholdCond :: "'q workqueue \<Rightarrow> bool" where
  "OnThresholdCond wq = (case wq_eval wq of None \<Rightarrow> False | Some c \<Rightarrow> be_on_threshold c)"

definition NeedsBehaviourEval :: "'q workqueue \<Rightarrow> bool" where
  "NeedsBehaviourEval wq \<longleftrightarrow> OnLimitCond wq \<or> OnThresholdCond wq"

section \<open>Capacity\<close>

text \<open>
  \<^verbatim>\<open>evaluateQueueBehaviour\<close>: whether the item may be added, and the queue with the flags it
  set; \<open>None\<close> is the nil dereference of \<^verbatim>\<open>evaluateCond\<close>.
\<close>

definition evaluateQueueBehaviour ::
  "'q client_queue \<Rightarrow> 'q workqueue \<Rightarrow> ('q workqueue \<times> bool) option" where
  "evaluateQueueBehaviour ops wq =
     (case wq_cfg wq of
        None \<Rightarrow> Some (wq, True)
      | Some cfg \<Rightarrow>
          (if IsUnlimited cfg then Some (wq, True)
           else if HasOnThreshold cfg then
             (if ThresholdReached cfg (int (Depth ops wq)) then
                (if HasOnThresholdConditions cfg then
                   (case wq_eval wq of
                      None \<Rightarrow> None
                    | Some c \<Rightarrow> Some (wq\<lparr>wq_eval := Some (c\<lparr>be_on_threshold := True\<rparr>)\<rparr>, True))
                 else Some (wq, False))
              else Some (wq, True))
           else if DepthReached ops wq then
             (if HasOnLimitConditions cfg then
                (case wq_eval wq of
                   None \<Rightarrow> None
                 | Some c \<Rightarrow> Some (wq\<lparr>wq_eval := Some (c\<lparr>be_on_limit := True\<rparr>)\<rparr>, True))
              else Some (wq, False))
           else Some (wq, True)))"

definition q_add :: "'q client_queue \<Rightarrow> queue_item \<Rightarrow> 'q workqueue \<Rightarrow> 'q workqueue" where
  "q_add ops item wq = wq\<lparr>wq_queue := cq_add ops item (wq_queue wq)\<rparr>"

definition addWithEval ::
  "'q client_queue \<Rightarrow> queue_item \<Rightarrow> 'q workqueue \<Rightarrow> 'q workqueue option" where
  "addWithEval ops item wq =
     (case evaluateQueueBehaviour ops wq of
        None \<Rightarrow> None
      | Some (wq', False) \<Rightarrow> Some wq'
      | Some (wq', True) \<Rightarrow> Some (q_add ops item wq'))"

section \<open>Enqueueing\<close>

definition normal_item :: "string \<Rightarrow> string \<Rightarrow> queue_item" where
  "normal_item key gvk = \<lparr>qi_key = key, qi_gvk = gvk, qi_event = 0\<rparr>"

text \<open>
  \<open>key_of\<close> is \<^verbatim>\<open>cache.MetaNamespaceKeyFunc\<close> on the object behind a tombstone; its error, like
  an empty key, ends the call.
\<close>

definition resolveKeyFromCache :: "('o \<Rightarrow> string option) \<Rightarrow> 'o \<Rightarrow> string" where
  "resolveKeyFromCache key_of obj = (case key_of obj of None \<Rightarrow> [] | Some k \<Rightarrow> k)"

definition EnqueueWithKey ::
  "'q client_queue \<Rightarrow> string \<Rightarrow> string \<Rightarrow> 'q workqueue \<Rightarrow> 'q workqueue option" where
  "EnqueueWithKey ops key gvk wq = addWithEval ops (normal_item key gvk) wq"

definition Enqueue ::
  "'q client_queue \<Rightarrow> ('o \<Rightarrow> string option) \<Rightarrow> 'o \<Rightarrow> string \<Rightarrow> 'q workqueue \<Rightarrow> 'q workqueue option" where
  "Enqueue ops key_of obj gvk wq =
     (let key = resolveKeyFromCache key_of obj in
      if key = [] then Some wq else addWithEval ops (normal_item key gvk) wq)"

definition cloneSentinels :: "sentinel_map \<Rightarrow> sentinel_map" where
  "cloneSentinels s = (case s of None \<Rightarrow> None | Some m \<Rightarrow> Some (\<lambda>k. m k))"

text \<open>
  \<^verbatim>\<open>nextEventID.Add(1)\<close> happens before the capacity check, whose rejection leaves no payload
  behind.  The result carries the identity the call used.
\<close>

definition enqueueWithSentinels ::
  "'q client_queue \<Rightarrow> string \<Rightarrow> string \<Rightarrow> sentinel_map \<Rightarrow> bool \<Rightarrow> 'q workqueue \<Rightarrow>
   ('q workqueue \<times> queue_item) option" where
  "enqueueWithSentinels ops key gvk sentinels eventAware wq =
     (let wq1 = (if eventAware then wq\<lparr>wq_next_event := wq_next_event wq + 1\<rparr> else wq);
          item = \<lparr>qi_key = key, qi_gvk = gvk,
                  qi_event = (if eventAware then wq_next_event wq1 else 0)\<rparr>
      in case evaluateQueueBehaviour ops wq1 of
           None \<Rightarrow> None
         | Some (wq2, False) \<Rightarrow> Some (wq2, item)
         | Some (wq2, True) \<Rightarrow>
             Some (q_add ops item
                     (wq2\<lparr>wq_sentinels := (wq_sentinels wq2)(item \<mapsto> cloneSentinels sentinels)\<rparr>), item))"

definition EnqueueWithKeySentinels ::
  "'q client_queue \<Rightarrow> string \<Rightarrow> string \<Rightarrow> sentinel_map \<Rightarrow> 'q workqueue \<Rightarrow> 'q workqueue option" where
  "EnqueueWithKeySentinels ops key gvk s wq =
     (if key = [] then Some wq else map_option fst (enqueueWithSentinels ops key gvk s False wq))"

definition EnqueueWithKeyEventSentinels ::
  "'q client_queue \<Rightarrow> string \<Rightarrow> string \<Rightarrow> sentinel_map \<Rightarrow> 'q workqueue \<Rightarrow> 'q workqueue option" where
  "EnqueueWithKeyEventSentinels ops key gvk s wq =
     (if key = [] then Some wq else map_option fst (enqueueWithSentinels ops key gvk s True wq))"

definition EnqueueWithSentinels ::
  "'q client_queue \<Rightarrow> ('o \<Rightarrow> string option) \<Rightarrow> 'o \<Rightarrow> string \<Rightarrow> sentinel_map \<Rightarrow> 'q workqueue \<Rightarrow>
   'q workqueue option" where
  "EnqueueWithSentinels ops key_of obj gvk s wq =
     (let key = resolveKeyFromCache key_of obj in
      if key = [] then Some wq else map_option fst (enqueueWithSentinels ops key gvk s False wq))"

definition EnqueueWithEventSentinels ::
  "'q client_queue \<Rightarrow> ('o \<Rightarrow> string option) \<Rightarrow> 'o \<Rightarrow> string \<Rightarrow> sentinel_map \<Rightarrow> 'q workqueue \<Rightarrow>
   'q workqueue option" where
  "EnqueueWithEventSentinels ops key_of obj gvk s wq =
     (let key = resolveKeyFromCache key_of obj in
      if key = [] then Some wq else map_option fst (enqueueWithSentinels ops key gvk s True wq))"

section \<open>The worker's side\<close>

text \<open>Reading a missing identity of the Go map gives the nil map.\<close>

definition Sentinels :: "'q workqueue \<Rightarrow> queue_item \<Rightarrow> sentinel_map" where
  "Sentinels wq item =
     cloneSentinels (case wq_sentinels wq item of None \<Rightarrow> None | Some s \<Rightarrow> s)"

definition Forget :: "'q client_queue \<Rightarrow> queue_item \<Rightarrow> 'q workqueue \<Rightarrow> 'q workqueue" where
  "Forget ops item wq =
     wq\<lparr>wq_queue := cq_forget ops item (wq_queue wq),
        wq_sentinels := (wq_sentinels wq)(item := None)\<rparr>"

definition Get :: "'q client_queue \<Rightarrow> 'q workqueue \<Rightarrow> (queue_item \<times> 'q workqueue) option" where
  "Get ops wq =
     (case cq_get ops (wq_queue wq) of
        None \<Rightarrow> None | Some (item, q) \<Rightarrow> Some (item, wq\<lparr>wq_queue := q\<rparr>))"

definition Done :: "'q client_queue \<Rightarrow> queue_item \<Rightarrow> 'q workqueue \<Rightarrow> 'q workqueue" where
  "Done ops item wq = wq\<lparr>wq_queue := cq_done ops item (wq_queue wq)\<rparr>"

definition Add :: "'q client_queue \<Rightarrow> queue_item \<Rightarrow> 'q workqueue \<Rightarrow> 'q workqueue" where
  "Add ops item wq = wq\<lparr>wq_queue := cq_add ops item (wq_queue wq)\<rparr>"

definition AddAfter :: "'q client_queue \<Rightarrow> queue_item \<Rightarrow> int \<Rightarrow> 'q workqueue \<Rightarrow> 'q workqueue" where
  "AddAfter ops item d wq = wq\<lparr>wq_queue := cq_add_after ops item d (wq_queue wq)\<rparr>"

definition AddRateLimited :: "'q client_queue \<Rightarrow> queue_item \<Rightarrow> 'q workqueue \<Rightarrow> 'q workqueue" where
  "AddRateLimited ops item wq = wq\<lparr>wq_queue := cq_add_rate_limited ops item (wq_queue wq)\<rparr>"

definition wq_Shutdown :: "'q client_queue \<Rightarrow> 'q workqueue \<Rightarrow> 'q workqueue" where
  "wq_Shutdown ops wq = wq\<lparr>wq_queue := cq_shutdown ops (wq_queue wq)\<rparr>"

section \<open>The registry\<close>

record 'q queue_registry =
  qr_queues :: "string \<Rightarrow> 'q workqueue option"
  qr_cfg :: "string \<Rightarrow> queue_config option"
  qr_started :: bool

definition NewQueueRegistry :: "'q queue_registry" where
  "NewQueueRegistry = \<lparr>qr_queues = Map.empty, qr_cfg = Map.empty, qr_started = False\<rparr>"

definition Register ::
  "'q \<Rightarrow> string \<Rightarrow> queue_config option \<Rightarrow> 'q queue_registry \<Rightarrow> 'q queue_registry \<times> 'q workqueue" where
  "Register new_queue gvk q qr =
     (let wq = NewWorkqueue new_queue gvk in
      case q of
        None \<Rightarrow> (qr\<lparr>qr_queues := (qr_queues qr)(gvk \<mapsto> wq)\<rparr>, wq)
      | Some cfg \<Rightarrow>
          (let wq' = wq\<lparr>wq_cfg := Some cfg, wq_max_depth := word_of_int (qc_max_depth cfg)\<rparr>
           in (qr\<lparr>qr_queues := (qr_queues qr)(gvk \<mapsto> wq'), qr_cfg := (qr_cfg qr)(gvk \<mapsto> cfg)\<rparr>, wq')))"

definition For :: "'q queue_registry \<Rightarrow> string \<Rightarrow> 'q workqueue option" where
  "For qr gvk = qr_queues qr gvk"

definition qr_Depth :: "'q client_queue \<Rightarrow> 'q queue_registry \<Rightarrow> string \<Rightarrow> nat" where
  "qr_Depth ops qr gvk = (case qr_queues qr gvk of None \<Rightarrow> 0 | Some wq \<Rightarrow> Depth ops wq)"

text \<open>
  \<open>None\<close> is the error for an unknown GVK; the queue that was shut down is returned beside the
  registry, since other parts still hold it.
\<close>

definition Drain ::
  "'q client_queue \<Rightarrow> string \<Rightarrow> 'q queue_registry \<Rightarrow> ('q queue_registry \<times> 'q workqueue) option" where
  "Drain ops gvk qr =
     (case qr_queues qr gvk of
        None \<Rightarrow> None
      | Some wq \<Rightarrow> Some (qr\<lparr>qr_queues := (qr_queues qr)(gvk := None)\<rparr>, wq_Shutdown ops wq))"

definition qr_Shutdown :: "'q client_queue \<Rightarrow> 'q queue_registry \<Rightarrow> 'q queue_registry" where
  "qr_Shutdown ops qr = qr\<lparr>qr_queues := (\<lambda>gvk. map_option (wq_Shutdown ops) (qr_queues qr gvk))\<rparr>"

section \<open>What a worker relies on\<close>

text \<open>
  The interface between a queue and its workers: an item can be returned to the queue with a
  back-off (\<open>retry\<close>) or be forgotten, and carries its payload until it is forgotten.
\<close>

locale event_store =
  fixes forget :: "'i \<Rightarrow> 'w \<Rightarrow> 'w"
    and retry :: "'i \<Rightarrow> 'w \<Rightarrow> 'w"
    and payload :: "'w \<Rightarrow> 'i \<Rightarrow> 'p option"
  assumes payload_retry: "payload (retry i w) j = payload w j"
    and payload_forget: "payload (forget i w) j = (if j = i then None else payload w j)"
begin

fun replay :: "(bool \<times> 'i) list \<Rightarrow> 'w \<Rightarrow> 'w" where
  "replay [] w = w"
| "replay ((again, i) # evs) w = replay evs (if again then retry i w else forget i w)"

lemma payload_replay:
  "payload (replay evs w) j = (if (False, j) \<in> set evs then None else payload w j)"
  by (induction evs w rule: replay.induct) (auto simp: payload_retry payload_forget)

lemma payload_survives_retries: "payload (((retry i) ^^ n) w) j = payload w j"
  by (induction n) (auto simp: payload_retry)

end

lemma cloneSentinels_id [simp]: "cloneSentinels s = s"
  by (simp add: cloneSentinels_def split: option.splits)

interpretation wq: event_store "Forget ops" "AddRateLimited ops" Sentinels for ops
  by unfold_locales (auto simp: Sentinels_def Forget_def AddRateLimited_def)

section \<open>Lemmas\<close>

lemma behaviour_frame:
  assumes "evaluateQueueBehaviour ops wq = Some (wq', b)"
  shows "wq_queue wq' = wq_queue wq" "wq_sentinels wq' = wq_sentinels wq"
    "wq_next_event wq' = wq_next_event wq" "wq_cfg wq' = wq_cfg wq"
    "wq_max_depth wq' = wq_max_depth wq" "wq_eval wq = None \<Longrightarrow> wq' = wq"
  using assms
  by (auto simp: evaluateQueueBehaviour_def split: option.splits if_splits)

lemma behaviour_event_irrelevant:
  "evaluateQueueBehaviour ops (wq\<lparr>wq_next_event := n\<rparr>) =
     map_option (\<lambda>(w, b). (w\<lparr>wq_next_event := n\<rparr>, b)) (evaluateQueueBehaviour ops wq)"
  by (auto simp: evaluateQueueBehaviour_def Depth_def DepthReached_def MaxDepth_def split: option.splits)

lemma enqueue_cases:
  "enqueueWithSentinels ops key gvk s ev wq =
     (let n = (if ev then wq_next_event wq + 1 else wq_next_event wq);
          item = \<lparr>qi_key = key, qi_gvk = gvk, qi_event = (if ev then n else 0)\<rparr>
      in case evaluateQueueBehaviour ops wq of
           None \<Rightarrow> None
         | Some (w, False) \<Rightarrow> Some (w\<lparr>wq_next_event := n\<rparr>, item)
         | Some (w, True) \<Rightarrow>
             Some (w\<lparr>wq_next_event := n, wq_sentinels := (wq_sentinels w)(item \<mapsto> s),
                     wq_queue := cq_add ops item (wq_queue w)\<rparr>, item))"
proof -
  have eta: "wq\<lparr>wq_next_event := wq_next_event wq\<rparr> = wq" by simp
  have same: "evaluateQueueBehaviour ops wq = Some (w, b) \<Longrightarrow> w\<lparr>wq_next_event := wq_next_event wq\<rparr> = w" for w b
    using behaviour_frame(3) [of ops wq w b] by simp
  show ?thesis
    by (cases "evaluateQueueBehaviour ops wq")
      (auto simp: enqueueWithSentinels_def behaviour_event_irrelevant q_add_def Let_def same
        split: bool.splits)
qed

fun enqueue_events ::
  "'q client_queue \<Rightarrow> (string \<times> string \<times> sentinel_map) list \<Rightarrow> 'q workqueue \<Rightarrow>
   ('q workqueue \<times> queue_item list) option" where
  "enqueue_events ops [] wq = Some (wq, [])"
| "enqueue_events ops ((key, gvk, s) # calls) wq =
     (case enqueueWithSentinels ops key gvk s True wq of
        None \<Rightarrow> None
      | Some (wq', item) \<Rightarrow>
          (case enqueue_events ops calls wq' of
             None \<Rightarrow> None
           | Some (wq'', items) \<Rightarrow> Some (wq'', item # items)))"

lemma enqueue_event_id:
  assumes "enqueueWithSentinels ops key gvk s True wq = Some (wq', item)"
  shows "qi_event item = wq_next_event wq + 1" "wq_next_event wq' = wq_next_event wq + 1"
  using assms by (auto simp: enqueue_cases Let_def split: option.splits bool.splits)

lemma enqueue_events_ids:
  "enqueue_events ops calls wq = Some (wq', items) \<Longrightarrow>
   map qi_event items = map (\<lambda>i. wq_next_event wq + 1 + of_nat i) [0..<length calls]"
proof (induction ops calls wq arbitrary: wq' items rule: enqueue_events.induct)
  case (2 ops key gvk s calls wq)
  then obtain w1 item items' where e: "enqueueWithSentinels ops key gvk s True wq = Some (w1, item)"
    "enqueue_events ops calls w1 = Some (wq', items')" "items = item # items'"
    by (auto split: option.splits)
  have "map qi_event items' = map (\<lambda>i. wq_next_event w1 + 1 + of_nat i) [0..<length calls]"
    using 2(1) [OF e(1) refl e(2)] by blast
  then show ?case
    using enqueue_event_id [OF e(1)] e(3)
    by (simp add: upt_conv_Cons map_Suc_upt [symmetric] comp_def add.assoc del: upt_Suc)
qed simp

section \<open>Properties\<close>

text \<open>
  C24. Event-aware items get pairwise distinct identities, none of them the identity 0 of
  ordinary items, for the first \<open>2^64 - 1\<close> events of a queue: client-go's deduplication, which
  compares items, never merges two of them.
\<close>
theorem event_identities_unique:
  assumes "enqueue_events ops calls wq = Some (wq', items)"
    and "wq_next_event wq = 0" "length calls < 2 ^ 64"
  shows "distinct (map qi_event items) \<and> list_all (\<lambda>i. qi_event i \<noteq> 0) items \<and> length items = length calls"
proof -
  have ids: "map qi_event items = map (\<lambda>i. 1 + of_nat i) [0..<length calls]"
    using enqueue_events_ids [OF assms(1)] assms(2) by simp
  have val: "unat (1 + of_nat i :: 64 word) = Suc i" if "i < length calls" for i
  proof -
    have "unat (of_nat (Suc i) :: 64 word) = Suc i mod 2 ^ 64" by (simp only: unat_of_nat) simp
    then show ?thesis using that assms(3) by simp
  qed
  have "inj_on (\<lambda>i. 1 + of_nat i :: 64 word) {0..<length calls}"
    by (rule inj_on_inverseI [of _ "\<lambda>w. unat w - 1"]) (simp add: val)
  then have "distinct (map qi_event items)" by (simp add: ids distinct_map)
  moreover have "list_all (\<lambda>i. qi_event i \<noteq> 0) items"
  proof -
    have "0 \<notin> set (map qi_event items)"
      unfolding ids using val by (auto simp del: unat_eq_zero) (metis nat.distinct(1) unat_0)
    then show ?thesis by (auto simp: list_all_iff image_iff)
  qed
  ultimately show ?thesis using arg_cong [OF ids, of length] by simp
qed

text \<open>
  The payload of an accepted item is what the informer passed, stays there through any
  number of rate-limited retries and is released by \<^verbatim>\<open>Forget\<close>, which touches no other item;
  an item the capacity check rejects leaves queue and payloads as they were.
\<close>
lemma sentinel_lifecycle:
  "case (evaluateQueueBehaviour ops wq, enqueueWithSentinels ops key gvk s ev wq) of
     (None, r) \<Rightarrow> r = None
   | (Some (_, False), Some (wq', item)) \<Rightarrow>
       wq_queue wq' = wq_queue wq \<and> wq_sentinels wq' = wq_sentinels wq
   | (Some (_, True), Some (wq', item)) \<Rightarrow>
       qi_key item = key \<and> qi_gvk item = gvk \<and> (ev \<or> qi_event item = 0) \<and>
       Sentinels (((AddRateLimited ops item) ^^ n) wq') item = s \<and>
       Sentinels (Forget ops item wq') item = None \<and>
       (other = item \<or> Sentinels (Forget ops item wq') other = Sentinels wq other)
   | _ \<Rightarrow> False"
proof (cases "evaluateQueueBehaviour ops wq")
  case None
  then show ?thesis by (simp add: enqueue_cases Let_def)
next
  case (Some r)
  obtain w b where r: "r = (w, b)" by (cases r)
  note frame = behaviour_frame [OF Some [unfolded r]]
  show ?thesis
    using frame Some r
    by (cases b)
      (auto simp: enqueue_cases Let_def wq.payload_survives_retries wq.payload_forget, auto simp: Sentinels_def)
qed

section \<open>A client-go queue\<close>

text \<open>
  An instance of the parameter with client-go's documented behaviour, for the witnesses: an
  item waits at most once, and one added again while it is being processed returns to the
  queue when it is done.  Delayed items are added at once.
\<close>

record list_queue =
  lq_queue :: "queue_item list"
  lq_dirty :: "queue_item list"
  lq_processing :: "queue_item list"

definition lq_add :: "queue_item \<Rightarrow> list_queue \<Rightarrow> list_queue" where
  "lq_add i q =
     (if List.member (lq_dirty q) i then q
      else if List.member (lq_processing q) i then q\<lparr>lq_dirty := i # lq_dirty q\<rparr>
      else q\<lparr>lq_dirty := i # lq_dirty q, lq_queue := lq_queue q @ [i]\<rparr>)"

definition lq_get :: "list_queue \<Rightarrow> (queue_item \<times> list_queue) option" where
  "lq_get q =
     (case lq_queue q of
        [] \<Rightarrow> None
      | i # is \<Rightarrow> Some (i, q\<lparr>lq_queue := is, lq_processing := i # lq_processing q,
                              lq_dirty := removeAll i (lq_dirty q)\<rparr>))"

definition lq_done :: "queue_item \<Rightarrow> list_queue \<Rightarrow> list_queue" where
  "lq_done i q =
     (let q' = q\<lparr>lq_processing := removeAll i (lq_processing q)\<rparr> in
      if List.member (lq_dirty q) i then q'\<lparr>lq_queue := lq_queue q' @ [i]\<rparr> else q')"

definition list_queue_ops :: "list_queue client_queue" where
  "list_queue_ops =
     \<lparr>cq_add = lq_add, cq_get = lq_get, cq_done = lq_done, cq_forget = (\<lambda>i q. q),
      cq_add_rate_limited = lq_add, cq_add_after = (\<lambda>i d q. lq_add i q),
      cq_len = (\<lambda>q. length (lq_queue q)), cq_shutdown = (\<lambda>q. q)\<rparr>"

definition empty_lq :: list_queue where
  "empty_lq = \<lparr>lq_queue = [], lq_dirty = [], lq_processing = []\<rparr>"

lemma lq_len_add: "cq_len list_queue_ops (cq_add list_queue_ops i q) \<le> cq_len list_queue_ops q + 1"
  by (simp add: list_queue_ops_def lq_add_def)

definition sample_queue :: "queue_config option \<Rightarrow> list_queue workqueue" where
  "sample_queue cfg = snd (Register empty_lq ''db'' cfg NewQueueRegistry)"

lemma sample_queue_eq:
  "sample_queue cfg =
     \<lparr>wq_name = ''db'', wq_queue = empty_lq, wq_cfg = cfg, wq_eval = None,
      wq_max_depth = (case cfg of None \<Rightarrow> 0 | Some c \<Rightarrow> word_of_int (qc_max_depth c)),
      wq_next_event = 0, wq_sentinels = Map.empty\<rparr>"
  by (simp add: sample_queue_def Register_def NewWorkqueue_def Let_def split: option.splits)

theorem event_identities_unique_witness:
  "case enqueue_events list_queue_ops [(''ns/a'', ''db'', None), (''ns/a'', ''db'', None)] (sample_queue None) of
     None \<Rightarrow> False | Some (_, items) \<Rightarrow> distinct (map qi_event items)"
proof -
  obtain wq' items where
    run: "enqueue_events list_queue_ops [(''ns/a'', ''db'', None), (''ns/a'', ''db'', None)] (sample_queue None) =
      Some (wq', items)"
    by (simp add: sample_queue_eq enqueue_cases evaluateQueueBehaviour_def Let_def)
  have "distinct (map qi_event items) \<and> list_all (\<lambda>i. qi_event i \<noteq> 0) items \<and> length items = Suc (Suc 0)"
    using event_identities_unique [OF run]
    by (simp add: sample_queue_eq)
  with run show ?thesis by simp
qed

section \<open>Capacity properties\<close>

text \<open>One enqueue of the informer, with or without event identity.\<close>

type_synonym enqueue_call = "(string \<times> string) \<times> sentinel_map \<times> bool"

definition enqueue_step :: "'q client_queue \<Rightarrow> 'q workqueue \<Rightarrow> enqueue_call \<Rightarrow> 'q workqueue" where
  "enqueue_step ops wq = (\<lambda>((key, gvk), s, ev).
     case enqueueWithSentinels ops key gvk s ev wq of None \<Rightarrow> wq | Some (wq', _) \<Rightarrow> wq')"

definition add_grows_by_one :: "'q client_queue \<Rightarrow> 'q workqueue \<Rightarrow> enqueue_call \<Rightarrow> bool" where
  "add_grows_by_one ops wq call \<longleftrightarrow>
     (\<forall>i. cq_len ops (cq_add ops i (wq_queue wq)) \<le> cq_len ops (wq_queue wq) + 1)"

definition within_limit :: "'q client_queue \<Rightarrow> queue_config \<Rightarrow> 'q workqueue \<Rightarrow> bool" where
  "within_limit ops cfg wq \<longleftrightarrow>
     wq_cfg wq = Some cfg \<and> \<not> IsUnlimited cfg \<and> \<not> HasOnThreshold cfg \<and> \<not> HasOnLimitConditions cfg \<and>
     int (Depth ops wq) \<le> MaxDepth wq"

lemma within_limit_step:
  assumes "within_limit ops cfg wq" "add_grows_by_one ops wq call"
  shows "within_limit ops cfg (enqueue_step ops wq call)"
proof -
  obtain key gvk s ev where call: "call = ((key, gvk), s, ev)" by (metis surj_pair)
  have len: "cq_len ops (cq_add ops i (wq_queue wq)) \<le> Suc (Depth ops wq)" for i
    using assms(2) by (simp add: add_grows_by_one_def Depth_def)
  have eval: "evaluateQueueBehaviour ops wq = Some (wq, \<not> DepthReached ops wq)"
    using assms(1) by (simp add: within_limit_def evaluateQueueBehaviour_def)
  show ?thesis
  proof (cases "DepthReached ops wq")
    case True
    with eval assms(1) show ?thesis
      by (simp add: enqueue_step_def call enqueue_cases Let_def within_limit_def Depth_def MaxDepth_def)
  next
    case False
    then have "int (Suc (Depth ops wq)) \<le> MaxDepth wq" by (simp add: DepthReached_def)
    moreover have "int (cq_len ops (cq_add ops i (wq_queue wq))) \<le> int (Suc (Depth ops wq))" for i
      using len [of i] by linarith
    ultimately have "int (cq_len ops (cq_add ops i (wq_queue wq))) \<le> MaxDepth wq" for i
      by (meson order_trans)
    with False eval assms(1) show ?thesis
      by (simp add: enqueue_step_def call enqueue_cases Let_def within_limit_def Depth_def MaxDepth_def)
  qed
qed

interpretation bounded: invariant_machine "enqueue_step ops" "add_grows_by_one ops" "within_limit ops cfg"
  for ops cfg
  by unfold_locales (rule within_limit_step)


definition limit_two :: queue_config where
  "limit_two = \<lparr>qc_max_depth = 2, qc_behaviour = None\<rparr>"

lemma sample_within_limit: "within_limit list_queue_ops limit_two (sample_queue (Some limit_two))"
  by (simp add: within_limit_def sample_queue_eq limit_two_def
      IsUnlimited_def HasOnThreshold_def on_threshold_def HasOnLimitConditions_def on_limit_def
      Depth_def MaxDepth_def list_queue_ops_def empty_lq_def)


text \<open>
  The limit set at run time does not take part in whether a queue is limited: setting it to
  0, documented as unlimited, makes a queue that is configured with a limit drop every item,
  and setting any limit on a queue configured without one drops nothing.
\<close>
lemma runtime_limit_is_ignored:
  assumes "wq_cfg wq = Some cfg"
  shows "(IsUnlimited cfg \<or> HasOnThreshold cfg \<or> HasOnLimitConditions cfg \<or>
      evaluateQueueBehaviour ops (SetQueueDepth 0 wq) = Some (SetQueueDepth 0 wq, False))
    \<and> (\<not> IsUnlimited cfg \<or>
      evaluateQueueBehaviour ops (SetQueueDepth n wq) = Some (SetQueueDepth n wq, True))"
  using assms
  by (auto simp: evaluateQueueBehaviour_def SetQueueDepth_def DepthReached_def MaxDepth_def)

text \<open>
  Conditions under \<^verbatim>\<open>onLimit\<close> or \<^verbatim>\<open>onThreshold\<close> are never evaluated: the flags that delegate
  them to the informer sit behind a pointer no operation sets, so no queue ever asks for
  their evaluation, and the first enqueue that reaches the limit dereferences nil.
\<close>
lemma behaviour_conditions_never_run:
  assumes "wq_eval wq = None"
  shows "\<not> NeedsBehaviourEval wq
    \<and> (case enqueueWithSentinels ops key gvk s ev wq of None \<Rightarrow> True | Some (wq', _) \<Rightarrow> wq_eval wq' = None)
    \<and> (case wq_cfg wq of
         None \<Rightarrow> True
       | Some cfg \<Rightarrow>
           IsUnlimited cfg \<or> HasOnThreshold cfg \<or> \<not> HasOnLimitConditions cfg \<or> \<not> DepthReached ops wq \<or>
           enqueueWithSentinels ops key gvk s ev wq = None)"
proof (intro conjI)
  show "\<not> NeedsBehaviourEval wq"
    using assms by (simp add: NeedsBehaviourEval_def OnLimitCond_def OnThresholdCond_def)
  show "case enqueueWithSentinels ops key gvk s ev wq of None \<Rightarrow> True | Some (wq', _) \<Rightarrow> wq_eval wq' = None"
    using assms behaviour_frame(6) [of ops wq]
    by (auto simp: enqueue_cases Let_def split: option.splits bool.splits)
  show "case wq_cfg wq of
         None \<Rightarrow> True
       | Some cfg \<Rightarrow>
           IsUnlimited cfg \<or> HasOnThreshold cfg \<or> \<not> HasOnLimitConditions cfg \<or> \<not> DepthReached ops wq \<or>
           enqueueWithSentinels ops key gvk s ev wq = None"
    using assms by (auto simp: enqueue_cases evaluateQueueBehaviour_def Let_def split: option.splits)
qed

text \<open>
  The threshold is compared after a rounded division: a queue of limit 100 with a threshold
  of 29 percent has not reached it at a depth of 29.
\<close>
lemma threshold_rounds_down:
  "\<not> ThresholdReached
      \<lparr>qc_max_depth = 100, qc_behaviour = Some
        \<lparr>qb_on_limit = None,
         qb_on_threshold = Some \<lparr>bs_drop = None, bs_value = 29, bs_when = [], bs_or = []\<rparr>\<rparr>\<rparr> 29"
  using f_percent_29
  by (simp add: ThresholdReached_def HasOnThreshold_def on_threshold_def ThresholdValue_def)

text \<open>
  A payload can be lost: when a second event of the same object arrives while the first is
  processed, its sentinel values replace the first ones, the worker's \<^verbatim>\<open>Forget\<close> after a
  successful reconcile deletes them, and the item that comes back from the queue has none.
\<close>
lemma coalesced_payload_is_lost:
  "let s1 = Some [''image'' \<mapsto> ''v1'']; s2 = Some [''image'' \<mapsto> ''v2'']; ops = list_queue_ops;
       item = normal_item ''ns/a'' ''db'';
       w1 = enqueue_step ops (sample_queue None) ((''ns/a'', ''db''), s1, False)
   in case Get ops w1 of
        None \<Rightarrow> False
      | Some (i1, w2) \<Rightarrow>
          (let w3 = enqueue_step ops w2 ((''ns/a'', ''db''), s2, False);
               w4 = Done ops i1 (Forget ops i1 w3)
           in i1 = item \<and> Sentinels w3 item = s2 \<and>
              (case Get ops w4 of
                 None \<Rightarrow> False
               | Some (i2, w5) \<Rightarrow> i2 = item \<and> Sentinels w5 item = None))"
  by (simp add: enqueue_step_def enqueue_cases sample_queue_eq
      evaluateQueueBehaviour_def Get_def Done_def Forget_def Sentinels_def normal_item_def
      list_queue_ops_def lq_add_def lq_get_def lq_done_def empty_lq_def Let_def)

end
