(* ===== verification/Semaphore.thy ===== *)
theory Semaphore
  imports GoLib
begin

text \<open>
  The resizable semaphore that gates the workers of a CRD,
  \<^verbatim>\<open>pkg/runtime/autoscaler/autoscale_semaphore.go\<close>, and the system it forms with the worker
  goroutines: who holds a token, who waits, and whose channel holds a token not yet read.
\<close>

section \<open>The semaphore\<close>

text \<open>A waiter's channel is named by a number; \<^verbatim>\<open>cap\<close> and \<^verbatim>\<open>current\<close> are Go ints.\<close>

record semaphore =
  sem_cap :: int
  sem_current :: int
  sem_waiters :: "nat list"

definition NewResizableSemaphore :: "int \<Rightarrow> semaphore" where
  "NewResizableSemaphore capacity =
     \<lparr>sem_cap = (if capacity < 1 then 1 else capacity), sem_current = 0, sem_waiters = []\<rparr>"

text \<open>
  The part of \<^verbatim>\<open>Acquire\<close> under the lock: a token at once (\<open>True\<close>), or the goroutine's channel
  \<open>ch\<close> joins the waiters and it goes on to \<^verbatim>\<open>select\<close>.
\<close>

definition Acquire :: "nat \<Rightarrow> semaphore \<Rightarrow> semaphore \<times> bool" where
  "Acquire ch s =
     (if sem_current s < sem_cap s then (s\<lparr>sem_current := sem_current s + 1\<rparr>, True)
      else (s\<lparr>sem_waiters := sem_waiters s @ [ch]\<rparr>, False))"

text \<open>The \<^verbatim>\<open>ctx.Done()\<close> branch of the \<^verbatim>\<open>select\<close>.\<close>

fun remove_waiter :: "nat \<Rightarrow> nat list \<Rightarrow> nat list" where
  "remove_waiter ch [] = []"
| "remove_waiter ch (w # ws) = (if w = ch then ws else w # remove_waiter ch ws)"

definition CancelAcquire :: "nat \<Rightarrow> semaphore \<Rightarrow> semaphore" where
  "CancelAcquire ch s = s\<lparr>sem_waiters := remove_waiter ch (sem_waiters s)\<rparr>"

text \<open>\<^verbatim>\<open>Release\<close> and the channel it writes a token to, if any.\<close>

definition Release :: "semaphore \<Rightarrow> semaphore \<times> nat list" where
  "Release s =
     (case sem_waiters s of
        ch # ws \<Rightarrow> (s\<lparr>sem_waiters := ws\<rparr>, [ch])
      | [] \<Rightarrow> (s\<lparr>sem_current := sem_current s - 1\<rparr>, []))"

fun wake_loop :: "nat \<Rightarrow> semaphore \<Rightarrow> nat list \<Rightarrow> semaphore \<times> nat list" where
  "wake_loop 0 s woken = (s, woken)"
| "wake_loop (Suc added) s woken =
     (case sem_waiters s of
        [] \<Rightarrow> (s, woken)
      | ch # ws \<Rightarrow>
          wake_loop added (s\<lparr>sem_waiters := ws, sem_current := sem_current s + 1\<rparr>) (woken @ [ch]))"

definition Resize :: "int \<Rightarrow> semaphore \<Rightarrow> semaphore \<times> nat list" where
  "Resize newCap s =
     (let n = (if newCap < 1 then 1 else newCap);
          old = sem_cap s;
          s' = s\<lparr>sem_cap := n\<rparr>
      in if n \<le> old then (s', []) else wake_loop (nat (n - old)) s' [])"

definition Capacity :: "semaphore \<Rightarrow> int" where
  "Capacity s = sem_cap s"

definition InFlight :: "semaphore \<Rightarrow> int" where
  "InFlight s = sem_current s"

definition BusyPercent :: "semaphore \<Rightarrow> rat" where
  "BusyPercent s =
     (if sem_cap s = 0 then 0
      else f_mul (f_div (of_int (sem_current s)) (of_int (sem_cap s))) 100)"

definition IdlePercent :: "semaphore \<Rightarrow> rat" where
  "IdlePercent s =
     (if sem_cap s = 0 then 0
      else (let idle0 = sem_cap s - sem_current s; idle = (if idle0 < 0 then 0 else idle0)
            in f_mul (f_div (of_int idle) (of_int (sem_cap s))) 100))"

section \<open>The system of workers\<close>

text \<open>
  \<open>ss_granted\<close>: goroutines whose channel holds a token they have not read; \<open>ss_holders\<close>:
  goroutines inside a reconcile; \<open>ss_lost\<close>: tokens written to the channel of a goroutine that
  then chose the cancelled context.
\<close>

record sem_system =
  ss_sem :: semaphore
  ss_granted :: "nat list"
  ss_holders :: "nat list"
  ss_lost :: nat

datatype sem_event =
    EvAcquire nat
  | EvReceive nat
  | EvCancel nat
  | EvRelease nat
  | EvResize int

fun sem_step :: "sem_system \<Rightarrow> sem_event \<Rightarrow> sem_system" where
  "sem_step st (EvAcquire w) =
     (case Acquire w (ss_sem st) of
        (s, True) \<Rightarrow> st\<lparr>ss_sem := s, ss_holders := w # ss_holders st\<rparr>
      | (s, False) \<Rightarrow> st\<lparr>ss_sem := s\<rparr>)"
| "sem_step st (EvReceive w) =
     st\<lparr>ss_granted := remove1 w (ss_granted st), ss_holders := w # ss_holders st\<rparr>"
| "sem_step st (EvCancel w) =
     (if List.member (ss_granted st) w
      then st\<lparr>ss_sem := CancelAcquire w (ss_sem st), ss_granted := remove1 w (ss_granted st),
              ss_lost := ss_lost st + 1\<rparr>
      else st\<lparr>ss_sem := CancelAcquire w (ss_sem st)\<rparr>)"
| "sem_step st (EvRelease w) =
     (case Release (ss_sem st) of
        (s, woken) \<Rightarrow> st\<lparr>ss_sem := s, ss_holders := remove1 w (ss_holders st),
                          ss_granted := ss_granted st @ woken\<rparr>)"
| "sem_step st (EvResize n) =
     (case Resize n (ss_sem st) of
        (s, woken) \<Rightarrow> st\<lparr>ss_sem := s, ss_granted := ss_granted st @ woken\<rparr>)"

text \<open>What a goroutine can do: it acquires when it neither holds nor waits.\<close>

fun sem_ok :: "sem_system \<Rightarrow> sem_event \<Rightarrow> bool" where
  "sem_ok st (EvAcquire w) =
     (w \<notin> set (ss_holders st @ ss_granted st @ sem_waiters (ss_sem st)))"
| "sem_ok st (EvReceive w) = (w \<in> set (ss_granted st))"
| "sem_ok st (EvCancel w) = (w \<in> set (ss_granted st @ sem_waiters (ss_sem st)))"
| "sem_ok st (EvRelease w) = (w \<in> set (ss_holders st))"
| "sem_ok st (EvResize n) = True"

definition sem_start :: "int \<Rightarrow> sem_system" where
  "sem_start capacity =
     \<lparr>ss_sem = NewResizableSemaphore capacity, ss_granted = [], ss_holders = [], ss_lost = 0\<rparr>"

text \<open>
  The invariant: every token is held, in a channel or lost; a goroutine is in one place; the
  capacity is positive; and nobody waits while there is room.
\<close>

definition sem_inv :: "sem_system \<Rightarrow> bool" where
  "sem_inv st \<longleftrightarrow>
     sem_current (ss_sem st) = int (length (ss_holders st) + length (ss_granted st) + ss_lost st) \<and>
     distinct (ss_holders st @ ss_granted st @ sem_waiters (ss_sem st)) \<and>
     1 \<le> sem_cap (ss_sem st) \<and>
     (sem_waiters (ss_sem st) = [] \<or> sem_cap (ss_sem st) \<le> sem_current (ss_sem st))"

section \<open>Lemmas\<close>

lemma remove_waiter_remove1 [simp]: "remove_waiter ch ws = remove1 ch ws"
  by (induction ws) auto

lemma wake_loop_result:
  "wake_loop n s woken =
     (s\<lparr>sem_waiters := drop n (sem_waiters s),
        sem_current := sem_current s + int (min n (length (sem_waiters s)))\<rparr>,
      woken @ take n (sem_waiters s))"
proof (induction n s woken rule: wake_loop.induct)
  case (2 n s woken)
  then show ?case by (cases "sem_waiters s") auto
qed simp

lemma Resize_result:
  "Resize newCap s =
     (let n = max 1 newCap; k = nat (n - sem_cap s) in
      (s\<lparr>sem_cap := n, sem_waiters := drop k (sem_waiters s),
         sem_current := sem_current s + int (min k (length (sem_waiters s)))\<rparr>,
       take k (sem_waiters s)))"
  by (auto simp: Resize_def wake_loop_result Let_def max_def)

lemma sem_inv_start: "sem_inv (sem_start c)"
  by (simp add: sem_inv_def sem_start_def NewResizableSemaphore_def)

lemma int_length_remove1: "w \<in> set xs \<Longrightarrow> int (length (remove1 w xs)) = int (length xs) - 1"
  by (induction xs) auto

lemmas token_count = int_length_remove1 distinct_remove1 remove1_idem set_remove1_eq

lemma sem_step_inv:
  assumes inv: "sem_inv st" and ok: "sem_ok st e"
  shows "sem_inv (sem_step st e)"
proof (cases e)
  case (EvAcquire w)
  with assms show ?thesis by (auto simp: sem_inv_def Acquire_def)
next
  case (EvReceive w)
  with assms show ?thesis
    by (auto simp: sem_inv_def token_count)
next
  case (EvCancel w)
  with assms show ?thesis
    by (auto simp: sem_inv_def CancelAcquire_def token_count)
next
  case (EvRelease w)
  with assms show ?thesis
    by (cases "sem_waiters (ss_sem st)") (auto simp: sem_inv_def Release_def token_count)
next
  case (EvResize n)
  let ?w = "sem_waiters (ss_sem st)" and ?k = "nat (max 1 n - sem_cap (ss_sem st))"
  have split: "?w = take ?k ?w @ drop ?k ?w" by simp
  have dist: "distinct (take ?k ?w @ drop ?k ?w)" "set (take ?k ?w) \<subseteq> set ?w" "set (drop ?k ?w) \<subseteq> set ?w"
    using inv by (auto simp: sem_inv_def dest: in_set_takeD in_set_dropD)
  show ?thesis
  proof (cases "length ?w \<le> ?k")
    case True
    with inv EvResize show ?thesis by (auto simp: sem_inv_def Resize_result Let_def)
  next
    case False
    with inv have "sem_cap (ss_sem st) \<le> sem_current (ss_sem st)" by (auto simp: sem_inv_def)
    then have "max 1 n \<le> sem_current (ss_sem st) + int ?k" by (simp add: max_def)
    with False inv EvResize dist show ?thesis
      by (auto simp: sem_inv_def Resize_result Let_def min_def)
  qed
qed

interpretation sem: invariant_machine sem_step sem_ok sem_inv
  by unfold_locales (rule sem_step_inv)

text \<open>While the capacity is not changed, the tokens handed out stay within it.\<close>

fun is_resize :: "sem_event \<Rightarrow> bool" where
  "is_resize (EvResize _) = True"
| "is_resize _ = False"

lemma within_capacity_step:
  assumes "sem_current (ss_sem st) \<le> sem_cap (ss_sem st)" "\<not> is_resize e"
  shows "sem_current (ss_sem (sem_step st e)) \<le> sem_cap (ss_sem (sem_step st e))
    \<and> sem_cap (ss_sem (sem_step st e)) = sem_cap (ss_sem st)"
  using assms
  by (cases e) (auto simp: Acquire_def CancelAcquire_def Release_def split: list.splits)

interpretation fixed_size: invariant_machine sem_step "\<lambda>st e. \<not> is_resize e"
  "\<lambda>st. sem_current (ss_sem st) \<le> sem_cap (ss_sem st) \<and> sem_cap (ss_sem st) = c" for c
  using within_capacity_step by unfold_locales blast

lemma fixed_size_run_ok: "fixed_size.run_ok st evs = list_all (\<lambda>e. \<not> is_resize e) evs"
  by (induction evs arbitrary: st) auto

section \<open>Properties\<close>

text \<open>
  C6. In every run of the workers, whatever order they acquire, give up, release and are
  resized in, each token counted by the semaphore is held by one goroutine, on its way to
  one, or was lost to one whose context ended; no goroutine waits while there is room; and
  without resizing the count never exceeds the capacity.
\<close>
theorem semaphore_accounts_for_tokens:
  assumes "sem.run_ok (sem_start c) evs"
  shows "sem_inv (sem.run (sem_start c) evs)
    \<and> (list_all (\<lambda>e. \<not> is_resize e) evs \<longrightarrow>
        InFlight (ss_sem (sem.run (sem_start c) evs)) \<le> Capacity (ss_sem (sem_start c)))"
proof (intro conjI impI)
  show "sem_inv (sem.run (sem_start c) evs)"
    by (rule sem.inv_run [OF sem_inv_start assms])
  assume "list_all (\<lambda>e. \<not> is_resize e) evs"
  then have "fixed_size.run_ok (sem_start c) evs" by (simp add: fixed_size_run_ok)
  moreover have "sem_current (ss_sem (sem_start c)) \<le> sem_cap (ss_sem (sem_start c))"
    by (simp add: sem_start_def NewResizableSemaphore_def)
  ultimately show "InFlight (ss_sem (sem.run (sem_start c) evs)) \<le> Capacity (ss_sem (sem_start c))"
    using fixed_size.inv_run [of "sem_start c" "sem_cap (ss_sem (sem_start c))" evs]
    by (simp add: InFlight_def Capacity_def)
qed

definition sample_sem_run :: "sem_event list" where
  "sample_sem_run = [EvAcquire 1, EvAcquire 2, EvAcquire 3, EvCancel 3, EvRelease 1, EvAcquire 4]"

theorem semaphore_accounts_for_tokens_witness:
  "InFlight (ss_sem (sem.run (sem_start 2) sample_sem_run)) \<le> 2"
proof -
  have "sem.run_ok (sem_start 2) sample_sem_run"
    by (simp add: sample_sem_run_def sem_start_def NewResizableSemaphore_def Acquire_def
        Release_def CancelAcquire_def)
  moreover have "list_all (\<lambda>e. \<not> is_resize e) sample_sem_run" by (simp add: sample_sem_run_def)
  moreover have "Capacity (ss_sem (sem_start 2)) = 2"
    by (simp add: Capacity_def sem_start_def NewResizableSemaphore_def)
  ultimately show ?thesis using semaphore_accounts_for_tokens [of 2 sample_sem_run] by simp
qed

text \<open>
  Concurrency does not converge to a lowered capacity while goroutines wait: each of the
  next releases hands its token to a waiter, so the count stays what it was, whatever the
  capacity.  A later increase adds to that count: after a scale-down from 4 to 1 and a
  scale-up to 2, five goroutines are inside a reconcile, more than any capacity ever set.
\<close>
lemma scale_down_does_not_converge:
  "sem_current (((fst \<circ> Release) ^^ min n (length (sem_waiters s))) s) = sem_current s
   \<and> (let s4 = fst (Resize 2 (fst (Resize 1
                 (foldl (\<lambda>s ch. fst (Acquire ch s)) (NewResizableSemaphore 4) [1..<8]))))
      in InFlight s4 = 5 \<and> Capacity s4 = 2)"
proof
  have rel: "n \<le> length (sem_waiters s) \<Longrightarrow>
      sem_current (((fst \<circ> Release) ^^ n) s) = sem_current s \<and>
      sem_waiters (((fst \<circ> Release) ^^ n) s) = drop n (sem_waiters s)" for n and s :: semaphore
  proof (induction n)
    case (Suc n)
    then obtain ch ws where ws: "drop n (sem_waiters s) = ch # ws" by (cases "drop n (sem_waiters s)") auto
    then have "drop (Suc n) (sem_waiters s) = ws" by (metis drop_Suc list.sel(3) tl_drop)
    with Suc ws show ?case by (simp add: Release_def)
  qed simp
  show "sem_current (((fst \<circ> Release) ^^ min n (length (sem_waiters s))) s) = sem_current s"
    using rel [of "min n (length (sem_waiters s))" s] by simp
  show "let s4 = fst (Resize 2 (fst (Resize 1
                 (foldl (\<lambda>s ch. fst (Acquire ch s)) (NewResizableSemaphore 4) [1..<8]))))
      in InFlight s4 = 5 \<and> Capacity s4 = 2"
    by (simp add: NewResizableSemaphore_def Acquire_def Resize_result InFlight_def Capacity_def
        upt_conv_Cons Let_def)
qed

end
