(* ===== verification/Autoscaler.thy ===== *)
theory Autoscaler
  imports Conditions Semaphore WorkQueue "HOL-Library.Multiset"
begin

text \<open>
  The autoscaler of a CRD: the evaluation loop and its data in
  \<^verbatim>\<open>pkg/runtime/autoscaler/autoscaler.go\<close>, the cron windows and settings of
  \<^verbatim>\<open>pkg/types/autoscale.go\<close>, the metrics of \<^verbatim>\<open>autoscale_metrics.go\<close>, and the runtime it acts
  on, \<^verbatim>\<open>coordinatorTarget\<close> of \<^verbatim>\<open>pkg/runtime/coordinator/crd_runtime.go\<close>.  Durations and times are
  nanoseconds; one tick reads the clock once.
\<close>

section \<open>Cross-CRD field references\<close>

text \<open>\<^verbatim>\<open>strings.Cut\<close>: the parts around the first occurrence of a separator.\<close>

fun str_cut :: "string \<Rightarrow> string \<Rightarrow> (string \<times> string) option" where
  "str_cut sep [] = (if sep = [] then Some ([], []) else None)"
| "str_cut sep (c # s) =
     (if str_has_prefix (c # s) sep then Some ([], drop (length sep) (c # s))
      else map_option (\<lambda>(a, b). (c # a, b)) (str_cut sep s))"

definition cross_prefix :: string where
  "cross_prefix = ''cross.''"

definition trim_cross :: "string \<Rightarrow> string" where
  "trim_cross field =
     (if str_has_prefix field cross_prefix then drop (length cross_prefix) field else field)"

definition ExtractCrossCRD :: "string \<Rightarrow> string" where
  "ExtractCrossCRD field =
     (if \<not> str_has_prefix field cross_prefix then []
      else case str_cut ''.'' (trim_cross field) of None \<Rightarrow> [] | Some (a, b) \<Rightarrow> a)"

definition ExtractCrossSuffix :: "string \<Rightarrow> string" where
  "ExtractCrossSuffix field =
     (if \<not> str_has_prefix field cross_prefix then []
      else case str_cut ''.'' (trim_cross field) of None \<Rightarrow> [] | Some (a, b) \<Rightarrow> b)"

definition ExtractCrossCategory :: "string \<Rightarrow> string" where
  "ExtractCrossCategory field =
     (case str_cut ''.'' (ExtractCrossSuffix field) of None \<Rightarrow> [] | Some (a, b) \<Rightarrow> a)"

definition ExtractCrossFieldName :: "string \<Rightarrow> string" where
  "ExtractCrossFieldName field =
     (case str_cut ''.'' (ExtractCrossSuffix field) of None \<Rightarrow> [] | Some (a, b) \<Rightarrow> b)"

definition ExtractCrossNamespace :: "string \<Rightarrow> string" where
  "ExtractCrossNamespace field =
     (let category = ExtractCrossCategory field in
      if category \<noteq> ''info'' \<and> category \<noteq> ''events'' then []
      else (let parts = split_char (CHR ''.'') (ExtractCrossSuffix field)
            in if length parts < 3 then [] else parts ! 1))"

record cross_field =
  cf_crd :: string
  cf_category :: string
  cf_namespace :: string
  cf_field :: string

definition ParseCrossField :: "string \<Rightarrow> cross_field option" where
  "ParseCrossField field =
     (if \<not> str_has_prefix field cross_prefix then None
      else if ExtractCrossCRD field = [] then None
      else if ExtractCrossCategory field = [] then None
      else Some \<lparr>cf_crd = ExtractCrossCRD field, cf_category = ExtractCrossCategory field,
                 cf_namespace = ExtractCrossNamespace field, cf_field = ExtractCrossFieldName field\<rparr>)"

definition IsCrossMetricField :: "string \<Rightarrow> bool" where
  "IsCrossMetricField field \<longleftrightarrow>
     str_has_prefix field cross_prefix \<and> str_contains field ''.metrics.''"

section \<open>Settings\<close>

record autoscale_action =
  aa_workers :: "int option"
  aa_queue_depth :: "int option"
  aa_resync :: "int option"

record autoscale_spec =
  as_interval :: int
  as_cooldown :: int
  as_or :: "condition list"
  as_when :: "condition list"
  as_do :: autoscale_action

record autoscale_baseline =
  ab_workers :: int
  ab_max_depth :: int
  ab_resync :: int

record autoscale_state =
  ax_override_active :: bool
  ax_conditions_false_at :: "int option"  \<comment> \<open>\<open>None\<close> is the zero time\<close>
  ax_windows :: "string \<Rightarrow> int option"

definition second :: int where "second = 1000000000"

definition EffectiveInterval :: "autoscale_spec \<Rightarrow> int" where
  "EffectiveInterval a = (if as_interval a = 0 then 15 * second else as_interval a)"

definition EffectiveCooldown :: "autoscale_spec \<Rightarrow> int" where
  "EffectiveCooldown a = (if as_cooldown a = 0 then 120 * second else as_cooldown a)"

section \<open>Cron windows\<close>

text \<open>The window state and whether the window is open; \<open>ge_cron\<close> is the cron parser.\<close>

definition TickCronWindow ::
  "goenv \<Rightarrow> (string \<Rightarrow> int option) \<Rightarrow> string \<Rightarrow> int \<Rightarrow> int \<Rightarrow> int \<Rightarrow> (string \<Rightarrow> int option) \<times> bool" where
  "TickCronWindow E windows cronExpr duration0 interval now =
     (let duration1 = (if duration0 = 0 then interval else duration0);
          duration = (if duration1 = 0 then 60 * second else duration1)
      in case ge_cron E cronExpr of
           None \<Rightarrow> (windows, False)
         | Some next_fire \<Rightarrow>
             (let still_open = (case windows cronExpr of None \<Rightarrow> False | Some opened \<Rightarrow> now < opened + duration)
              in if still_open then (windows, True)
                 else
                   (let windows' = windows(cronExpr := None);
                        prev = next_fire (now - interval)
                    in if \<not> prev > now then (windows'(cronExpr \<mapsto> prev), True)
                       else (windows', False))))"

section \<open>Metrics\<close>

record rolling_p95 =
  rp_buf :: "int list"
  rp_pos :: nat
  rp_full :: bool

definition newRollingP95 :: "nat \<Rightarrow> rolling_p95" where
  "newRollingP95 n = \<lparr>rp_buf = replicate n 0, rp_pos = 0, rp_full = False\<rparr>"

definition p95_record :: "int \<Rightarrow> rolling_p95 \<Rightarrow> rolling_p95" where
  "p95_record v r =
     (let pos = (rp_pos r + 1) mod length (rp_buf r)
      in r\<lparr>rp_buf := (rp_buf r)[rp_pos r := v], rp_pos := pos,
           rp_full := (if pos = 0 then True else rp_full r)\<rparr>)"

text \<open>\<^verbatim>\<open>sortInt64\<close>: the inner loop moves larger elements up; \<open>k\<close> is \<^verbatim>\<open>j+1\<close>.\<close>

fun shift_loop :: "int list \<Rightarrow> nat \<Rightarrow> int \<Rightarrow> int list" where
  "shift_loop a 0 key = a[0 := key]"
| "shift_loop a (Suc k) key =
     (if a ! k > key then shift_loop (a[Suc k := a ! k]) k key else a[Suc k := key])"

definition sortInt64 :: "int list \<Rightarrow> int list" where
  "sortInt64 a = foldl (\<lambda>a i. shift_loop a i (a ! i)) a [1..<length a]"

definition p95 :: "rolling_p95 \<Rightarrow> int" where
  "p95 r =
     (let n = (if rp_full r then length (rp_buf r) else rp_pos r) in
      if n = 0 then 0
      else (let tmp = sortInt64 (take n (rp_buf r));
                idx0 = \<lceil>f_mul (of_nat n) (round_f64 (95 / 100))\<rceil> - 1;
                idx = (if idx0 < 0 then 0 else idx0)
            in tmp ! nat idx))"

definition p95Milliseconds :: "rolling_p95 \<Rightarrow> rat" where
  "p95Milliseconds r =
     (let ns = p95 r in if ns = 0 then 0 else f_div (round_f64 (of_int ns)) 1000000)"

record auto_metrics =
  am_total :: int
  am_errors :: int
  am_queue_depth :: int
  am_p95 :: rolling_p95

definition RecordReconcile :: "int \<Rightarrow> bool \<Rightarrow> auto_metrics \<Rightarrow> auto_metrics" where
  "RecordReconcile duration failed m =
     m\<lparr>am_total := am_total m + 1,
       am_errors := (if failed then am_errors m + 1 else am_errors m),
       am_p95 := p95_record duration (am_p95 m)\<rparr>"

definition am_SetQueueDepth :: "int \<Rightarrow> auto_metrics \<Rightarrow> auto_metrics" where
  "am_SetQueueDepth depth m = m\<lparr>am_queue_depth := depth\<rparr>"

definition ErrorRatePercent :: "auto_metrics \<Rightarrow> rat" where
  "ErrorRatePercent m =
     (if am_total m = 0 then 0
      else f_mul (f_div (of_int (am_errors m)) (of_int (am_total m))) 100)"

definition AsMap :: "semaphore \<Rightarrow> auto_metrics \<Rightarrow> gmap" where
  "AsMap s m =
     [''queueDepth'' \<mapsto> VInt KInt64 (am_queue_depth m),
      ''workers'' \<mapsto> VInt KInt (Capacity s),
      ''workersBusyPercent'' \<mapsto> VFloat KF64 (FFin (BusyPercent s)),
      ''workersIdlePercent'' \<mapsto> VFloat KF64 (FFin (IdlePercent s)),
      ''reconcileDurationP95Ms'' \<mapsto> VFloat KF64 (FFin (p95Milliseconds (am_p95 m))),
      ''errorRatePercent'' \<mapsto> VFloat KF64 (FFin (ErrorRatePercent m))]"

section \<open>The condition data of a tick\<close>

definition sub_map :: "gmap \<Rightarrow> string \<Rightarrow> gmap" where
  "sub_map m k = (case m k of Some (VMap n) \<Rightarrow> n | _ \<Rightarrow> Map.empty)"

definition injectCronWindowValue :: "gmap \<Rightarrow> string \<Rightarrow> bool \<Rightarrow> gmap" where
  "injectCronWindowValue data cronExpr opened =
     data(''_cronWindows'' \<mapsto>
       VMap ((sub_map data ''_cronWindows'')(cronExpr \<mapsto> VStr (if opened then ''true'' else ''false''))))"

definition injectCrossMetricValue :: "gmap \<Rightarrow> string \<Rightarrow> string \<Rightarrow> gmap" where
  "injectCrossMetricValue data field val =
     (case str_cut ''.metrics.'' (trim_cross field) of
        None \<Rightarrow> data
      | Some (crd, metric) \<Rightarrow>
          (let cross = sub_map data ''cross'';
               crdMap = sub_map cross crd;
               metricsMap = sub_map crdMap ''metrics''
           in data(''cross'' \<mapsto> VMap (cross(crd \<mapsto> VMap (crdMap(''metrics'' \<mapsto>
                VMap (metricsMap(metric \<mapsto> VStr val)))))))))"

record cross_decl =
  cd_crd :: string
  cd_as :: string
  cd_source :: "cross_source option"

fun crossSourceFor_loop :: "cross_decl list \<Rightarrow> cross_field \<Rightarrow> cross_source option" where
  "crossSourceFor_loop [] cf = None"
| "crossSourceFor_loop (decl # decls) cf =
     (case cd_source decl of
        None \<Rightarrow> crossSourceFor_loop decls cf
      | Some src \<Rightarrow>
          (let crdMatch = equal_fold (cd_crd decl) (cf_crd cf);
               aliasMatch = (cd_as decl \<noteq> [] \<and> equal_fold (cd_as decl) (cf_crd cf))
           in if \<not> crdMatch \<and> \<not> aliasMatch then crossSourceFor_loop decls cf
              else if cs_endpoint src \<noteq> [] \<or> cs_protocol src = ''metrics'' then Some src
              else crossSourceFor_loop decls cf))"

definition crossSourceFor :: "cross_decl list \<Rightarrow> string \<Rightarrow> cross_source option" where
  "crossSourceFor decls field =
     (case ParseCrossField field of None \<Rightarrow> None | Some cf \<Rightarrow> crossSourceFor_loop decls cf)"

section \<open>The autoscaler and the runtime it controls\<close>

text \<open>
  The runtime of a CRD: its semaphore, how many worker goroutines have been started, the
  limit of its queue and the resync interval (0: the extra resync loop idles).
\<close>

record 'q crd_runtime =
  rt_sem :: semaphore
  rt_goroutines :: int
  rt_wq :: "'q workqueue option"
  rt_resync :: int

definition ResizeWorkers :: "int \<Rightarrow> 'q crd_runtime \<Rightarrow> 'q crd_runtime" where
  "ResizeWorkers n rt =
     (let old = Capacity (rt_sem rt);
          rt' = rt\<lparr>rt_sem := fst (Resize n (rt_sem rt))\<rparr>
      in if n > old then rt'\<lparr>rt_goroutines := rt_goroutines rt' + (n - old)\<rparr> else rt')"

definition SetQueueDepthLimit :: "int \<Rightarrow> 'q crd_runtime \<Rightarrow> 'q crd_runtime" where
  "SetQueueDepthLimit n rt = rt\<lparr>rt_wq := map_option (SetQueueDepth n) (rt_wq rt)\<rparr>"

definition SetResyncInterval :: "int \<Rightarrow> 'q crd_runtime \<Rightarrow> 'q crd_runtime" where
  "SetResyncInterval d rt = rt\<lparr>rt_resync := d\<rparr>"

text \<open>
  \<open>sc_resolve\<close> is \<^verbatim>\<open>ResolveCrossMetric\<close> with its registry and HTTP fallback: the metric's text,
  empty when it cannot be had.
\<close>

record autoscaler =
  sc_spec :: autoscale_spec
  sc_baseline :: autoscale_baseline
  sc_decls :: "cross_decl list"
  sc_resolve :: "string \<Rightarrow> cross_source option \<Rightarrow> string"

definition inject_condition ::
  "goenv \<Rightarrow> autoscaler \<Rightarrow> int \<Rightarrow> condition \<Rightarrow> gmap \<times> (string \<Rightarrow> int option) \<Rightarrow> gmap \<times> (string \<Rightarrow> int option)" where
  "inject_condition E sc now c = (\<lambda>(data, windows).
     let data1 =
           (if IsCrossMetricField (c_field c) then
              (let src = (case c_source c of
                            None \<Rightarrow> crossSourceFor (sc_decls sc) (c_field c)
                          | Some s \<Rightarrow> Some s);
                   val = sc_resolve sc (c_field c) src
               in if val \<noteq> [] then injectCrossMetricValue data (c_field c) val else data)
            else data)
     in if c_cron c \<noteq> [] then
          (case TickCronWindow E windows (c_cron c) (c_duration c) (EffectiveInterval (sc_spec sc)) now of
             (windows', opened) \<Rightarrow> (injectCronWindowValue data1 (c_cron c) opened, windows'))
        else (data1, windows))"

definition buildConditionData ::
  "goenv \<Rightarrow> autoscaler \<Rightarrow> auto_metrics \<Rightarrow> semaphore \<Rightarrow> int \<Rightarrow> (string \<Rightarrow> int option) \<Rightarrow>
   gmap \<times> (string \<Rightarrow> int option)" where
  "buildConditionData E sc m s now windows =
     fold (inject_condition E sc now) (as_or (sc_spec sc) @ as_when (sc_spec sc))
       ([''metrics'' \<mapsto> VMap (AsMap s m)], windows)"

definition conditionsMet ::
  "goenv \<Rightarrow> autoscaler \<Rightarrow> auto_metrics \<Rightarrow> semaphore \<Rightarrow> gotime \<Rightarrow> (string \<Rightarrow> int option) \<Rightarrow>
   bool \<times> (string \<Rightarrow> int option)" where
  "conditionsMet E sc m s now windows =
     (case buildConditionData E sc m s (now_ns now) windows of
        (data, windows') \<Rightarrow>
          (EvaluateConditions E now data (as_when (sc_spec sc)) (as_or (sc_spec sc)) None, windows'))"

definition when_declared :: "('v \<Rightarrow> 'r \<Rightarrow> 'r) \<Rightarrow> 'v option \<Rightarrow> 'r \<Rightarrow> 'r" where
  "when_declared f v rt = (case v of None \<Rightarrow> rt | Some x \<Rightarrow> f x rt)"

definition applyOverride ::
  "autoscaler \<Rightarrow> autoscale_state \<times> 'q crd_runtime \<Rightarrow> autoscale_state \<times> 'q crd_runtime" where
  "applyOverride sc = (\<lambda>(st, rt).
     (st\<lparr>ax_override_active := True\<rparr>,
      when_declared SetResyncInterval (aa_resync (as_do (sc_spec sc)))
        (when_declared SetQueueDepthLimit (aa_queue_depth (as_do (sc_spec sc)))
          (when_declared ResizeWorkers (aa_workers (as_do (sc_spec sc))) rt))))"

definition restoreBaseline ::
  "autoscaler \<Rightarrow> autoscale_state \<times> 'q crd_runtime \<Rightarrow> autoscale_state \<times> 'q crd_runtime" where
  "restoreBaseline sc = (\<lambda>(st, rt).
     (st\<lparr>ax_override_active := False\<rparr>,
      SetResyncInterval 0
        (SetQueueDepthLimit (ab_max_depth (sc_baseline sc))
          (ResizeWorkers (ab_workers (sc_baseline sc)) rt))))"

text \<open>The tail of \<^verbatim>\<open>evaluate\<close>, once it is known whether the conditions are met.\<close>

definition evaluate_met ::
  "autoscaler \<Rightarrow> int \<Rightarrow> bool \<Rightarrow> autoscale_state \<times> 'q crd_runtime \<Rightarrow> autoscale_state \<times> 'q crd_runtime" where
  "evaluate_met sc now met = (\<lambda>(st, rt).
     if met then
       (case (if \<not> ax_override_active st then applyOverride sc (st, rt) else (st, rt)) of
          (st1, rt1) \<Rightarrow> (st1\<lparr>ax_conditions_false_at := None\<rparr>, rt1))
     else if \<not> ax_override_active st then (st, rt)
     else
       (let since = (case ax_conditions_false_at st of None \<Rightarrow> now | Some t \<Rightarrow> t);
            st1 = st\<lparr>ax_conditions_false_at := Some since\<rparr>
        in if now - since \<ge> EffectiveCooldown (sc_spec sc) then
             (case restoreBaseline sc (st1, rt) of
                (st2, rt2) \<Rightarrow> (st2\<lparr>ax_conditions_false_at := None\<rparr>, rt2))
           else (st1, rt)))"

definition evaluate ::
  "goenv \<Rightarrow> autoscaler \<Rightarrow> auto_metrics \<Rightarrow> gotime \<Rightarrow>
   autoscale_state \<times> 'q crd_runtime \<Rightarrow> autoscale_state \<times> 'q crd_runtime" where
  "evaluate E sc m now = (\<lambda>(st, rt).
     case conditionsMet E sc m (rt_sem rt) now (ax_windows st) of
       (met, windows') \<Rightarrow> evaluate_met sc (now_ns now) met (st\<lparr>ax_windows := windows'\<rparr>, rt))"

text \<open>The cancelled context in \<^verbatim>\<open>Run\<close>.\<close>

definition stop_autoscaler ::
  "autoscaler \<Rightarrow> autoscale_state \<times> 'q crd_runtime \<Rightarrow> autoscale_state \<times> 'q crd_runtime" where
  "stop_autoscaler sc = (\<lambda>(st, rt).
     if ax_override_active st then restoreBaseline sc (st, rt) else (st, rt))"

definition NewAutoscaler_state :: autoscale_state where
  "NewAutoscaler_state =
     \<lparr>ax_override_active = False, ax_conditions_false_at = None, ax_windows = Map.empty\<rparr>"

section \<open>Lemmas\<close>

lemma shift_loop_insort:
  "sorted xs \<Longrightarrow> shift_loop (xs @ y # zs) (length xs) key = insort key xs @ zs"
proof (induction xs arbitrary: y zs rule: rev_induct)
  case (snoc x xs)
  then have xs: "sorted xs" "\<forall>z \<in> set xs. z \<le> x" by (auto simp: sorted_append)
  show ?case
  proof (cases "x > key")
    case True
    have "shift_loop ((xs @ [x]) @ y # zs) (length (xs @ [x])) key =
        shift_loop (xs @ x # (x # zs)) (length xs) key"
      using True by (simp add: nth_append list_update_append)
    also have "\<dots> = insort key xs @ x # zs" using snoc.IH [OF xs(1)] by simp
    also have "\<dots> = insort key (xs @ [x]) @ zs"
    proof -
      have "insort key (xs @ [x]) = insort key xs @ [x]"
        using True by (induction xs) auto
      then show ?thesis by simp
    qed
    finally show ?thesis .
  next
    case False
    then have "\<forall>z \<in> set (xs @ [x]). z \<le> key" using xs(2) by fastforce
    then have "insort key (xs @ [x]) = (xs @ [x]) @ [key]"
      using snoc.prems by (intro sorted_insort_is_snoc) auto
    with False show ?thesis by (simp add: nth_append list_update_append)
  qed
qed simp

lemma sortInt64_prefix:
  "k \<le> length a \<Longrightarrow> 1 \<le> k \<Longrightarrow>
   foldl (\<lambda>b i. shift_loop b i (b ! i)) a [1..<k] = sort (take k a) @ drop k a"
proof (induction k)
  case (Suc k)
  show ?case
  proof (cases "k = 0")
    case True
    with Suc.prems show ?thesis by (cases a) auto
  next
    case False
    then have IH: "foldl (\<lambda>b i. shift_loop b i (b ! i)) a [1..<k] = sort (take k a) @ drop k a"
      using Suc by simp
    have split: "drop k a = a ! k # drop (Suc k) a" using Suc.prems by (simp add: Cons_nth_drop_Suc)
    have "foldl (\<lambda>b i. shift_loop b i (b ! i)) a [1..<Suc k] =
       shift_loop (sort (take k a) @ a ! k # drop (Suc k) a) (length (sort (take k a))) (a ! k)"
      using IH False Suc.prems by (simp add: split nth_append)
    also have "\<dots> = insort (a ! k) (sort (take k a)) @ drop (Suc k) a"
      by (rule shift_loop_insort) simp
    also have "insort (a ! k) (sort (take k a)) = sort (take (Suc k) a)"
      using Suc.prems by (intro properties_for_sort [symmetric])
        (auto simp: take_Suc_conv_app_nth sorted_insort)
    finally show ?thesis .
  qed
qed simp

lemma sortInt64_eq: "sortInt64 a = sort a"
proof (cases a)
  case Nil
  then show ?thesis by (simp add: sortInt64_def)
next
  case (Cons x xs)
  then show ?thesis using sortInt64_prefix [of "length a" a] by (simp add: sortInt64_def)
qed

lemma str_cut_fresh:
  "sep \<noteq> [] \<Longrightarrow> hd sep \<notin> set a \<Longrightarrow> str_cut sep (a @ sep @ b) = Some (a, b)"
proof (induction a)
  case Nil
  then show ?case by (cases sep) (auto simp: str_has_prefix_def)
next
  case (Cons c a)
  then show ?case by (cases sep) (auto simp: str_has_prefix_def)
qed

text \<open>Runs of the control loop over the ticks' outcomes.\<close>

definition run_ticks ::
  "autoscaler \<Rightarrow> (int \<times> bool) list \<Rightarrow> autoscale_state \<times> 'q crd_runtime \<Rightarrow> autoscale_state \<times> 'q crd_runtime" where
  "run_ticks sc ticks s = foldl (\<lambda>s (now, met). evaluate_met sc now met s) s ticks"

text \<open>
  \<open>false_since ticks t\<close>: the conditions have been false at every tick since the one at \<open>t\<close>.
\<close>

definition false_since :: "(int \<times> bool) list \<Rightarrow> int \<Rightarrow> bool" where
  "false_since ticks t \<longleftrightarrow>
     (\<exists>pre rest. ticks = pre @ (t, False) # rest \<and> list_all (\<lambda>(_, m). \<not> m) rest)"

lemma false_since_snoc: "false_since ticks t \<Longrightarrow> false_since (ticks @ [(now, False)]) t"
  by (fastforce simp: false_since_def)

lemma false_since_now: "false_since (ticks @ [(now, False)]) now"
  unfolding false_since_def by (intro exI [of _ ticks] exI [of _ "[]"]) simp

definition clock_ok :: "(int \<times> bool) list \<Rightarrow> autoscale_state \<Rightarrow> bool" where
  "clock_ok ticks st \<longleftrightarrow>
     (case ax_conditions_false_at st of
        None \<Rightarrow> True
      | Some t \<Rightarrow> ax_override_active st \<and> false_since ticks t)"

lemma evaluate_met_clock:
  assumes "clock_ok ticks (fst s)"
  shows "clock_ok (ticks @ [(now, met)]) (fst (evaluate_met sc now met s))"
  using assms
  by (cases s; cases met)
    (auto simp: clock_ok_def evaluate_met_def applyOverride_def restoreBaseline_def Let_def
      false_since_snoc false_since_now split: option.splits)

lemma run_ticks_snoc: "run_ticks sc (ticks @ [(now, met)]) s = evaluate_met sc now met (run_ticks sc ticks s)"
  by (simp add: run_ticks_def)

lemma run_ticks_clock: "clock_ok [] (fst s) \<Longrightarrow> clock_ok ticks (fst (run_ticks sc ticks s))"
proof (induction ticks rule: rev_induct)
  case Nil
  then show ?case by (simp add: run_ticks_def)
next
  case (snoc x ticks)
  obtain now met where "x = (now, met)" by (cases x)
  with snoc show ?case by (simp add: run_ticks_snoc evaluate_met_clock)
qed

lemma Resize_capacity: "Capacity (fst (Resize n s)) = max 1 n"
  by (simp add: Capacity_def Resize_result Let_def)

lemmas runtime_ops = ResizeWorkers_def SetQueueDepthLimit_def SetResyncInterval_def when_declared_def
  Resize_capacity

lemma ResizeWorkers_effect:
  "Capacity (rt_sem (ResizeWorkers n rt)) = max 1 n"
  "rt_goroutines (ResizeWorkers n rt) = rt_goroutines rt + max 0 (n - Capacity (rt_sem rt))"
  by (simp_all add: ResizeWorkers_def Resize_capacity Let_def)

lemma settings_frame:
  "rt_sem (when_declared SetQueueDepthLimit q rt) = rt_sem rt"
  "rt_goroutines (when_declared SetQueueDepthLimit q rt) = rt_goroutines rt"
  "rt_sem (when_declared SetResyncInterval d rt) = rt_sem rt"
  "rt_goroutines (when_declared SetResyncInterval d rt) = rt_goroutines rt"
  "rt_sem (SetQueueDepthLimit m rt) = rt_sem rt"
  "rt_goroutines (SetQueueDepthLimit m rt) = rt_goroutines rt"
  "rt_sem (SetResyncInterval i rt) = rt_sem rt"
  "rt_goroutines (SetResyncInterval i rt) = rt_goroutines rt"
  by (simp_all add: when_declared_def SetQueueDepthLimit_def SetResyncInterval_def split: option.splits)

lemma when_declared_Some: "when_declared f (Some v) rt = f v rt"
  by (simp add: when_declared_def)

lemma override_cycle:
  assumes "aa_workers (as_do (sc_spec sc)) = Some w"
  shows "Capacity (rt_sem (snd (restoreBaseline sc (applyOverride sc (st, rt))))) =
      max 1 (ab_workers (sc_baseline sc))"
    and "rt_goroutines (snd (restoreBaseline sc (applyOverride sc (st, rt)))) =
      rt_goroutines rt + max 0 (w - Capacity (rt_sem rt)) + max 0 (ab_workers (sc_baseline sc) - max 1 w)"
  unfolding restoreBaseline_def applyOverride_def assms
  by (simp_all add: settings_frame ResizeWorkers_effect when_declared_Some)

section \<open>Properties\<close>

text \<open>
  C7. An override is only taken back after the conditions have been false at every tick of a
  whole cooldown: from a fresh autoscaler, a tick that deactivates the override ends a run
  of ticks with false conditions that began at least the effective cooldown earlier, and it
  puts back the baseline capacity, queue limit and resync.
\<close>
theorem restore_waits_for_cooldown:
  assumes "ax_override_active (fst (run_ticks sc ticks (NewAutoscaler_state, rt)))"
    and "\<not> ax_override_active (fst (run_ticks sc (ticks @ [(now, met)]) (NewAutoscaler_state, rt)))"
  shows "(\<exists>since. false_since (ticks @ [(now, met)]) since \<and>
        EffectiveCooldown (sc_spec sc) \<le> now - since)
    \<and> (let rt' = snd (run_ticks sc (ticks @ [(now, met)]) (NewAutoscaler_state, rt)) in
        Capacity (rt_sem rt') = max 1 (ab_workers (sc_baseline sc)) \<and> rt_resync rt' = 0 \<and>
        (case rt_wq rt' of None \<Rightarrow> True
         | Some wq \<Rightarrow> wq_max_depth wq = word_of_int (ab_max_depth (sc_baseline sc))))"
proof -
  obtain st r where s: "run_ticks sc ticks (NewAutoscaler_state, rt) = (st, r)" by (metis surj_pair)
  have "clock_ok ticks st"
  proof -
    have "clock_ok [] (fst (NewAutoscaler_state, rt))"
      by (simp add: clock_ok_def NewAutoscaler_state_def)
    then have "clock_ok ticks (fst (run_ticks sc ticks (NewAutoscaler_state, rt)))"
      by (rule run_ticks_clock)
    then show ?thesis by (simp add: s)
  qed
  then have clock: "ax_conditions_false_at st = Some t \<Longrightarrow> false_since (ticks @ [(now, False)]) t" for t
    by (simp add: clock_ok_def false_since_snoc)
  have "met = False"
    using assms by (auto simp: run_ticks_snoc s evaluate_met_def split: prod.splits)
  with assms clock false_since_now [of ticks now] show ?thesis
    by (cases "ax_conditions_false_at st")
      (auto simp: run_ticks_snoc s evaluate_met_def restoreBaseline_def runtime_ops SetQueueDepth_def
        Let_def Capacity_def Resize_result split: if_splits option.splits)
qed

definition sample_autoscaler :: autoscaler where
  "sample_autoscaler =
     \<lparr>sc_spec = \<lparr>as_interval = 0, as_cooldown = 0, as_or = [], as_when = [],
                 as_do = \<lparr>aa_workers = Some 8, aa_queue_depth = None, aa_resync = None\<rparr>\<rparr>,
      sc_baseline = \<lparr>ab_workers = 2, ab_max_depth = 0, ab_resync = 0\<rparr>,
      sc_decls = [], sc_resolve = (\<lambda>f src. [])\<rparr>"

definition sample_runtime :: "list_queue crd_runtime" where
  "sample_runtime =
     \<lparr>rt_sem = NewResizableSemaphore 2, rt_goroutines = 2, rt_wq = None, rt_resync = 0\<rparr>"

text \<open>Conditions hold at the first tick, then fail for two minutes.\<close>

definition sample_ticks :: "(int \<times> bool) list" where
  "sample_ticks = [(0, True), (15 * second, False)]"

theorem restore_waits_for_cooldown_witness:
  "\<exists>since. false_since (sample_ticks @ [(140 * second, False)]) since \<and>
     120 * second \<le> 140 * second - since"
proof -
  have "ax_override_active (fst (run_ticks sample_autoscaler sample_ticks (NewAutoscaler_state, sample_runtime)))"
    "\<not> ax_override_active (fst (run_ticks sample_autoscaler (sample_ticks @ [(140 * second, False)])
        (NewAutoscaler_state, sample_runtime)))"
    by (simp_all add: run_ticks_def sample_ticks_def sample_autoscaler_def evaluate_met_def
        applyOverride_def restoreBaseline_def NewAutoscaler_state_def EffectiveCooldown_def
        second_def Let_def)
  from restore_waits_for_cooldown [OF this] show ?thesis
    by (simp add: sample_autoscaler_def EffectiveCooldown_def)
qed

text \<open>
  Every cycle of an override and its end starts new worker goroutines and stops none: with
  an override above the baseline the number of goroutines grows by the difference each time,
  although the capacity returns to the baseline.
\<close>
lemma worker_goroutines_accumulate:
  assumes "aa_workers (as_do (sc_spec sc)) = Some w"
    and "1 \<le> ab_workers (sc_baseline sc)" "ab_workers (sc_baseline sc) < w"
    and "Capacity (rt_sem rt) = ab_workers (sc_baseline sc)"
  shows "let s = ((restoreBaseline sc \<circ> applyOverride sc) ^^ n) (st, rt) in
     Capacity (rt_sem (snd s)) = ab_workers (sc_baseline sc) \<and>
     rt_goroutines (snd s) = rt_goroutines rt + int n * (w - ab_workers (sc_baseline sc))"
proof (induction n)
  case 0
  then show ?case using assms(4) by simp
next
  case (Suc n)
  obtain st1 rt1 where s: "((restoreBaseline sc \<circ> applyOverride sc) ^^ n) (st, rt) = (st1, rt1)"
    by (metis surj_pair)
  have rt1: "Capacity (rt_sem rt1) = ab_workers (sc_baseline sc)"
    "rt_goroutines rt1 = rt_goroutines rt + int n * (w - ab_workers (sc_baseline sc))"
    using Suc.IH unfolding s Let_def by simp_all
  have step: "Capacity (rt_sem (snd (restoreBaseline sc (applyOverride sc (st1, rt1))))) = ab_workers (sc_baseline sc)
    \<and> rt_goroutines (snd (restoreBaseline sc (applyOverride sc (st1, rt1)))) =
      rt_goroutines rt1 + (w - ab_workers (sc_baseline sc))"
    using assms(2,3) rt1(1) by (simp add: override_cycle [OF assms(1)])
  have "((restoreBaseline sc \<circ> applyOverride sc) ^^ Suc n) (st, rt) = restoreBaseline sc (applyOverride sc (st1, rt1))"
    using s by simp
  moreover have "int (Suc n) * d = int n * d + d" for d by (simp add: distrib_right)
  ultimately show ?case unfolding Let_def using step rt1(2) by presburger
qed

text \<open>
  A cron window that is reported open belongs to a fire of the schedule that is no older
  than its length or, for a window shorter than the evaluation interval, than that interval;
  a closed one leaves no state behind; other expressions' windows are not touched.
\<close>
lemma cron_window_is_bounded:
  assumes "ge_cron E expr = Some next_fire" "\<And>t. t < next_fire t"
    and "TickCronWindow E windows expr duration interval now = (windows', opened)"
  shows "(if opened then
       (\<exists>fire. windows' expr = Some fire \<and>
          now < fire + max interval (if duration \<noteq> 0 then duration else if interval \<noteq> 0 then interval else 60 * second))
     else windows' expr = None \<and> now < next_fire (now - interval))
    \<and> (e = expr \<or> windows' e = windows e)"
  using assms(1,3) assms(2) [of "now - interval"]
  by (auto simp: TickCronWindow_def Let_def max_def split: if_splits option.splits)

text \<open>
  The percentile is taken from a sorted window: the insertion loops of \<^verbatim>\<open>sortInt64\<close> compute
  the sorted list of the same samples.
\<close>
lemma sortInt64_sorts:
  "sorted (sortInt64 a) \<and> mset (sortInt64 a) = mset a"
  by (simp add: sortInt64_eq)

text \<open>
  A cross-CRD metric resolved for a condition is the value the condition then reads:
  injecting it under the field's path makes \<^verbatim>\<open>NavigateDotPath\<close> return it, for a CRD and a
  metric name without dots.
\<close>
lemma injected_metric_is_read:
  assumes "CHR ''.'' \<notin> set crd" "CHR ''.'' \<notin> set metric"
  shows "IsCrossMetricField (''cross.'' @ crd @ ''.metrics.'' @ metric) \<and>
     NavigateDotPath E (injectCrossMetricValue data (''cross.'' @ crd @ ''.metrics.'' @ metric) val)
       (''cross.'' @ crd @ ''.metrics.'' @ metric) = val"
proof -
  let ?field = "''cross.'' @ crd @ ''.metrics.'' @ metric"
  have trim: "trim_cross ?field = crd @ ''.metrics.'' @ metric"
    by (simp add: trim_cross_def cross_prefix_def str_has_prefix_def)
  have cut: "str_cut ''.metrics.'' (crd @ ''.metrics.'' @ metric) = Some (crd, metric)"
    by (rule str_cut_fresh) (use assms in auto)
  have split: "split_char (CHR ''.'') ?field = [''cross'', crd, ''metrics'', metric]"
  proof -
    have "split_char (CHR ''.'') (''cross'' @ CHR ''.'' # (crd @ CHR ''.'' # (''metrics'' @ CHR ''.'' # metric))) =
        [''cross'', crd, ''metrics'', metric]"
      using assms by (simp only: split_char_append split_char_no_sep) (simp add: split_char_append split_char_no_sep)
    then show ?thesis by simp
  qed
  have "IsCrossMetricField ?field"
    unfolding IsCrossMetricField_def str_contains_iff str_has_prefix_iff cross_prefix_def
    by (metis append.assoc prefixI)
  moreover have "injectCrossMetricValue data ?field val =
      data(''cross'' \<mapsto> VMap ((sub_map data ''cross'')(crd \<mapsto> VMap ((sub_map (sub_map data ''cross'') crd)(''metrics'' \<mapsto>
        VMap ((sub_map (sub_map (sub_map data ''cross'') crd) ''metrics'')(metric \<mapsto> VStr val)))))))"
    unfolding injectCrossMetricValue_def trim cut by (simp add: Let_def)
  moreover have "?field \<noteq> []" by simp
  ultimately show ?thesis
    unfolding NavigateDotPath_def typesSplitDot_def typesSplitOn_eq split by simp
qed

end
