(* ===== verification/Health.thy ===== *)
theory Health
  imports GoPrelude GoLib
begin

text \<open>
  Health of a CRD's reconciler, \<^verbatim>\<open>pkg/runtime/coordinator/vitals\<close> (\<^verbatim>\<open>crd_health.go\<close>,
  \<^verbatim>\<open>worker.go\<close>, \<^verbatim>\<open>runtime.go\<close>), and the dependency checker that reads it,
  \<^verbatim>\<open>runtime_dependency_checker.go\<close>.  The atomics are record fields; each method is one step.
  Formatted times (\<^verbatim>\<open>LastReconcile\<close>, \<^verbatim>\<open>Uptime\<close>) are kept as the times they format.
\<close>

section \<open>The health record\<close>

record dependency_status =
  ds_name :: string
  ds_state :: string
  ds_condition :: string
  ds_acceptable :: string
  ds_satisfied :: bool
  ds_last_check :: int

record runtime_health =
  rh_inrun_ready :: bool
  rh_kat_ready :: bool
  rh_all_online :: bool
  rh_is_leader :: bool

record crd_health =
  h_name :: string
  h_started :: bool
  h_pending :: bool
  h_healthy :: bool
  h_degraded :: bool
  h_total :: int
  h_failed :: int
  h_consecutive :: int
  h_last_error :: "string option"
  h_last_reconcile :: "int option"
  h_start_time :: "int option"
  h_last_crd_check :: "int option"
  h_crd_exists :: bool
  h_total_workers :: int
  h_idle_workers :: int
  h_processing_workers :: int
  h_worker_states :: "string \<Rightarrow> string option"
  h_dependencies :: "(string \<times> dependency_status) list"
  h_unhealthy_deps :: bool
  h_healthy_signaled :: bool
  h_runtime :: runtime_health
  h_gated :: bool
  h_gated_reason :: "string option"

definition NewRuntimeHealth :: runtime_health where
  "NewRuntimeHealth =
     \<lparr>rh_inrun_ready = True, rh_kat_ready = False, rh_all_online = False, rh_is_leader = False\<rparr>"

definition NewCRDHealth :: "string \<Rightarrow> crd_health" where
  "NewCRDHealth name =
     \<lparr>h_name = name, h_started = False, h_pending = True, h_healthy = False, h_degraded = False,
      h_total = 0, h_failed = 0, h_consecutive = 0, h_last_error = None, h_last_reconcile = None,
      h_start_time = None, h_last_crd_check = None, h_crd_exists = False, h_total_workers = 0,
      h_idle_workers = 0, h_processing_workers = 0, h_worker_states = Map.empty,
      h_dependencies = [], h_unhealthy_deps = False, h_healthy_signaled = False,
      h_runtime = NewRuntimeHealth, h_gated = False, h_gated_reason = None\<rparr>"

section \<open>Recording reconciles\<close>

definition RecordSuccess :: "int \<Rightarrow> crd_health \<Rightarrow> crd_health" where
  "RecordSuccess now h =
     (let h1 = h\<lparr>h_total := h_total h + 1, h_consecutive := 0, h_last_reconcile := Some now,
                 h_healthy := True, h_pending := False, h_degraded := False, h_gated := False\<rparr>
      in if rh_all_online (h_runtime h1) then h1\<lparr>h_runtime := (h_runtime h1)\<lparr>rh_kat_ready := True\<rparr>\<rparr>
         else h1)"

definition RecordFailure :: "int \<Rightarrow> string \<Rightarrow> int \<Rightarrow> crd_health \<Rightarrow> crd_health" where
  "RecordFailure now err degradeThreshold h =
     (let h1 = h\<lparr>h_total := h_total h + 1, h_failed := h_failed h + 1,
                 h_consecutive := h_consecutive h + 1, h_last_error := Some err,
                 h_last_reconcile := Some now\<rparr>
      in if h_consecutive h1 \<ge> degradeThreshold then
           h1\<lparr>h_runtime := (h_runtime h1)\<lparr>rh_kat_ready := False\<rparr>, h_healthy := False,
              h_pending := False, h_degraded := True\<rparr>
         else h1)"

definition RecordStartupFailure :: "string \<Rightarrow> crd_health \<Rightarrow> crd_health" where
  "RecordStartupFailure err h = h\<lparr>h_consecutive := h_consecutive h + 1, h_last_error := Some err\<rparr>"

definition RecordGated :: "string \<Rightarrow> crd_health \<Rightarrow> crd_health" where
  "RecordGated reason h = h\<lparr>h_gated := True, h_gated_reason := Some reason\<rparr>"

definition GatedReason :: "crd_health \<Rightarrow> string" where
  "GatedReason h = (case h_gated_reason h of None \<Rightarrow> [] | Some r \<Rightarrow> r)"

definition LastError :: "crd_health \<Rightarrow> string" where
  "LastError h = (case h_last_error h of None \<Rightarrow> [] | Some e \<Rightarrow> e)"

definition ErrorRate :: "crd_health \<Rightarrow> rat" where
  "ErrorRate h = (if h_total h = 0 then 0 else f_div (of_int (h_failed h)) (of_int (h_total h)))"

definition health_ErrorRatePercent :: "crd_health \<Rightarrow> rat" where
  "health_ErrorRatePercent h = f_mul (ErrorRate h) 100"

definition SetStarted :: "int \<Rightarrow> crd_health \<Rightarrow> crd_health" where
  "SetStarted now h =
     (let h1 = h\<lparr>h_start_time := (case h_start_time h of None \<Rightarrow> Some now | Some t \<Rightarrow> Some t),
                 h_started := True\<rparr>
      in if \<not> h_healthy h1 then h1\<lparr>h_pending := True\<rparr> else h1)"

definition SetDegraded :: "crd_health \<Rightarrow> crd_health" where
  "SetDegraded h = h\<lparr>h_healthy := False, h_pending := False, h_degraded := True\<rparr>"

definition MarkHealthySignaled :: "crd_health \<Rightarrow> crd_health" where
  "MarkHealthySignaled h = h\<lparr>h_healthy_signaled := True\<rparr>"

definition SetNotStarted :: "crd_health \<Rightarrow> crd_health" where
  "SetNotStarted h = h\<lparr>h_started := False\<rparr>"

definition SetMissingAtRuntime :: "int \<Rightarrow> crd_health \<Rightarrow> crd_health" where
  "SetMissingAtRuntime now h =
     h\<lparr>h_last_crd_check := Some now, h_crd_exists := False, h_healthy := False, h_pending := False,
       h_consecutive := h_consecutive h + 1, h_last_error := Some ''CRD missing at runtime''\<rparr>"

definition IsMissing :: "crd_health \<Rightarrow> bool" where
  "IsMissing h = h_crd_exists h"

definition SetCRDExists :: "int \<Rightarrow> bool \<Rightarrow> crd_health \<Rightarrow> crd_health" where
  "SetCRDExists now ex h = h\<lparr>h_crd_exists := ex, h_last_crd_check := Some now\<rparr>"

definition CRDExists :: "crd_health \<Rightarrow> bool" where
  "CRDExists h = h_crd_exists h"

text \<open>\<^verbatim>\<open>StateAndStatus\<close>; \<open>None\<close> is the nil receiver.\<close>

definition StateAndStatus :: "crd_health option \<Rightarrow> string \<times> nat" where
  "StateAndStatus ho =
     (case ho of
        None \<Rightarrow> (''not started'', 503)
      | Some h \<Rightarrow>
          (if \<not> h_started h \<and> \<not> h_pending h then (''not started'', 503)
           else if h_pending h then (''pending'', 200)
           else if h_started h \<and> \<not> h_healthy h then (''degraded'', 503)
           else if h_healthy h then (''healthy'', 200)
           else (''pending'', 200)))"

section \<open>Workers\<close>

definition SetTotalWorkers :: "int \<Rightarrow> crd_health \<Rightarrow> crd_health" where
  "SetTotalWorkers n h = h\<lparr>h_total_workers := n, h_idle_workers := n, h_processing_workers := 0\<rparr>"

definition MarkWorkerProcessing :: "string \<Rightarrow> crd_health \<Rightarrow> crd_health" where
  "MarkWorkerProcessing w h =
     h\<lparr>h_processing_workers := h_processing_workers h + 1, h_idle_workers := h_idle_workers h - 1,
       h_worker_states := (h_worker_states h)(w \<mapsto> ''processing'')\<rparr>"

definition MarkWorkerIdle :: "string \<Rightarrow> crd_health \<Rightarrow> crd_health" where
  "MarkWorkerIdle w h =
     h\<lparr>h_processing_workers := h_processing_workers h - 1, h_idle_workers := h_idle_workers h + 1,
       h_worker_states := (h_worker_states h)(w \<mapsto> ''idle'')\<rparr>"

definition MarkWorkersStopped :: "crd_health \<Rightarrow> crd_health" where
  "MarkWorkersStopped h =
     h\<lparr>h_worker_states := (\<lambda>w. map_option (\<lambda>_. ''stopped'') (h_worker_states h w))\<rparr>"

definition ResetWorkerCounts :: "crd_health \<Rightarrow> crd_health" where
  "ResetWorkerCounts h =
     (MarkWorkersStopped h)\<lparr>h_processing_workers := 0, h_idle_workers := 0\<rparr>"

definition MarkStartupWorkerIdle :: "string \<Rightarrow> crd_health \<Rightarrow> crd_health" where
  "MarkStartupWorkerIdle w h = h\<lparr>h_worker_states := (h_worker_states h)(w \<mapsto> ''stopped'')\<rparr>"

section \<open>Dependencies\<close>

fun set_dep ::
  "string \<Rightarrow> dependency_status \<Rightarrow> (string \<times> dependency_status) list \<Rightarrow> (string \<times> dependency_status) list" where
  "set_dep n st [] = [(n, st)]"
| "set_dep n st ((m, s) # ds) = (if m = n then (n, st) # ds else (m, s) # set_dep n st ds)"

definition recalculateOverallDependencyHealth :: "crd_health \<Rightarrow> crd_health" where
  "recalculateOverallDependencyHealth h =
     h\<lparr>h_unhealthy_deps := list_ex (\<lambda>(_, d). \<not> ds_satisfied d) (h_dependencies h)\<rparr>"

definition SetDependencyHealth :: "int \<Rightarrow> string \<Rightarrow> dependency_status \<Rightarrow> crd_health \<Rightarrow> crd_health" where
  "SetDependencyHealth now n st h =
     recalculateOverallDependencyHealth
       (h\<lparr>h_dependencies := set_dep n (st\<lparr>ds_last_check := now\<rparr>) (h_dependencies h)\<rparr>)"

definition UpdateDependencyStatus :: "int \<Rightarrow> string \<Rightarrow> dependency_status \<Rightarrow> crd_health \<Rightarrow> crd_health" where
  "UpdateDependencyStatus now n st h =
     h\<lparr>h_dependencies := set_dep n (st\<lparr>ds_last_check := now\<rparr>) (h_dependencies h)\<rparr>"

text \<open>
  The coordinator's view: health by GVK, GVK by CRD name, and the \<^verbatim>\<open>healthyCh\<close> channels that
  have been closed.
\<close>

record coordinator =
  co_health :: "string \<Rightarrow> crd_health option"
  co_gvk_of :: "string \<Rightarrow> string option"
  co_closed :: "string list"

definition dep_status :: "string \<Rightarrow> string \<Rightarrow> string \<Rightarrow> string \<Rightarrow> bool \<Rightarrow> dependency_status" where
  "dep_status n state cond acceptable sat =
     \<lparr>ds_name = n, ds_state = state, ds_condition = cond, ds_acceptable = acceptable,
      ds_satisfied = sat, ds_last_check = 0\<rparr>"

definition put_health :: "string \<Rightarrow> crd_health \<Rightarrow> coordinator \<Rightarrow> coordinator" where
  "put_health gvk h co = co\<lparr>co_health := (co_health co)(gvk \<mapsto> h)\<rparr>"

definition on_health :: "string \<Rightarrow> (crd_health \<Rightarrow> crd_health) \<Rightarrow> coordinator \<Rightarrow> coordinator" where
  "on_health gvk f co =
     (case co_health co gvk of None \<Rightarrow> co | Some h \<Rightarrow> put_health gvk (f h) co)"

definition dependency_state :: "crd_health \<Rightarrow> string \<Rightarrow> string" where
  "dependency_state dh cond =
     (if h_healthy dh then ''healthy''
      else if h_started dh \<and> cond = ''started'' then ''started''
      else if h_pending dh then ''pending''
      else ''degraded'')"

text \<open>The body of the loop of \<^verbatim>\<open>checkDependencyHealthForGVK\<close>, for one dependency.\<close>

definition check_dependency ::
  "int \<Rightarrow> string \<Rightarrow> string \<times> string \<Rightarrow> coordinator \<Rightarrow> coordinator" where
  "check_dependency now gvk = (\<lambda>(depName, cond) co.
     case co_gvk_of co depName of
       None \<Rightarrow> on_health gvk (SetDependencyHealth now depName
                 (dep_status depName ''missing'' ''started'' [] False)) co
     | Some depGVK \<Rightarrow>
         (case co_health co depGVK of
            None \<Rightarrow> on_health gvk (SetDependencyHealth now depName
                      (dep_status depName ''unknown'' ''started'' [] False)) co
          | Some dh \<Rightarrow>
              (let state = dependency_state dh cond;
                   co1 = (if h_healthy dh \<and> \<not> h_healthy_signaled dh then
                            put_health depGVK (SetStarted now (MarkHealthySignaled dh))
                              (co\<lparr>co_closed := depGVK # co_closed co\<rparr>)
                          else co);
                   satisfied = (cond = state \<or> h_healthy dh)
               in on_health gvk (SetDependencyHealth now depName
                    (dep_status depName state state cond satisfied)) co1)))"

definition checkDependencyHealthForGVK ::
  "int \<Rightarrow> string \<Rightarrow> (string \<times> string) list \<Rightarrow> coordinator \<Rightarrow> coordinator" where
  "checkDependencyHealthForGVK now gvk dependsOn co =
     (case co_health co gvk of
        None \<Rightarrow> co
      | Some _ \<Rightarrow> fold (check_dependency now gvk) dependsOn co)"

section \<open>Lemmas: the state machine of one CRD\<close>

datatype health_event =
    HSuccess int
  | HFailure int string
  | HGated string
  | HStarted int
  | HNotStarted
  | HDegraded
  | HMissing int
  | HStartupFailure string
  | HExists int bool

fun health_step :: "int \<Rightarrow> crd_health \<Rightarrow> health_event \<Rightarrow> crd_health" where
  "health_step th h (HSuccess now) = RecordSuccess now h"
| "health_step th h (HFailure now err) = RecordFailure now err th h"
| "health_step th h (HGated r) = RecordGated r h"
| "health_step th h (HStarted now) = SetStarted now h"
| "health_step th h HNotStarted = SetNotStarted h"
| "health_step th h HDegraded = SetDegraded h"
| "health_step th h (HMissing now) = SetMissingAtRuntime now h"
| "health_step th h (HStartupFailure err) = RecordStartupFailure err h"
| "health_step th h (HExists now b) = SetCRDExists now b h"

text \<open>
  Healthy excludes pending and degraded, a healthy CRD has fewer consecutive failures than the
  threshold unless start-up failures came after, and the counters are consistent.
\<close>

definition health_inv :: "crd_health \<Rightarrow> bool" where
  "health_inv h \<longleftrightarrow>
     (\<not> h_healthy h \<or> \<not> h_pending h \<and> \<not> h_degraded h \<and> h_last_reconcile h \<noteq> None \<and> h_failed h < h_total h) \<and>
     0 \<le> h_failed h \<and> h_failed h \<le> h_total h \<and> 0 \<le> h_consecutive h \<and>
     (h_total h = 0) = (h_last_reconcile h = None)"

lemma health_step_inv: "health_inv h \<Longrightarrow> health_inv (health_step th h e)"
  by (cases e)
    (auto simp: health_inv_def RecordSuccess_def RecordFailure_def RecordGated_def SetStarted_def
      SetNotStarted_def SetDegraded_def SetMissingAtRuntime_def RecordStartupFailure_def
      SetCRDExists_def Let_def)

interpretation health: invariant_machine "health_step th" "\<lambda>h e. True" health_inv for th
  by unfold_locales (rule health_step_inv)

lemma health_inv_new: "health_inv (NewCRDHealth name)"
  by (simp add: health_inv_def NewCRDHealth_def)

text \<open>The failures since the last success.\<close>

fun trailing_failures :: "health_event list \<Rightarrow> int" where
  "trailing_failures [] = 0"
| "trailing_failures (HFailure _ _ # es) = trailing_failures es + 1"
| "trailing_failures (HSuccess _ # es) = 0"
| "trailing_failures (_ # es) = trailing_failures es"

fun is_reconcile :: "health_event \<Rightarrow> bool" where
  "is_reconcile (HSuccess _) = True"
| "is_reconcile (HFailure _ _) = True"
| "is_reconcile (HGated _) = True"
| "is_reconcile _ = False"

fun is_success :: "health_event \<Rightarrow> bool" where
  "is_success (HSuccess _) = True"
| "is_success _ = False"

fun is_failure :: "health_event \<Rightarrow> bool" where
  "is_failure (HFailure _ _) = True"
| "is_failure _ = False"

lemma trailing_nonneg: "0 \<le> trailing_failures es"
  by (induction es rule: trailing_failures.induct) auto

lemma reconcile_history:
  assumes "1 \<le> th" "list_all is_reconcile es"
  shows "let h = foldl (health_step th) (NewCRDHealth name) es; n = trailing_failures (rev es) in
     h_consecutive h = n \<and> h_degraded h = (th \<le> n) \<and>
     h_healthy h = (list_ex is_success es \<and> n < th) \<and>
     h_pending h = (\<not> list_ex is_success es \<and> n < th) \<and>
     h_total h = int (length (filter (\<lambda>e. is_success e \<or> is_failure e) es)) \<and>
     h_failed h = int (length (filter is_failure es))"
  using assms(2)
proof (induction es rule: rev_induct)
  case Nil
  with assms(1) show ?case by (simp add: NewCRDHealth_def)
next
  case (snoc e es)
  let ?n = "trailing_failures (rev es)"
  have n: "0 \<le> ?n" by (rule trailing_nonneg)
  from snoc show ?case
    using assms(1) n
    by (cases e) (auto simp: RecordSuccess_def RecordFailure_def RecordGated_def Let_def)
qed

section \<open>Lemmas: the coordinator\<close>

text \<open>Closing a closed Go channel panics: every closed channel belongs to a signaled CRD.\<close>

definition closed_once :: "coordinator \<Rightarrow> bool" where
  "closed_once co \<longleftrightarrow>
     distinct (co_closed co) \<and>
     (\<forall>g \<in> set (co_closed co). case co_health co g of None \<Rightarrow> False | Some h \<Rightarrow> h_healthy_signaled h)"

lemma on_health_closed:
  assumes "closed_once co" "\<And>h. h_healthy_signaled (f h) = h_healthy_signaled h"
  shows "closed_once (on_health gvk f co)"
  using assms
  by (auto simp: closed_once_def on_health_def put_health_def split: option.splits)

lemma SetDependencyHealth_signaled:
  "h_healthy_signaled (SetDependencyHealth now n st h) = h_healthy_signaled h"
  by (simp add: SetDependencyHealth_def recalculateOverallDependencyHealth_def)

lemma signal_closed:
  assumes "closed_once co" "co_health co g = Some dh" "\<not> h_healthy_signaled dh"
  shows "closed_once (put_health g (SetStarted now (MarkHealthySignaled dh)) (co\<lparr>co_closed := g # co_closed co\<rparr>))"
  using assms
  by (auto simp: closed_once_def put_health_def SetStarted_def MarkHealthySignaled_def Let_def
      split: option.splits)

lemma check_dependency_closed: "closed_once co \<Longrightarrow> closed_once (check_dependency now gvk d co)"
  by (cases d)
    (auto simp: check_dependency_def Let_def SetDependencyHealth_signaled signal_closed
      split: option.splits intro!: on_health_closed)

datatype co_event =
    CoCheck int string "(string \<times> string) list"
  | CoHealth string int health_event

fun co_step :: "coordinator \<Rightarrow> co_event \<Rightarrow> coordinator" where
  "co_step co (CoCheck now gvk deps) = checkDependencyHealthForGVK now gvk deps co"
| "co_step co (CoHealth gvk th e) = on_health gvk (\<lambda>h. health_step th h e) co"

lemma health_step_signaled: "h_healthy_signaled (health_step th h e) = h_healthy_signaled h"
  by (cases e)
    (auto simp: RecordSuccess_def RecordFailure_def RecordGated_def SetStarted_def SetNotStarted_def
      SetDegraded_def SetMissingAtRuntime_def RecordStartupFailure_def SetCRDExists_def Let_def)

lemma co_step_closed: "closed_once co \<Longrightarrow> closed_once (co_step co e)"
proof (cases e)
  case (CoCheck now gvk deps)
  assume inv: "closed_once co"
  have "closed_once (fold (check_dependency now gvk) deps co)"
    by (rule fold_invariant_list [where P = closed_once, OF inv]) (rule check_dependency_closed)
  with CoCheck inv show ?thesis by (simp add: checkDependencyHealthForGVK_def split: option.splits)
next
  case (CoHealth gvk th ev)
  assume "closed_once co"
  with CoHealth show ?thesis by (simp add: on_health_closed health_step_signaled)
qed

interpretation co: invariant_machine co_step "\<lambda>co e. True" closed_once
  by unfold_locales (rule co_step_closed)

section \<open>Properties\<close>

text \<open>
  C8. The health of a CRD is a function of its reconcile history: after any sequence of
  successes, failures and gated items it is degraded exactly when at least the threshold
  of failures followed the last success, healthy exactly when there was a success and fewer
  followed it, pending otherwise, and the counters count the reconciles and the failures.
\<close>
theorem health_follows_history:
  assumes "1 \<le> th" "list_all is_reconcile es"
  shows "let h = foldl (health_step th) (NewCRDHealth name) es; n = trailing_failures (rev es) in
     h_consecutive h = n \<and> h_degraded h = (th \<le> n) \<and>
     h_healthy h = (list_ex is_success es \<and> n < th) \<and>
     h_pending h = (\<not> list_ex is_success es \<and> n < th) \<and>
     h_total h = int (length (filter (\<lambda>e. is_success e \<or> is_failure e) es)) \<and>
     h_failed h = int (length (filter is_failure es))"
  by (rule reconcile_history [OF assms])

theorem health_follows_history_witness:
  "h_degraded (foldl (health_step 2) (NewCRDHealth ''db'')
     [HSuccess 1, HFailure 2 ''a'', HGated ''paused'', HFailure 3 ''b''])"
  using health_follows_history [of 2 "[HSuccess 1, HFailure 2 ''a'', HGated ''paused'', HFailure 3 ''b'']" "''db''"]
  by (simp add: Let_def)

text \<open>
  Whatever a CRD goes through, it is never healthy and degraded or pending at once, it
  reports healthy with status 200 exactly when it is started and healthy, and status 503
  exactly when it is reported degraded or not started; a CRD reported healthy has had a
  successful reconcile.
\<close>
lemma health_report_is_consistent:
  "let h = foldl (health_step th) (NewCRDHealth name) es; (state, status) = StateAndStatus (Some h) in
     \<not> (h_healthy h \<and> (h_degraded h \<or> h_pending h)) \<and>
     (state = ''healthy'') = (h_started h \<and> h_healthy h) \<and>
     (status = 503) = (state = ''degraded'' \<or> state = ''not started'') \<and>
     (status = 200 \<or> status = 503) \<and>
     (state \<noteq> ''healthy'' \<or> h_last_reconcile h \<noteq> None \<and> h_failed h < h_total h)"
proof -
  have "health_inv (foldl (health_step th) (NewCRDHealth name) es)"
    by (rule health.inv_foldl [OF health_inv_new]) simp
  then show ?thesis
    by (auto simp: StateAndStatus_def health_inv_def Let_def)
qed

text \<open>
  In any interleaving of dependency checks and reconcile outcomes of the CRDs, each
  \<^verbatim>\<open>healthyCh\<close> channel is closed at most once, so the checker never panics on a second
  close.
\<close>
lemma healthy_channels_closed_once:
  "distinct (co_closed (foldl co_step
     \<lparr>co_health = (\<lambda>g. map_option NewCRDHealth (names g)), co_gvk_of = gvk_of, co_closed = []\<rparr> es))"
proof -
  have "closed_once (foldl co_step
     \<lparr>co_health = (\<lambda>g. map_option NewCRDHealth (names g)), co_gvk_of = gvk_of, co_closed = []\<rparr> es)"
    by (rule co.inv_foldl) (simp_all add: closed_once_def)
  then show ?thesis by (simp add: closed_once_def)
qed

end
