(* ===== verification/Worker.thy ===== *)
theory Worker
  imports Autoscaler Health
begin

text \<open>
  What happens to a queue item: the worker loop and the item pipeline of
  \<^verbatim>\<open>pkg/runtime/coordinator/worker.go\<close>, the cleanup gate of \<^verbatim>\<open>cleanup.go\<close> with the annotation
  patch it uses (\<^verbatim>\<open>pkg/kubeclient/patches.go\<close>), and the requeue decision of \<^verbatim>\<open>runners.go\<close>.

  The API server, the reconciler and the stages modelled elsewhere or not at all (prepare,
  maintain, the pre-reconcile gate, the requeue block) are arguments of one pass; the health
  map is total, since the coordinator fills all its maps with the same keys.
\<close>

section \<open>The cleanup gate\<close>

text \<open>\<^verbatim>\<open>types.CleanupConfig\<close>; a nil config is \<open>None\<close>.  Durations and times are nanoseconds.\<close>

record cleanup_config =
  cl_when :: "condition list"
  cl_or :: "condition list"
  cl_delete_after :: int

definition HasCleanup :: "cleanup_config option \<Rightarrow> bool" where
  "HasCleanup c =
     (case c of None \<Rightarrow> False | Some cl \<Rightarrow> length (cl_when cl) > 0 \<or> length (cl_or cl) > 0)"

type_synonym annotations = "string \<Rightarrow> string option"

text \<open>
  The custom resource of a pass: the object in memory, whose nil annotation map is \<open>None\<close>, and
  the annotations the API server holds.
\<close>

record cr_object =
  cr_key :: string
  cr_annotations :: "annotations option"
  cr_deleting :: bool
  cr_server :: annotations
  cr_deleted :: bool

text \<open>
  The API server: what it makes of a JSON merge patch whose body sets annotations, and the
  errors of the patch and of the delete; and \<^verbatim>\<open>time.Format\<close>/\<^verbatim>\<open>time.Parse\<close> with the layout
  \<^verbatim>\<open>time.RFC3339\<close>.
\<close>

record api_server =
  api_merge :: "annotations \<Rightarrow> annotations \<Rightarrow> annotations"
  api_patch_error :: "string option"
  api_delete_error :: "string option"

record rfc3339 =
  rfc_format :: "int \<Rightarrow> string"
  rfc_parse :: "string \<Rightarrow> int option"

definition cleanupPendingAnnotation :: string where
  "cleanupPendingAnnotation = ''inrun.dev/cleanup-pending-since''"

text \<open>\<^verbatim>\<open>PatchAnnotations\<close>: the body holds the annotations it is given and nothing else.\<close>

definition PatchAnnotations ::
  "api_server \<Rightarrow> annotations \<Rightarrow> cr_object \<Rightarrow> cr_object \<times> string option" where
  "PatchAnnotations api ann obj =
     (case api_patch_error api of
        Some e \<Rightarrow> (obj, Some e)
      | None \<Rightarrow> (obj\<lparr>cr_server := api_merge api (cr_server obj) ann\<rparr>, None))"

text \<open>
  \<^verbatim>\<open>evaluateCleanup\<close>: the object afterwards, and either the error or \<^verbatim>\<open>(triggered, waitFor)\<close>.
  \<open>c\<close> is \<^verbatim>\<open>box.EffectiveCleanup()\<close>.
\<close>

definition evaluateCleanup ::
  "rfc3339 \<Rightarrow> api_server \<Rightarrow> goenv \<Rightarrow> gotime \<Rightarrow> gmap \<Rightarrow> evaluator \<Rightarrow> cleanup_config option \<Rightarrow> cr_object \<Rightarrow>
   cr_object \<times> (string + bool \<times> int)" where
  "evaluateCleanup clk api E now data ev c obj =
     (if \<not> HasCleanup c then (obj, Inr (False, 0)) else
      case c of None \<Rightarrow> (obj, Inr (False, 0)) | Some cl \<Rightarrow>
      if \<not> EvaluateConditions E now data (cl_when cl) (cl_or cl) ev then
        (case cr_annotations obj of
           None \<Rightarrow> (obj, Inr (False, 0))
         | Some ann \<Rightarrow>
             (if ann cleanupPendingAnnotation \<noteq> None then
                (let ann' = ann(cleanupPendingAnnotation := None)
                 in (fst (PatchAnnotations api ann' (obj\<lparr>cr_annotations := Some ann'\<rparr>)), Inr (False, 0)))
              else (obj, Inr (False, 0))))
      else if cl_delete_after cl > 0 then
        (let ann = (case cr_annotations obj of None \<Rightarrow> Map.empty | Some a \<Rightarrow> a) in
         case ann cleanupPendingAnnotation of
           None \<Rightarrow>
             (let ann' = ann(cleanupPendingAnnotation \<mapsto> rfc_format clk (now_ns now)) in
              case PatchAnnotations api ann' (obj\<lparr>cr_annotations := Some ann'\<rparr>) of
                (obj', Some e) \<Rightarrow> (obj', Inl (''cleanup: stamping pending annotation: '' @ e))
              | (obj', None) \<Rightarrow> (obj', Inr (False, cl_delete_after cl)))
         | Some pendingSince \<Rightarrow>
             (case rfc_parse clk pendingSince of
                None \<Rightarrow> (obj, Inr (True, 0))
              | Some since \<Rightarrow>
                  (let remaining = cl_delete_after cl - (now_ns now - since)
                   in if remaining > 0 then (obj, Inr (False, remaining)) else (obj, Inr (True, 0)))))
      else (obj, Inr (True, 0)))"

definition deleteCR :: "api_server \<Rightarrow> cr_object \<Rightarrow> cr_object \<times> string option" where
  "deleteCR api obj =
     (if cr_deleting obj then (obj, None)
      else case api_delete_error api of
             Some e \<Rightarrow> (obj, Some (''cleanup: deleting CR '' @ cr_key obj @ '': '' @ e))
           | None \<Rightarrow> (obj\<lparr>cr_deleted := True\<rparr>, None))"

section \<open>The controller\<close>

text \<open>\<^verbatim>\<open>domain.Result\<close>, and what a call of a reconciler ends in.\<close>

record reconcile_result =
  rr_requeue_after :: int
  rr_status_patch :: gmap

datatype outcome = Returned reconcile_result "string option" | Panicked string

record prepared_request =
  pr_object :: cr_object
  pr_cleanup :: "cleanup_config option"
  pr_data :: gmap
  pr_eval :: evaluator

type_synonym reconciler = "string \<Rightarrow> prepared_request option \<Rightarrow> outcome"

text \<open>
  The fields of \<^verbatim>\<open>Controller\<close> the workers use.  \<open>k_posts\<close> records the calls of \<^verbatim>\<open>runPost\<close>, which
  hands the error through; \<open>k_objects\<close> the resource as each pass left it.
\<close>

record 'q controller =
  k_registry :: "'q queue_registry"
  k_default :: "'q workqueue"
  k_threshold :: "string \<Rightarrow> int"
  k_health :: "string \<Rightarrow> crd_health"
  k_reconcilers :: "string \<Rightarrow> reconciler option"
  k_metrics :: "string \<Rightarrow> auto_metrics option"
  k_total :: "string \<Rightarrow> int"
  k_failed :: "string \<Rightarrow> int"
  k_posts :: "(string \<times> string option) list"
  k_objects :: "string \<Rightarrow> cr_object option"

text \<open>The surroundings of one pass.\<close>

record pass =
  ps_cancelled :: bool
  ps_now :: gotime
  ps_api :: api_server
  ps_entry :: "bool option"     \<comment> \<open>the catalog entry; whether it declares a reconcile gate\<close>
  ps_has_object :: bool         \<comment> \<open>\<^verbatim>\<open>objectFromCache\<close> is not nil\<close>
  ps_allowed :: "sentinel_map \<Rightarrow> bool \<times> string"   \<comment> \<open>\<^verbatim>\<open>kat.EvaluatePreReconcile\<close>\<close>
  ps_prepare :: "string + prepared_request option"
  ps_maintain :: "bool \<Rightarrow> string option"
  ps_requeue :: int             \<comment> \<open>\<^verbatim>\<open>kat.EvaluateRequeue\<close>\<close>

definition worker_queue :: "string \<Rightarrow> 'q controller \<Rightarrow> 'q workqueue" where
  "worker_queue gvk k = (case For (k_registry k) gvk of Some wq \<Rightarrow> wq | None \<Rightarrow> k_default k)"

definition on_queue :: "string \<Rightarrow> ('q workqueue \<Rightarrow> 'q workqueue) \<Rightarrow> 'q controller \<Rightarrow> 'q controller" where
  "on_queue gvk f k =
     (case For (k_registry k) gvk of
        Some wq \<Rightarrow> k\<lparr>k_registry := (k_registry k)\<lparr>qr_queues := (qr_queues (k_registry k))(gvk \<mapsto> f wq)\<rparr>\<rparr>
      | None \<Rightarrow> k\<lparr>k_default := f (k_default k)\<rparr>)"

definition on_crd_health :: "string \<Rightarrow> (crd_health \<Rightarrow> crd_health) \<Rightarrow> 'q controller \<Rightarrow> 'q controller" where
  "on_crd_health gvk f k = k\<lparr>k_health := (k_health k)(gvk := f (k_health k gvk))\<rparr>"

definition failedReconcile :: "string \<Rightarrow> 'q controller \<Rightarrow> 'q controller" where
  "failedReconcile gvk k = k\<lparr>k_failed := (k_failed k)(gvk := k_failed k gvk + 1)\<rparr>"

definition successReconcile :: "string \<Rightarrow> 'q controller \<Rightarrow> 'q controller" where
  "successReconcile gvk k = k\<lparr>k_total := (k_total k)(gvk := k_total k gvk + 1)\<rparr>"

definition zero_result :: reconcile_result where
  "zero_result = \<lparr>rr_requeue_after = 0, rr_status_patch = Map.empty\<rparr>"

definition safeReconcile ::
  "int \<Rightarrow> reconciler \<Rightarrow> string \<Rightarrow> string \<Rightarrow> prepared_request option \<Rightarrow> 'q controller \<Rightarrow>
   'q controller \<times> reconcile_result \<times> string option" where
  "safeReconcile now rec gvk key prepared k =
     (case rec key prepared of
        Panicked msg \<Rightarrow>
          (let err = ''reconciler panic: '' @ msg
           in (on_crd_health gvk (RecordFailure now err (k_threshold k gvk)) k, zero_result, Some err))
      | Returned result (Some err) \<Rightarrow>
          (on_crd_health gvk (RecordFailure now err (k_threshold k gvk)) k, result, Some err)
      | Returned result None \<Rightarrow>
          (successReconcile gvk (on_crd_health gvk (RecordSuccess now) k), result, None))"

definition evaluatePreReconcileCheck :: "pass \<Rightarrow> sentinel_map \<Rightarrow> bool \<times> string" where
  "evaluatePreReconcileCheck ps sentinels =
     (if \<not> ps_has_object ps then (False, [])
      else let (allowed, reason) = ps_allowed ps sentinels in (\<not> allowed, reason))"

definition resolveRequeueAfter :: "pass \<Rightarrow> reconcile_result \<Rightarrow> prepared_request option \<Rightarrow> int" where
  "resolveRequeueAfter ps result prepared =
     (if rr_requeue_after result > 0 then rr_requeue_after result
      else let d = (case ps_entry ps of None \<Rightarrow> 0 | Some _ \<Rightarrow> ps_requeue ps) in
           if d > 0 then d
           else case prepared of
                  None \<Rightarrow> -1
                | Some p \<Rightarrow> (if HasCleanup (pr_cleanup p) then 0 else -1))"

definition runPost ::
  "string \<Rightarrow> string option \<Rightarrow> 'q controller \<Rightarrow> 'q controller \<times> string option" where
  "runPost key reconcileErr k = (k\<lparr>k_posts := k_posts k @ [(key, reconcileErr)]\<rparr>, reconcileErr)"

definition drainSentinel :: string where
  "drainSentinel = ''__drain_sentinel__''"

text \<open>The end of \<^verbatim>\<open>processItemForGVK\<close>, from \<^verbatim>\<open>safeReconcile\<close> on.\<close>

definition reconcile_item ::
  "'q client_queue \<Rightarrow> pass \<Rightarrow> string \<Rightarrow> queue_item \<Rightarrow> reconciler \<Rightarrow> prepared_request option \<Rightarrow>
   'q controller \<Rightarrow> 'q controller" where
  "reconcile_item ops ps gvk item rec prepared k =
     (let (k1, result, err) = safeReconcile (now_ns (ps_now ps)) rec gvk (qi_key item) prepared k;
          (k2, err2) = (case prepared of None \<Rightarrow> (k1, err) | Some _ \<Rightarrow> runPost (qi_key item) err k1)
      in if err2 \<noteq> None then failedReconcile gvk (on_queue gvk (AddRateLimited ops item) k2)
         else (let k3 = on_queue gvk (Forget ops item) k2;
                   requeueAfter = resolveRequeueAfter ps result prepared
               in if requeueAfter \<ge> 0 then on_queue gvk (AddAfter ops item requeueAfter) k3 else k3))"

definition retry_item :: "'q client_queue \<Rightarrow> string \<Rightarrow> queue_item \<Rightarrow> 'q controller \<Rightarrow> 'q controller" where
  "retry_item ops gvk item k = failedReconcile gvk (on_queue gvk (AddRateLimited ops item) k)"

text \<open>The middle of \<^verbatim>\<open>processItemForGVK\<close>: cleanup, maintain and the delete of a prepared resource.\<close>

definition maintain_item ::
  "'q client_queue \<Rightarrow> rfc3339 \<Rightarrow> goenv \<Rightarrow> pass \<Rightarrow> string \<Rightarrow> queue_item \<Rightarrow> reconciler \<Rightarrow> prepared_request \<Rightarrow>
   'q controller \<Rightarrow> 'q controller" where
  "maintain_item ops clk E ps gvk item rec p k =
     (let (obj, cleanup) = evaluateCleanup clk (ps_api ps) E (ps_now ps) (pr_data p) (pr_eval p)
                             (pr_cleanup p) (pr_object p);
          k1 = k\<lparr>k_objects := (k_objects k)(qi_key item \<mapsto> obj)\<rparr>
      in case cleanup of
           Inl _ \<Rightarrow> retry_item ops gvk item k1
         | Inr (triggered, waitFor) \<Rightarrow>
             (if waitFor > 0 then
                on_queue gvk (AddAfter ops item waitFor) (on_queue gvk (Forget ops item) k1)
              else if ps_maintain ps triggered \<noteq> None then retry_item ops gvk item k1
              else if triggered then
                (case deleteCR (ps_api ps) obj of
                   (_, Some _) \<Rightarrow> retry_item ops gvk item k1
                 | (obj', None) \<Rightarrow>
                     successReconcile gvk (on_queue gvk (Forget ops item)
                       (k1\<lparr>k_objects := (k_objects k1)(qi_key item \<mapsto> obj')\<rparr>)))
              else reconcile_item ops ps gvk item rec (Some (p\<lparr>pr_object := obj\<rparr>)) k1))"

definition processItemForGVK ::
  "'q client_queue \<Rightarrow> rfc3339 \<Rightarrow> goenv \<Rightarrow> pass \<Rightarrow> string \<Rightarrow> queue_item \<Rightarrow> 'q controller \<Rightarrow> 'q controller" where
  "processItemForGVK ops clk E ps gvk item k =
     (if ps_cancelled ps then k
      else if qi_key item = drainSentinel then on_queue gvk (Forget ops item) k
      else if qi_gvk item \<noteq> gvk then
        (if For (k_registry k) gvk \<noteq> None then on_queue gvk (Forget ops item) k
         else on_queue gvk (AddRateLimited ops item) k)
      else case k_reconcilers k gvk of
        None \<Rightarrow> on_queue gvk (Forget ops item) k
      | Some rec \<Rightarrow>
          (case ps_entry ps of
             None \<Rightarrow> reconcile_item ops ps gvk item rec None k
           | Some has_gate \<Rightarrow>
               (let (gated, reason) =
                      (if has_gate then evaluatePreReconcileCheck ps (Sentinels (worker_queue gvk k) item)
                       else (False, []))
                in if gated then on_queue gvk (Forget ops item) (on_crd_health gvk (RecordGated reason) k)
                   else case ps_prepare ps of
                          Inl _ \<Rightarrow> retry_item ops gvk item k
                        | Inr None \<Rightarrow> on_queue gvk (Forget ops item) k
                        | Inr (Some p) \<Rightarrow> maintain_item ops clk E ps gvk item rec p k)))"

text \<open>
  One turn of the loop of \<^verbatim>\<open>runWorkerForGVK\<close>; \<open>None\<close> when \<^verbatim>\<open>Get\<close> has nothing to return.  The
  queue the loop resolved at its start is the one the pass resolves, as long as it stays
  registered.
\<close>

definition worker_turn ::
  "'q client_queue \<Rightarrow> rfc3339 \<Rightarrow> goenv \<Rightarrow> pass \<Rightarrow> string \<Rightarrow> string \<Rightarrow> 'q controller \<Rightarrow>
   (queue_item \<times> 'q controller) option" where
  "worker_turn ops clk E ps gvk workerID k =
     (case Get ops (worker_queue gvk k) of
        None \<Rightarrow> None
      | Some (item, wq) \<Rightarrow>
          (let k1 = on_crd_health gvk (MarkWorkerProcessing workerID) (on_queue gvk (\<lambda>_. wq) k);
               k2 = on_queue gvk (Done ops item) (processItemForGVK ops clk E ps gvk item k1);
               k3 = on_crd_health gvk (MarkWorkerIdle workerID) k2;
               depth = int (Depth ops (worker_queue gvk k3))
           in Some (item, k3\<lparr>k_metrics := (k_metrics k3)
                (gvk := map_option (am_SetQueueDepth depth) (k_metrics k3 gvk))\<rparr>)))"

section \<open>Lemmas: the cleanup gate\<close>

text \<open>
  A JSON merge patch (RFC 7386) sets the members of its body and leaves the others; times are
  formatted in whole seconds, and read back from the epoch to the year 9999.
\<close>

definition merge_patch_law :: "api_server \<Rightarrow> bool" where
  "merge_patch_law api \<longleftrightarrow> (\<forall>s b. api_merge api s b = s ++ b)"

definition rfc_years :: "int \<Rightarrow> bool" where
  "rfc_years t \<longleftrightarrow> 0 \<le> t \<and> t < 253402300800 * 1000000000"

definition rfc3339_law :: "rfc3339 \<Rightarrow> bool" where
  "rfc3339_law clk \<longleftrightarrow>
     (\<forall>t. rfc_years t \<longrightarrow> rfc_parse clk (rfc_format clk t) = Some (t - t mod 1000000000))"

definition conditions_met :: "goenv \<Rightarrow> evaluator \<Rightarrow> cleanup_config \<Rightarrow> gotime \<times> gmap \<Rightarrow> bool" where
  "conditions_met E ev cl = (\<lambda>(now, data). EvaluateConditions E now data (cl_when cl) (cl_or cl) ev)"

text \<open>A pass on the resource as the API server has it.\<close>

definition cleanup_pass ::
  "rfc3339 \<Rightarrow> api_server \<Rightarrow> goenv \<Rightarrow> evaluator \<Rightarrow> cleanup_config \<Rightarrow> cr_object \<Rightarrow> gotime \<times> gmap \<Rightarrow>
   cr_object \<times> (string + bool \<times> int)" where
  "cleanup_pass clk api E ev cl obj = (\<lambda>(now, data).
     evaluateCleanup clk api E now data ev (Some cl) (obj\<lparr>cr_annotations := Some (cr_server obj)\<rparr>))"

definition cleanup_passes ::
  "rfc3339 \<Rightarrow> api_server \<Rightarrow> goenv \<Rightarrow> evaluator \<Rightarrow> cleanup_config \<Rightarrow> (gotime \<times> gmap) list \<Rightarrow> cr_object \<Rightarrow>
   cr_object" where
  "cleanup_passes clk api E ev cl ps obj = foldl (\<lambda>x p. fst (cleanup_pass clk api E ev cl x p)) obj ps"

abbreviation pending_since :: "cr_object \<Rightarrow> string option" where
  "pending_since obj \<equiv> cr_server obj cleanupPendingAnnotation"

lemma PatchAnnotations_server:
  "cr_server (fst (PatchAnnotations api ann obj)) =
     (if api_patch_error api = None then api_merge api (cr_server obj) ann else cr_server obj)"
  by (simp add: PatchAnnotations_def split: option.splits)

lemma pass_keeps_stamp:
  assumes "merge_patch_law api" "pending_since obj = Some stamp"
  shows "pending_since (fst (cleanup_pass clk api E ev cl obj p)) = Some stamp"
  using assms
  by (cases p)
    (simp add: cleanup_pass_def evaluateCleanup_def Let_def PatchAnnotations_server merge_patch_law_def
      map_add_def split: option.splits)

text \<open>Any stamp on the server was written when the conditions were met.\<close>

definition stamped_when_met ::
  "rfc3339 \<Rightarrow> goenv \<Rightarrow> evaluator \<Rightarrow> cleanup_config \<Rightarrow> (gotime \<times> gmap) list \<Rightarrow> cr_object \<Rightarrow> bool" where
  "stamped_when_met clk E ev cl ps obj \<longleftrightarrow>
     (case pending_since obj of
        None \<Rightarrow> True
      | Some s \<Rightarrow> \<exists>p \<in> set ps. conditions_met E ev cl p \<and> s = rfc_format clk (now_ns (fst p)))"

lemma pass_stamps_when_met:
  assumes "merge_patch_law api" "stamped_when_met clk E ev cl seen obj"
  shows "stamped_when_met clk E ev cl (seen @ [p]) (fst (cleanup_pass clk api E ev cl obj p))"
proof (cases "pending_since obj")
  case (Some s)
  with assms pass_keeps_stamp [OF assms(1) Some, of clk E ev cl p] show ?thesis
    by (auto simp: stamped_when_met_def)
next
  case None
  obtain now data where p: "p = (now, data)" by (cases p)
  show ?thesis
    using None assms(1)
    by (simp add: p stamped_when_met_def cleanup_pass_def evaluateCleanup_def Let_def PatchAnnotations_def
        merge_patch_law_def conditions_met_def split: option.splits)
qed

interpretation cleanup: invariant_machine
  "\<lambda>(seen, obj) p. (seen @ [p], fst (cleanup_pass clk api E ev cl obj p))"
  "\<lambda>s p. merge_patch_law api"
  "\<lambda>(seen, obj). stamped_when_met clk E ev cl seen obj"
  for clk api E ev cl
  by unfold_locales (auto intro: pass_stamps_when_met)

lemma cleanup_machine_run:
  "foldl (\<lambda>(seen, obj) p. (seen @ [p], fst (cleanup_pass clk api E ev cl obj p))) (seen, obj) ps =
     (seen @ ps, cleanup_passes clk api E ev cl ps obj)"
  by (induction ps arbitrary: seen obj) (auto simp: cleanup_passes_def)

lemma passes_stamp_when_met:
  assumes "merge_patch_law api" "pending_since obj = None"
  shows "stamped_when_met clk E ev cl ps (cleanup_passes clk api E ev cl ps obj)"
proof -
  have "stamped_when_met clk E ev cl [] obj"
    by (simp add: stamped_when_met_def assms(2))
  with cleanup.inv_foldl [of clk E ev cl "([], obj)" api ps] assms(1) show ?thesis
    by (simp add: cleanup_machine_run)
qed

lemma triggered_after_stamp:
  assumes "cl_delete_after cl > 0" "rfc3339_law clk" "rfc_years t"
    and "pending_since obj = None \<or> pending_since obj = Some (rfc_format clk t)"
    and "snd (cleanup_pass clk api E ev cl obj (now, data)) = Inr (True, w)"
  shows "cl_delete_after cl \<le> now_ns now - (t - t mod 1000000000)"
  using assms
  by (auto simp: cleanup_pass_def evaluateCleanup_def Let_def rfc3339_law_def PatchAnnotations_def
      HasCleanup_def split: if_splits option.splits)

section \<open>Lemmas: the item pipeline\<close>

lemma worker_queue_on_queue [step_simps]:
  "worker_queue gvk (on_queue gvk f k) = f (worker_queue gvk k)"
  by (simp add: worker_queue_def on_queue_def For_def split: option.splits)

lemma worker_queue_frame [step_simps]:
  "worker_queue g (on_crd_health gvk h k) = worker_queue g k"
  "worker_queue g (failedReconcile gvk k) = worker_queue g k"
  "worker_queue g (successReconcile gvk k) = worker_queue g k"
  "worker_queue g (k\<lparr>k_objects := os\<rparr>) = worker_queue g k"
  "worker_queue g (k\<lparr>k_posts := posts\<rparr>) = worker_queue g k"
  "worker_queue g (k\<lparr>k_metrics := ms\<rparr>) = worker_queue g k"
  by (simp_all add: worker_queue_def on_crd_health_def failedReconcile_def successReconcile_def
      split: option.splits)

lemma k_failed_frame [step_simps]:
  "k_failed (on_queue gvk f k) = k_failed k"
  "k_failed (on_crd_health gvk h k) = k_failed k"
  "k_failed (failedReconcile gvk k) = (k_failed k)(gvk := k_failed k gvk + 1)"
  "k_failed (successReconcile gvk k) = k_failed k"
  by (simp_all add: on_queue_def on_crd_health_def failedReconcile_def successReconcile_def split: option.splits)

lemma k_total_frame [step_simps]:
  "k_total (on_queue gvk f k) = k_total k"
  "k_total (on_crd_health gvk h k) = k_total k"
  "k_total (failedReconcile gvk k) = k_total k"
  "k_total (successReconcile gvk k) = (k_total k)(gvk := k_total k gvk + 1)"
  by (simp_all add: on_queue_def on_crd_health_def failedReconcile_def successReconcile_def split: option.splits)

lemma k_health_frame [step_simps]:
  "k_health (on_queue gvk f k) = k_health k"
  "k_health (on_crd_health gvk h k) = (k_health k)(gvk := h (k_health k gvk))"
  "k_health (failedReconcile gvk k) = k_health k"
  "k_health (successReconcile gvk k) = k_health k"
  by (simp_all add: on_queue_def on_crd_health_def failedReconcile_def successReconcile_def split: option.splits)

lemma k_rest_frame [step_simps]:
  "k_metrics (on_queue gvk f k) = k_metrics k"
  "k_metrics (on_crd_health gvk h k) = k_metrics k"
  "k_metrics (failedReconcile gvk k) = k_metrics k"
  "k_metrics (successReconcile gvk k) = k_metrics k"
  "k_reconcilers (on_queue gvk f k) = k_reconcilers k"
  "k_reconcilers (on_crd_health gvk h k) = k_reconcilers k"
  "k_reconcilers (failedReconcile gvk k) = k_reconcilers k"
  "k_reconcilers (successReconcile gvk k) = k_reconcilers k"
  "k_threshold (successReconcile gvk k) = k_threshold k"
  "k_threshold (on_queue gvk f k) = k_threshold k"
  "k_threshold (on_crd_health gvk h k) = k_threshold k"
  "k_threshold (failedReconcile gvk k) = k_threshold k"
  by (simp_all add: on_queue_def on_crd_health_def failedReconcile_def successReconcile_def split: option.splits)

text \<open>What a pass leaves alone: everything that belongs to another CRD.\<close>

definition others_kept :: "string \<Rightarrow> 'q controller \<Rightarrow> 'q controller \<Rightarrow> bool" where
  "others_kept gvk k k' \<longleftrightarrow>
     (\<forall>g. g \<noteq> gvk \<longrightarrow>
        For (k_registry k') g = For (k_registry k) g \<and> k_health k' g = k_health k g \<and>
        k_failed k' g = k_failed k g \<and> k_total k' g = k_total k g \<and> k_metrics k' g = k_metrics k g) \<and>
     (For (k_registry k') gvk = None) = (For (k_registry k) gvk = None) \<and>
     (For (k_registry k) gvk \<noteq> None \<longrightarrow> k_default k' = k_default k)"

lemma others_kept_refl [simp]: "others_kept gvk k k"
  by (simp add: others_kept_def)

lemma others_kept_steps [simp]:
  "others_kept gvk k (on_queue gvk f k') = others_kept gvk k k'"
  "others_kept gvk k (on_crd_health gvk h k') = others_kept gvk k k'"
  "others_kept gvk k (failedReconcile gvk k') = others_kept gvk k k'"
  "others_kept gvk k (successReconcile gvk k') = others_kept gvk k k'"
  "others_kept gvk k (k'\<lparr>k_objects := os\<rparr>) = others_kept gvk k k'"
  "others_kept gvk k (k'\<lparr>k_posts := posts\<rparr>) = others_kept gvk k k'"
  by (auto simp: others_kept_def on_queue_def on_crd_health_def failedReconcile_def successReconcile_def
      For_def split: option.splits)

text \<open>What becomes of an item, and the queue operations it stands for.\<close>

datatype fate = Kept | Dropped | Retried | Delayed int

fun settle :: "'q client_queue \<Rightarrow> queue_item \<Rightarrow> fate \<Rightarrow> 'q workqueue \<Rightarrow> 'q workqueue" where
  "settle ops item Kept wq = wq"
| "settle ops item Dropped wq = Forget ops item wq"
| "settle ops item Retried wq = AddRateLimited ops item wq"
| "settle ops item (Delayed d) wq = AddAfter ops item d (Forget ops item wq)"

lemma settle_payload:
  "Sentinels (settle ops item f wq) item =
     (case f of Kept \<Rightarrow> Sentinels wq item | Retried \<Rightarrow> Sentinels wq item | _ \<Rightarrow> None)"
  by (cases f) (simp_all add: Sentinels_def Forget_def AddRateLimited_def AddAfter_def cloneSentinels_def)

text \<open>
  The result of a pass over an item: its fate, whether the failure and the success counter
  went up, and the frame.
\<close>

definition settled ::
  "'q client_queue \<Rightarrow> string \<Rightarrow> queue_item \<Rightarrow> 'q controller \<Rightarrow> 'q controller \<Rightarrow> fate \<Rightarrow> int \<Rightarrow> int \<Rightarrow> bool" where
  "settled ops gvk item k k' f failures successes \<longleftrightarrow>
     worker_queue gvk k' = settle ops item f (worker_queue gvk k) \<and>
     k_failed k' gvk = k_failed k gvk + failures \<and>
     k_total k' gvk = k_total k gvk + successes \<and> others_kept gvk k k'"

lemma reconcile_item_settled:
  "\<exists>f s. settled ops gvk item k (reconcile_item ops ps gvk item rec prepared k) f (if f = Retried then 1 else 0) s \<and>
     f \<noteq> Kept \<and> s = (if f = Retried then 0 else 1)"
proof -
  obtain k1 r err where sr: "safeReconcile (now_ns (ps_now ps)) rec gvk (qi_key item) prepared k = (k1, r, err)"
    by (metis surj_pair)
  have k1: "worker_queue gvk k1 = worker_queue gvk k" "k_failed k1 = k_failed k" "others_kept gvk k k1"
    "k_total k1 gvk = k_total k gvk + (if err = None then 1 else 0)"
    using sr by (auto simp: safeReconcile_def Let_def step_simps split: outcome.splits option.splits)
  let ?d = "resolveRequeueAfter ps r prepared"
  let ?f = "if err \<noteq> None then Retried else if 0 \<le> ?d then Delayed ?d else Dropped"
  have "settled ops gvk item k (reconcile_item ops ps gvk item rec prepared k) ?f
      (if ?f = Retried then 1 else 0) (if ?f = Retried then 0 else 1)"
    using k1 by (simp add: reconcile_item_def sr settled_def runPost_def Let_def step_simps split: option.splits)
  then show ?thesis by (intro exI [of _ ?f]) simp
qed

lemma maintain_item_settled:
  "\<exists>f s. settled ops gvk item k (maintain_item ops clk E ps gvk item rec p k) f (if f = Retried then 1 else 0) s \<and>
     f \<noteq> Kept \<and> 0 \<le> s \<and> s \<le> 1"
proof -
  obtain obj cl where ec: "evaluateCleanup clk (ps_api ps) E (ps_now ps) (pr_data p) (pr_eval p)
      (pr_cleanup p) (pr_object p) = (obj, cl)"
    by (metis surj_pair)
  let ?k1 = "k\<lparr>k_objects := (k_objects k)(qi_key item \<mapsto> obj)\<rparr>"
  note rec = reconcile_item_settled [of ops gvk item ?k1 ps rec "Some (p\<lparr>pr_object := obj\<rparr>)"]
  have counters: "k_failed ?k1 = k_failed k" "k_total ?k1 = k_total k" "others_kept gvk ?k1 = others_kept gvk k"
    by (simp_all add: others_kept_def fun_eq_iff)
  show ?thesis
  proof (cases cl)
    case (Inl e)
    then have "settled ops gvk item k (maintain_item ops clk E ps gvk item rec p k) Retried 1 0"
      by (simp add: maintain_item_def ec settled_def retry_item_def Let_def step_simps)
    then show ?thesis by (intro exI [of _ Retried] exI [of _ 0]) simp
  next
    case (Inr tw)
    obtain tr w where tw: "tw = (tr, w)" by (cases tw)
    consider "w > 0" | "w \<le> 0" "ps_maintain ps tr \<noteq> None" | "w \<le> 0" "ps_maintain ps tr = None" "tr"
      | "w \<le> 0" "ps_maintain ps tr = None" "\<not> tr"
      by fastforce
    then show ?thesis
    proof cases
      case 1
      then have "settled ops gvk item k (maintain_item ops clk E ps gvk item rec p k) (Delayed w) 0 0"
        by (simp add: maintain_item_def ec settled_def Inr tw Let_def step_simps)
      then show ?thesis by (intro exI [of _ "Delayed w"] exI [of _ 0]) simp
    next
      case 2
      then have "settled ops gvk item k (maintain_item ops clk E ps gvk item rec p k) Retried 1 0"
        by (simp add: maintain_item_def ec settled_def retry_item_def Inr tw Let_def step_simps)
      then show ?thesis by (intro exI [of _ Retried] exI [of _ 0]) simp
    next
      case 3
      obtain obj' e where del: "deleteCR (ps_api ps) obj = (obj', e)" by (metis surj_pair)
      have "settled ops gvk item k (maintain_item ops clk E ps gvk item rec p k)
          (if e = None then Dropped else Retried) (if e = None then 0 else 1) (if e = None then 1 else 0)"
        using 3 by (simp add: maintain_item_def ec settled_def retry_item_def Inr tw del Let_def step_simps
            split: option.splits)
      then show ?thesis
        by (intro exI [of _ "if e = None then Dropped else Retried"] exI [of _ "if e = None then 1 else 0"])
          (auto split: if_splits)
    next
      case 4
      then have "maintain_item ops clk E ps gvk item rec p k =
          reconcile_item ops ps gvk item rec (Some (p\<lparr>pr_object := obj\<rparr>)) ?k1"
        by (simp add: maintain_item_def ec Inr tw Let_def)
      with rec show ?thesis
        by (fastforce simp: settled_def counters step_simps)
    qed
  qed
qed

lemma processItem_settled:
  "\<exists>f d s. settled ops gvk item k (processItemForGVK ops clk E ps gvk item k) f d s \<and>
     (f = Kept) = ps_cancelled ps \<and> 0 \<le> s \<and> s \<le> 1 \<and>
     d = (if f = Retried \<and> qi_gvk item = gvk then 1 else 0) \<and>
     (f = Retried \<longrightarrow> qi_gvk item = gvk \<or> For (k_registry k) gvk = None)"
proof -
  let ?k' = "processItemForGVK ops clk E ps gvk item k"
  have here: ?thesis if "settled ops gvk item k ?k' f (if f = Retried \<and> qi_gvk item = gvk then 1 else 0) s"
    "(f = Kept) = ps_cancelled ps" "0 \<le> s" "s \<le> 1"
    "f = Retried \<Longrightarrow> qi_gvk item = gvk \<or> For (k_registry k) gvk = None" for f s
    using that by blast
  show ?thesis
  proof (cases "ps_cancelled ps \<or> qi_key item = drainSentinel \<or> qi_gvk item \<noteq> gvk \<or> k_reconcilers k gvk = None")
    case True
    let ?f = "if ps_cancelled ps then Kept else if qi_key item \<noteq> drainSentinel \<and> qi_gvk item \<noteq> gvk \<and>
      For (k_registry k) gvk = None then Retried else Dropped"
    from True have "settled ops gvk item k ?k' ?f 0 0"
      by (auto simp: processItemForGVK_def settled_def step_simps split: option.splits)
    then show ?thesis by (intro here [of ?f 0]) (auto split: if_splits)
  next
    case False
    then obtain rec where rec: "k_reconcilers k gvk = Some rec" by auto
    note go = False rec
    show ?thesis
    proof (cases "ps_entry ps")
      case None
      with go have eq: "?k' = reconcile_item ops ps gvk item rec None k"
        by (simp add: processItemForGVK_def)
      obtain f s where "settled ops gvk item k ?k' f (if f = Retried then 1 else 0) s" "f \<noteq> Kept"
        "s = (if f = Retried then 0 else 1)"
        unfolding eq using reconcile_item_settled by blast
      with go show ?thesis by (intro here [of f s]) auto
    next
      case (Some has_gate)
      obtain gated reason where gate: "(if has_gate then evaluatePreReconcileCheck ps (Sentinels (worker_queue gvk k) item)
          else (False, [])) = (gated, reason)"
        by (metis surj_pair)
      show ?thesis
      proof (cases "\<not> gated \<and> (\<exists>p. ps_prepare ps = Inr (Some p))")
        case True
        then obtain p where p: "\<not> gated" "ps_prepare ps = Inr (Some p)" by blast
        with go Some gate have eq: "?k' = maintain_item ops clk E ps gvk item rec p k"
          by (simp add: processItemForGVK_def)
        obtain f s where "settled ops gvk item k ?k' f (if f = Retried then 1 else 0) s" "f \<noteq> Kept" "0 \<le> s" "s \<le> 1"
          unfolding eq using maintain_item_settled by blast
        with go show ?thesis by (intro here [of f s]) auto
      next
        case False
        let ?f = "if gated then Dropped else case ps_prepare ps of Inl _ \<Rightarrow> Retried | Inr _ \<Rightarrow> Dropped"
        from False go Some gate
        have "settled ops gvk item k ?k' ?f (if ?f = Retried \<and> qi_gvk item = gvk then 1 else 0) 0"
          by (auto simp: processItemForGVK_def settled_def retry_item_def Let_def step_simps
              split: sum.splits option.splits)
        with go show ?thesis by (intro here [of ?f 0]) (auto split: sum.splits)
      qed
    qed
  qed
qed

text \<open>The worker counts of a CRD are touched by the loop only.\<close>

definition worker_counts :: "crd_health \<Rightarrow> int \<times> int \<times> int" where
  "worker_counts h = (h_total_workers h, h_idle_workers h, h_processing_workers h)"

lemma worker_counts_frame [step_simps]:
  "worker_counts (RecordSuccess now h) = worker_counts h"
  "worker_counts (RecordFailure now e th h) = worker_counts h"
  "worker_counts (RecordGated r h) = worker_counts h"
  by (simp_all add: worker_counts_def RecordSuccess_def RecordFailure_def RecordGated_def Let_def)

lemma worker_counts_step [step_simps]:
  "worker_counts (MarkWorkerIdle w h) =
     (case worker_counts h of (t, i, p) \<Rightarrow> (t, i + 1, p - 1))"
  "worker_counts (MarkWorkerProcessing w h) =
     (case worker_counts h of (t, i, p) \<Rightarrow> (t, i - 1, p + 1))"
  by (simp_all add: worker_counts_def MarkWorkerIdle_def MarkWorkerProcessing_def)

text \<open>The health event of the call of a reconciler.\<close>

fun outcome_event :: "int \<Rightarrow> outcome \<Rightarrow> health_event" where
  "outcome_event now (Panicked msg) = HFailure now (''reconciler panic: '' @ msg)"
| "outcome_event now (Returned r (Some e)) = HFailure now e"
| "outcome_event now (Returned r None) = HSuccess now"

lemma outcome_is_reconcile [simp]: "is_reconcile (outcome_event now oc)"
  by (cases "(now, oc)" rule: outcome_event.cases) auto

lemma reconcile_item_health:
  "k_health (reconcile_item ops ps gvk item rec prepared k) =
     (k_health k)(gvk := health_step (k_threshold k gvk) (k_health k gvk)
        (outcome_event (now_ns (ps_now ps)) (rec (qi_key item) prepared)))"
  by (auto simp: reconcile_item_def safeReconcile_def runPost_def Let_def step_simps
      split: outcome.splits option.splits)

lemma maintain_item_health:
  "\<exists>es. list_all is_reconcile es \<and> k_health (maintain_item ops clk E ps gvk item rec p k) =
     (k_health k)(gvk := foldl (health_step (k_threshold k gvk)) (k_health k gvk) es)"
proof -
  have none: ?thesis if "k_health (maintain_item ops clk E ps gvk item rec p k) = k_health k"
    using that by (intro exI [of _ "[]"]) simp
  obtain obj cl where ec: "evaluateCleanup clk (ps_api ps) E (ps_now ps) (pr_data p) (pr_eval p)
      (pr_cleanup p) (pr_object p) = (obj, cl)"
    by (metis surj_pair)
  show ?thesis
  proof (cases "case cl of Inl _ \<Rightarrow> False | Inr (tr, w) \<Rightarrow> \<not> tr \<and> w \<le> 0 \<and> ps_maintain ps False = None")
    case True
    let ?e = "outcome_event (now_ns (ps_now ps)) (rec (qi_key item) (Some (p\<lparr>pr_object := obj\<rparr>)))"
    from True ec show ?thesis
      by (intro exI [of _ "[?e]"])
        (auto simp: maintain_item_def Let_def reconcile_item_health split: sum.splits)
  next
    case False
    then show ?thesis
      by (intro none) (auto simp: maintain_item_def ec retry_item_def Let_def step_simps
          split: sum.splits option.splits prod.splits)
  qed
qed

lemma processItem_health:
  "\<exists>es. list_all is_reconcile es \<and> k_health (processItemForGVK ops clk E ps gvk item k) =
     (k_health k)(gvk := foldl (health_step (k_threshold k gvk)) (k_health k gvk) es)"
proof -
  have none: "\<exists>es. list_all is_reconcile es \<and>
      k_health k = (k_health k)(gvk := foldl (health_step (k_threshold k gvk)) (k_health k gvk) es)"
    by (rule exI [of _ "[]"]) simp
  have gated: "\<exists>es. list_all is_reconcile es \<and> (k_health k)(gvk := RecordGated r (k_health k gvk)) =
      (k_health k)(gvk := foldl (health_step (k_threshold k gvk)) (k_health k gvk) es)" for r
    by (rule exI [of _ "[HGated r]"]) simp
  have rec: "\<exists>es. list_all is_reconcile es \<and> k_health (reconcile_item ops ps gvk item rec None k) =
      (k_health k)(gvk := foldl (health_step (k_threshold k gvk)) (k_health k gvk) es)" for rec
  proof -
    let ?e = "outcome_event (now_ns (ps_now ps)) (rec (qi_key item) None)"
    show ?thesis by (intro exI [of _ "[?e]"]) (simp add: reconcile_item_health)
  qed
  show ?thesis
    using none gated rec maintain_item_health [of ops clk E ps gvk item _ _ k]
    by (simp add: processItemForGVK_def retry_item_def Let_def step_simps
        split: option.split sum.split prod.split)
qed

lemma worker_counts_processItem:
  "worker_counts (k_health (processItemForGVK ops clk E ps gvk item k) g) = worker_counts (k_health k g)"
proof -
  obtain es where es: "list_all is_reconcile es" "k_health (processItemForGVK ops clk E ps gvk item k) =
     (k_health k)(gvk := foldl (health_step (k_threshold k gvk)) (k_health k gvk) es)"
    using processItem_health by blast
  have "worker_counts (foldl (health_step th) h es) = worker_counts h" for th h
    using es(1)
  proof (induction es arbitrary: h)
    case (Cons e es)
    then show ?case by (cases e) (simp_all add: step_simps)
  qed simp
  with es(2) show ?thesis by simp
qed

section \<open>Properties\<close>

text \<open>
  C1. A worker settles every item it takes in exactly one way: the item is left alone (only when
  the context is cancelled), dropped, retried with back-off, or dropped and scheduled again.
  A retry belongs to the worker's own CRD, and then counts one failed reconcile, or is a
  foreign item in the shared default queue; the sentinel payload survives just the first and
  third fate; at most one success is counted.
\<close>
theorem item_is_settled_once:
  "\<exists>f. let k' = processItemForGVK ops clk E ps gvk item k in
     worker_queue gvk k' = settle ops item f (worker_queue gvk k) \<and>
     (f = Kept) = ps_cancelled ps \<and>
     k_failed k' gvk = k_failed k gvk + (if f = Retried \<and> qi_gvk item = gvk then 1 else 0) \<and>
     (f \<noteq> Retried \<or> qi_gvk item = gvk \<or> For (k_registry k) gvk = None) \<and>
     k_total k' gvk \<in> {k_total k gvk, k_total k gvk + 1} \<and>
     Sentinels (worker_queue gvk k') item =
       (case f of Kept \<Rightarrow> Sentinels (worker_queue gvk k) item
        | Retried \<Rightarrow> Sentinels (worker_queue gvk k) item | _ \<Rightarrow> None)"
proof -
  obtain f d s where f: "settled ops gvk item k (processItemForGVK ops clk E ps gvk item k) f d s"
    "(f = Kept) = ps_cancelled ps" "0 \<le> s" "s \<le> 1"
    "d = (if f = Retried \<and> qi_gvk item = gvk then 1 else 0)"
    "f = Retried \<longrightarrow> qi_gvk item = gvk \<or> For (k_registry k) gvk = None"
    using processItem_settled by blast
  have "s = 0 \<or> s = 1" using f(3,4) by linarith
  with f show ?thesis
    by (intro exI [of _ f]) (auto simp: settled_def Let_def settle_payload)
qed

text \<open>
  One CRD's worker cannot touch another CRD: whatever its reconciler does, an error, a panic
  or a success, a turn of the worker loop leaves the other CRDs' queues, health, counters and
  metrics as they were, and the default queue too when the CRD has a queue of its own.
\<close>
lemma worker_turn_is_isolated:
  assumes "worker_turn ops clk E ps gvk wid k = Some (item, k')" "g \<noteq> gvk"
  shows "For (k_registry k') g = For (k_registry k) g \<and> k_health k' g = k_health k g \<and>
     k_failed k' g = k_failed k g \<and> k_total k' g = k_total k g \<and> k_metrics k' g = k_metrics k g \<and>
     (For (k_registry k) gvk = None \<or> k_default k' = k_default k)"
proof -
  obtain wq where turn: "Get ops (worker_queue gvk k) = Some (item, wq)"
    using assms(1) by (auto simp: worker_turn_def Let_def split: option.splits prod.splits)
  let ?k1 = "on_crd_health gvk (MarkWorkerProcessing wid) (on_queue gvk (\<lambda>_. wq) k)"
  let ?k2 = "processItemForGVK ops clk E ps gvk item ?k1"
  have "others_kept gvk ?k1 ?k2"
    using processItem_settled [of ops gvk item ?k1 clk E ps] by (auto simp: settled_def)
  moreover have "others_kept gvk k ?k1" by simp
  ultimately have "others_kept gvk k ?k2" by (auto simp: others_kept_def)
  then have "others_kept gvk k (on_crd_health gvk (MarkWorkerIdle wid) (on_queue gvk (Done ops item) ?k2))"
    by simp
  with assms turn show ?thesis
    by (auto simp: worker_turn_def Let_def others_kept_def)
qed

text \<open>
  A turn of the worker loop is balanced: the idle and busy counts of the CRD are the ones
  before the turn, and the worker is idle afterwards, however the item was settled.
\<close>
lemma worker_turn_is_balanced:
  assumes "worker_turn ops clk E ps gvk wid k = Some (item, k')"
  shows "h_idle_workers (k_health k' gvk) = h_idle_workers (k_health k gvk)
    \<and> h_processing_workers (k_health k' gvk) = h_processing_workers (k_health k gvk)
    \<and> h_total_workers (k_health k' gvk) = h_total_workers (k_health k gvk)
    \<and> h_worker_states (k_health k' gvk) wid = Some ''idle''"
proof -
  obtain wq where turn: "Get ops (worker_queue gvk k) = Some (item, wq)"
    using assms by (auto simp: worker_turn_def Let_def split: option.splits prod.splits)
  let ?k1 = "on_crd_health gvk (MarkWorkerProcessing wid) (on_queue gvk (\<lambda>_. wq) k)"
  let ?k2 = "processItemForGVK ops clk E ps gvk item ?k1"
  have k': "k_health k' gvk = MarkWorkerIdle wid (k_health ?k2 gvk)"
    using assms turn by (auto simp: worker_turn_def Let_def step_simps)
  have k2: "worker_counts (k_health ?k2 gvk) = worker_counts (MarkWorkerProcessing wid (k_health k gvk))"
    by (simp add: worker_counts_processItem step_simps)
  have "worker_counts (k_health k' gvk) = worker_counts (k_health k gvk)"
    by (cases "worker_counts (k_health k gvk)") (simp add: k' k2 step_simps)
  then show ?thesis
    by (simp add: worker_counts_def k' MarkWorkerIdle_def)
qed

text \<open>
  C18. The grace period is honoured: a resource without a stamp that is deleted by the cleanup gate
  after some passes met the conditions in an earlier pass, at least \<^verbatim>\<open>deleteAfter\<close> less one
  second ago (stamps are whole seconds), for an API server that merges patches.
\<close>
theorem cleanup_honours_grace_period:
  assumes "merge_patch_law api" "rfc3339_law clk" "cl_delete_after cl > 0" "pending_since obj = None"
    and "list_all (\<lambda>p. rfc_years (now_ns (fst p))) ps"
    and "snd (cleanup_pass clk api E ev cl (cleanup_passes clk api E ev cl ps obj) (now, data)) = Inr (True, w)"
  shows "\<exists>p \<in> set ps. conditions_met E ev cl p \<and>
    cl_delete_after cl - 1000000000 < now_ns now - now_ns (fst p)"
proof -
  let ?obj = "cleanup_passes clk api E ev cl ps obj"
  have inv: "stamped_when_met clk E ev cl ps ?obj"
    by (rule passes_stamp_when_met [OF assms(1,4)])
  show ?thesis
  proof (cases "pending_since ?obj")
    case None
    with assms(3,6) show ?thesis
      by (auto simp: cleanup_pass_def evaluateCleanup_def Let_def PatchAnnotations_def
          split: if_splits option.splits)
  next
    case (Some s)
    with inv obtain p where p: "p \<in> set ps" "conditions_met E ev cl p" "s = rfc_format clk (now_ns (fst p))"
      by (auto simp: stamped_when_met_def)
    let ?t = "now_ns (fst p)"
    have "cl_delete_after cl \<le> now_ns now - (?t - ?t mod 1000000000)"
      using triggered_after_stamp [where t = ?t and obj = ?obj] assms(2,3,5,6) Some p(1,3)
      by (simp add: list_all_iff)
    moreover have "?t mod 1000000000 < 1000000000" by simp
    ultimately have "cl_delete_after cl - 1000000000 < now_ns now - ?t" by linarith
    with p show ?thesis by blast
  qed
qed

text \<open>
  The grace period never restarts: once the resource is stamped, the stamp outlives every
  pass, also those whose conditions do not hold and which mean to remove it, since a merge
  patch that omits the annotation does not delete it.  When the conditions hold again the
  resource is deleted as soon as \<^verbatim>\<open>deleteAfter\<close> has passed since the first stamp.
\<close>
lemma cleanup_clock_never_resets:
  assumes "merge_patch_law api" "pending_since obj = Some stamp" "rfc_parse clk stamp = Some since"
    and "HasCleanup (Some cl)" "conditions_met E ev cl (now, data)"
    and "cl_delete_after cl \<le> now_ns now - since"
  shows "pending_since (cleanup_passes clk api E ev cl ps obj) = Some stamp
    \<and> snd (cleanup_pass clk api E ev cl (cleanup_passes clk api E ev cl ps obj) (now, data)) = Inr (True, 0)"
proof -
  have stamp: "pending_since (cleanup_passes clk api E ev cl ps obj) = Some stamp"
    using assms(2)
  proof (induction ps arbitrary: obj)
    case (Cons p ps)
    from pass_keeps_stamp [OF assms(1) Cons.prems] Cons.IH show ?case
      by (simp add: cleanup_passes_def)
  qed (simp add: cleanup_passes_def)
  with assms show ?thesis
    by (simp add: cleanup_pass_def evaluateCleanup_def conditions_met_def Let_def)
qed

text \<open>A controller with one CRD \<^verbatim>\<open>db\<close>, its queue holding one item, and a pass, for the witnesses.\<close>

definition sample_item :: queue_item where
  "sample_item = normal_item ''ns/a'' ''db''"

definition busy_lq :: list_queue where
  "busy_lq = \<lparr>lq_queue = [sample_item], lq_dirty = [sample_item], lq_processing = []\<rparr>"

definition sample_controller :: "reconciler \<Rightarrow> list_queue controller" where
  "sample_controller rec =
     \<lparr>k_registry = fst (Register busy_lq ''db'' None NewQueueRegistry),
      k_default = NewWorkqueue empty_lq [], k_threshold = (\<lambda>_. 3), k_health = NewCRDHealth,
      k_reconcilers = [''db'' \<mapsto> rec], k_metrics = Map.empty, k_total = (\<lambda>_. 0), k_failed = (\<lambda>_. 0),
      k_posts = [], k_objects = Map.empty\<rparr>"

definition sample_api :: api_server where
  "sample_api = \<lparr>api_merge = (\<lambda>s b. s ++ b), api_patch_error = None, api_delete_error = None\<rparr>"

definition sample_rfc :: rfc3339 where
  "sample_rfc =
     \<lparr>rfc_format = (\<lambda>t. format_int (t div 1000000000)),
      rfc_parse = (\<lambda>s. map_option (\<lambda>i. i * 1000000000) (parse_int64 s))\<rparr>"

lemma sample_rfc_law: "rfc3339_law sample_rfc"
proof -
  have "parse_int64 (format_int (t div 1000000000)) = Some (t div 1000000000)" if "rfc_years t" for t
    using that by (intro parse_format_int) (auto simp: rfc_years_def)
  then show ?thesis
    by (simp add: rfc3339_law_def sample_rfc_def minus_mod_eq_div_mult)
qed

lemma sample_merge_law: "merge_patch_law sample_api"
  by (simp add: merge_patch_law_def sample_api_def)

definition done_cleanup :: cleanup_config where
  "done_cleanup =
     \<lparr>cl_when = [no_condition\<lparr>c_field := ''phase'', c_equals := ''Done''\<rparr>], cl_or = [],
      cl_delete_after = 600000000000\<rparr>"

definition in_phase :: "string \<Rightarrow> gmap" where
  "in_phase s = [''phase'' \<mapsto> VStr s]"

lemma done_cleanup_met:
  "EvaluateConditions sample_env now (in_phase s) (cl_when done_cleanup) (cl_or done_cleanup) None = (s = ''Done'')"
  by (simp add: EvaluateConditions_def done_cleanup_def EvaluateOneCond_def evaluateOneCond_def no_condition_def
      ResolveConditionOp_def resolve_expected_def IsTemplate_def NavigateDotPath_def typesSplitDot_eq
      in_phase_def typeContains_def)

definition sample_prepared :: "string \<Rightarrow> prepared_request" where
  "sample_prepared phase =
     \<lparr>pr_object = \<lparr>cr_key = ''ns/a'', cr_annotations = None, cr_deleting = False,
                   cr_server = Map.empty, cr_deleted = False\<rparr>,
      pr_cleanup = Some done_cleanup, pr_data = in_phase phase, pr_eval = None\<rparr>"

definition sample_pass :: "string \<Rightarrow> pass" where
  "sample_pass phase =
     \<lparr>ps_cancelled = False, ps_now = sample_time 12 0, ps_api = sample_api, ps_entry = Some False,
      ps_has_object = True, ps_allowed = (\<lambda>_. (True, [])), ps_prepare = Inr (Some (sample_prepared phase)),
      ps_maintain = (\<lambda>_. None), ps_requeue = 0\<rparr>"

definition panics :: reconciler where
  "panics = (\<lambda>key p. Panicked ''index out of range'')"

definition succeeds :: reconciler where
  "succeeds = (\<lambda>key p. Returned zero_result None)"

lemma sample_worker_queue: "wq_queue (worker_queue ''db'' (sample_controller rec)) = busy_lq"
  by (simp add: worker_queue_def sample_controller_def Register_def NewQueueRegistry_def For_def
      NewWorkqueue_def Let_def)

lemma sample_queue_get:
  "Get list_queue_ops (worker_queue ''db'' (sample_controller rec)) =
     Some (sample_item, (worker_queue ''db'' (sample_controller rec))
       \<lparr>wq_queue := \<lparr>lq_queue = [], lq_dirty = [], lq_processing = [sample_item]\<rparr>\<rparr>)"
  by (simp add: worker_queue_def sample_controller_def Register_def NewQueueRegistry_def For_def
      NewWorkqueue_def Get_def list_queue_ops_def lq_get_def busy_lq_def Let_def)

lemma sample_turn:
  "\<exists>k'. worker_turn list_queue_ops sample_rfc sample_env (sample_pass s) ''db'' ''w0'' (sample_controller rec) =
     Some (sample_item, k')"
  by (simp add: worker_turn_def sample_queue_get Let_def)

theorem item_is_settled_once_witness:
  "\<exists>f. f \<noteq> Kept \<and>
     worker_queue ''db'' (processItemForGVK list_queue_ops sample_rfc sample_env (sample_pass ''Running'') ''db''
       sample_item (sample_controller panics)) =
     settle list_queue_ops sample_item f (worker_queue ''db'' (sample_controller panics))"
proof -
  have "\<not> ps_cancelled (sample_pass ''Running'')" by (simp add: sample_pass_def)
  then show ?thesis
    using item_is_settled_once [of list_queue_ops sample_rfc sample_env "sample_pass ''Running''" "''db''"
        sample_item "sample_controller panics"]
    unfolding Let_def by blast
qed

definition at_second :: "int \<Rightarrow> gotime" where
  "at_second s = (sample_time 0 0)\<lparr>now_ns := s * 1000000000\<rparr>"

lemma now_at_second [simp]: "now_ns (at_second s) = s * 1000000000"
  by (simp add: at_second_def)

lemma done_cleanup_simps [simp]:
  "cl_delete_after done_cleanup = 600000000000" "HasCleanup (Some done_cleanup)"
  by (simp_all add: done_cleanup_def HasCleanup_def)

text \<open>Stamped at second 1000, the conditions hold again at second 1700.\<close>

theorem cleanup_honours_grace_period_witness:
  "\<exists>p \<in> set [(at_second 1000, in_phase ''Done'')]. conditions_met sample_env None done_cleanup p"
proof -
  let ?obj = "pr_object (sample_prepared [])"
  let ?stamped = "cleanup_passes sample_rfc sample_api sample_env None done_cleanup
    [(at_second 1000, in_phase ''Done'')] ?obj"
  have law: "rfc_parse sample_rfc (rfc_format sample_rfc 1000000000000) = Some 1000000000000"
    using sample_rfc_law by (simp add: rfc3339_law_def rfc_years_def)
  have stamp: "cr_server ?stamped = [cleanupPendingAnnotation \<mapsto> rfc_format sample_rfc 1000000000000]"
    by (simp add: cleanup_passes_def cleanup_pass_def evaluateCleanup_def done_cleanup_met
        PatchAnnotations_def sample_api_def sample_prepared_def Let_def)
  have "snd (cleanup_pass sample_rfc sample_api sample_env None done_cleanup ?stamped
      (at_second 1700, in_phase ''Done'')) = Inr (True, 0)"
    by (simp add: cleanup_pass_def evaluateCleanup_def done_cleanup_met stamp law Let_def)
  from cleanup_honours_grace_period [OF sample_merge_law sample_rfc_law _ _ _ this]
  have "\<exists>p \<in> set [(at_second 1000, in_phase ''Done'')]. conditions_met sample_env None done_cleanup p \<and>
      cl_delete_after done_cleanup - 1000000000 < now_ns (at_second 1700) - now_ns (fst p)"
    by (simp add: rfc_years_def sample_prepared_def)
  then show ?thesis by blast
qed

text \<open>
  A CRD that declares a cleanup block is reconciled in a tight loop: while the cleanup
  conditions do not hold and every reconcile succeeds, each turn of the worker puts its item
  back in the queue without delay, so that the queue is the one before the turn.
\<close>
lemma cleanup_requeues_at_once:
  assumes "\<not> ps_cancelled ps" "ps_entry ps = Some False" "ps_prepare ps = Inr (Some p)"
    and "pr_cleanup p = Some cl" "HasCleanup (Some cl)" "ps_maintain ps False = None" "ps_requeue ps \<le> 0"
    and "\<not> EvaluateConditions E (ps_now ps) (pr_data p) (cl_when cl) (cl_or cl) (pr_eval p)"
    and "cr_annotations (pr_object p) = None"
    and "k_reconcilers k gvk = Some (\<lambda>_ _. Returned result None)" "rr_requeue_after result \<le> 0"
    and "item = normal_item key gvk" "key \<noteq> drainSentinel"
    and "wq_queue (worker_queue gvk k) = \<lparr>lq_queue = [item], lq_dirty = [item], lq_processing = []\<rparr>"
  shows "\<exists>k'. worker_turn list_queue_ops clk E ps gvk wid k = Some (item, k') \<and>
    wq_queue (worker_queue gvk k') = wq_queue (worker_queue gvk k)"
proof -
  let ?busy = "\<lparr>lq_queue = [], lq_dirty = [], lq_processing = [item]\<rparr>"
  have get: "Get list_queue_ops (worker_queue gvk k) = Some (item, (worker_queue gvk k)\<lparr>wq_queue := ?busy\<rparr>)"
    using assms(14) by (simp add: Get_def list_queue_ops_def lq_get_def)
  have gate: "evaluateCleanup clk (ps_api ps) E (ps_now ps) (pr_data p) (pr_eval p) (pr_cleanup p) (pr_object p) =
      (pr_object p, Inr (False, 0))"
    using assms(4,5,8,9) by (simp add: evaluateCleanup_def)
  have delay: "resolveRequeueAfter ps result (Some p) = 0"
    using assms(2,4,5,7,11) by (simp add: resolveRequeueAfter_def)
  have add: "wq_queue (Done list_queue_ops item (AddAfter list_queue_ops item 0 (Forget list_queue_ops item
      ((worker_queue gvk k)\<lparr>wq_queue := ?busy\<rparr>)))) = \<lparr>lq_queue = [item], lq_dirty = [item], lq_processing = []\<rparr>"
    by (simp add: Done_def AddAfter_def Forget_def list_queue_ops_def lq_add_def lq_done_def Let_def)
  show ?thesis
    using assms get gate delay add
    by (simp add: worker_turn_def processItemForGVK_def maintain_item_def reconcile_item_def safeReconcile_def
        runPost_def normal_item_def Let_def step_simps)
qed

end
