(* ===== verification/Namespaces.thy ===== *)
theory Namespaces
  imports GoLib GoValues
begin

text \<open>
  Where a CRD's resources may live: the namespace lists of \<^verbatim>\<open>pkg/types/ns_restricted.go\<close>,
  \<^verbatim>\<open>ns_allowed.go\<close> and \<^verbatim>\<open>methods.go\<close>, and the three guards that read them, of the prepare stage
  (\<^verbatim>\<open>prepare/namespace.go\<close>), of the informer (\<^verbatim>\<open>informer/namespace_filter.go\<close>) and of the
  admission webhook (\<^verbatim>\<open>gateway/webhook/namespace_protection.go\<close>).
\<close>

section \<open>Namespace lists\<close>

definition MatchesPattern :: "string \<Rightarrow> string \<Rightarrow> bool" where
  "MatchesPattern ns pattern =
     (if pattern = ns then True
      else if str_has_suffix pattern ''*'' then str_has_prefix ns (trim_suffix pattern ''*'')
      else if str_has_prefix pattern ''*'' then str_has_suffix ns (trim_prefix pattern ''*'')
      else False)"

fun IsRestricted :: "string list \<Rightarrow> string \<Rightarrow> bool" where
  "IsRestricted [] ns = False"
| "IsRestricted (p # ps) ns = (if MatchesPattern ns p then True else IsRestricted ps ns)"

fun allowed_loop :: "string list \<Rightarrow> string \<Rightarrow> bool" where
  "allowed_loop [] ns = False"
| "allowed_loop (p # ps) ns = (if MatchesPattern ns p then True else allowed_loop ps ns)"

definition IsAllowed :: "string list \<Rightarrow> string \<Rightarrow> bool" where
  "IsAllowed a ns = (if length a = 0 then True else allowed_loop a ns)"

text \<open>One loop of \<^verbatim>\<open>Merge\<close>: \<open>seen\<close> is the map, \<open>merged\<close> the result so far.\<close>

fun merge_loop :: "string set \<Rightarrow> string list \<Rightarrow> string list \<Rightarrow> string set \<times> string list" where
  "merge_loop seen merged [] = (seen, merged)"
| "merge_loop seen merged (n # ns) =
     (if n \<notin> seen then merge_loop (insert n seen) (merged @ [n]) ns else merge_loop seen merged ns)"

definition Merge :: "string list \<Rightarrow> string list \<Rightarrow> string list" where
  "Merge r other = (let (seen, merged) = merge_loop {} [] r in snd (merge_loop seen merged other))"

section \<open>The guard of the prepare stage\<close>

record namespace_guard_result =
  ng_allowed :: bool
  ng_namespace :: string
  ng_pattern :: string
  ng_reason :: string

fun matchedPattern :: "string \<Rightarrow> string list \<Rightarrow> string" where
  "matchedPattern ns [] = []"
| "matchedPattern ns (p # ps) = (if MatchesPattern ns p then p else matchedPattern ns ps)"

definition CheckNamespace :: "string \<Rightarrow> string list \<Rightarrow> string list \<Rightarrow> namespace_guard_result" where
  "CheckNamespace ns restricted allowed =
     (if IsRestricted restricted ns then
        \<lparr>ng_allowed = False, ng_namespace = ns, ng_pattern = matchedPattern ns restricted,
         ng_reason = ''restricted''\<rparr>
      else if length allowed > 0 \<and> \<not> IsAllowed allowed ns then
        \<lparr>ng_allowed = False, ng_namespace = ns, ng_pattern = matchedPattern ns allowed,
         ng_reason = ''not-allowed''\<rparr>
      else \<lparr>ng_allowed = True, ng_namespace = ns, ng_pattern = [], ng_reason = []\<rparr>)"

definition EventMessage :: "goenv \<Rightarrow> namespace_guard_result \<Rightarrow> string \<Rightarrow> string \<Rightarrow> string" where
  "EventMessage E r kind name =
     (if ng_reason r = ''restricted'' then
        ''Skipped '' @ kind @ '' '' @ ge_quote E name @ '' in namespace '' @ ge_quote E (ng_namespace r) @
        '' '' @ map char_of [226, 128, 148 :: nat] @ '' namespace is restricted (matched pattern: '' @
        ge_quote E (ng_pattern r) @ '')''
      else if ng_reason r = ''not-allowed'' then
        ''Skipped '' @ kind @ '' '' @ ge_quote E name @ '' in namespace '' @ ge_quote E (ng_namespace r) @
        '' '' @ map char_of [226, 128, 148 :: nat] @
        '' namespace is not in allowedNamespaces (closest match: '' @ ge_quote E (ng_pattern r) @ '')''
      else [])"

text \<open>The list check of a CRD entry, \<^verbatim>\<open>IsNamespaceAuthorized\<close>.\<close>

definition IsNamespaceAuthorized :: "string list \<Rightarrow> string list \<Rightarrow> string \<Rightarrow> bool" where
  "IsNamespaceAuthorized allowed restricted ns =
     (if length allowed = 0 \<and> length restricted = 0 then True
      else if length allowed > 0 \<and> \<not> List.member allowed ns then False
      else \<not> List.member restricted ns)"

section \<open>The filter of the informer\<close>

record namespace_filter =
  nf_allowed :: "string list"
  nf_restricted :: "string list"

definition Allows :: "namespace_filter \<Rightarrow> string \<Rightarrow> bool" where
  "Allows f ns =
     (if length (nf_allowed f) > 0 then List.member (nf_allowed f) ns
      else if length (nf_restricted f) > 0 \<and> List.member (nf_restricted f) ns then False
      else True)"

text \<open>\<open>None\<close> is a nil filter.\<close>

definition IsActive :: "namespace_filter option \<Rightarrow> bool" where
  "IsActive fo =
     (case fo of None \<Rightarrow> False | Some f \<Rightarrow> length (nf_allowed f) > 0 \<or> length (nf_restricted f) > 0)"

definition IsSingleNamespace :: "namespace_filter option \<Rightarrow> bool" where
  "IsSingleNamespace fo =
     (case fo of None \<Rightarrow> False | Some f \<Rightarrow> length (nf_allowed f) = 1 \<and> length (nf_restricted f) = 0)"

definition SingleNamespace :: "namespace_filter option \<Rightarrow> string" where
  "SingleNamespace fo =
     (case fo of None \<Rightarrow> [] | Some f \<Rightarrow> if IsSingleNamespace fo then hd (nf_allowed f) else [])"

type_synonym namespace_filters = "string \<Rightarrow> namespace_filter option"

definition RegisterNamespaceFilter ::
  "string \<Rightarrow> namespace_filter option \<Rightarrow> namespace_filters \<Rightarrow> namespace_filters" where
  "RegisterNamespaceFilter gvk fo fs =
     (case fo of None \<Rightarrow> fs | Some f \<Rightarrow> if \<not> IsActive fo then fs else fs(gvk \<mapsto> f))"

definition namespaceAllowed :: "namespace_filters \<Rightarrow> string \<Rightarrow> string \<Rightarrow> bool" where
  "namespaceAllowed fs gvk ns =
     (case fs gvk of None \<Rightarrow> True | Some f \<Rightarrow> if \<not> IsActive (Some f) then True else Allows f ns)"

section \<open>The rules of the admission webhook\<close>

record namespace_rules =
  nr_allowed :: "string set"
  nr_restricted :: "string set"

definition namespace_rules_of :: "string list \<Rightarrow> string list \<Rightarrow> namespace_rules" where
  "namespace_rules_of allowed restricted = \<lparr>nr_allowed = set allowed, nr_restricted = set restricted\<rparr>"

definition IsNamespaceAllowed :: "namespace_rules \<Rightarrow> string \<Rightarrow> bool" where
  "IsNamespaceAllowed r ns =
     (if nr_allowed r \<noteq> {} then ns \<in> nr_allowed r
      else if nr_restricted r \<noteq> {} then ns \<notin> nr_restricted r
      else True)"

section \<open>Lemmas\<close>

lemma IsRestricted_iff: "IsRestricted ps ns \<longleftrightarrow> list_ex (MatchesPattern ns) ps"
  by (induction ps) auto

lemma allowed_loop_iff: "allowed_loop ps ns \<longleftrightarrow> list_ex (MatchesPattern ns) ps"
  by (induction ps) auto

lemma IsAllowed_iff: "IsAllowed ps ns \<longleftrightarrow> ps = [] \<or> list_ex (MatchesPattern ns) ps"
  by (auto simp: IsAllowed_def allowed_loop_iff)

lemma MatchesPattern_iff:
  "MatchesPattern ns pattern \<longleftrightarrow>
     pattern = ns \<or> (\<exists>p. pattern = p @ ''*'' \<and> prefix p ns) \<or>
     (\<exists>s. pattern = ''*'' @ s \<and> \<not> suffix ''*'' pattern \<and> suffix s ns)"
  by (auto simp: MatchesPattern_def str_has_suffix_iff str_has_prefix_iff trim_suffix_def trim_prefix_def
      suffix_def prefix_def)

lemma MatchesPattern_exact: "CHR ''*'' \<notin> set pattern \<Longrightarrow> MatchesPattern ns pattern \<longleftrightarrow> pattern = ns"
  by (auto simp: MatchesPattern_iff)

lemma matchedPattern_first:
  "list_ex (MatchesPattern ns) ps \<Longrightarrow>
     \<exists>xs ys. ps = xs @ matchedPattern ns ps # ys \<and> MatchesPattern ns (matchedPattern ns ps) \<and>
       list_all (\<lambda>q. \<not> MatchesPattern ns q) xs"
proof (induction ps)
  case (Cons p ps)
  show ?case
  proof (cases "MatchesPattern ns p")
    case True
    then show ?thesis by (intro exI [of _ "[]"] exI [of _ ps]) auto
  next
    case False
    with Cons obtain xs ys where "ps = xs @ matchedPattern ns ps # ys"
      "MatchesPattern ns (matchedPattern ns ps)" "list_all (\<lambda>q. \<not> MatchesPattern ns q) xs"
      by auto
    with False show ?thesis by (intro exI [of _ "p # xs"] exI [of _ ys]) simp
  qed
qed simp

lemma matchedPattern_none: "\<not> list_ex (MatchesPattern ns) ps \<Longrightarrow> matchedPattern ns ps = []"
  by (induction ps) auto

lemma merge_loop_eq:
  "seen = set merged \<Longrightarrow> distinct merged \<Longrightarrow>
     (\<exists>m. merge_loop seen merged ns = (set m, m) \<and> distinct m \<and> set m = set merged \<union> set ns \<and> prefix merged m)"
  by (induction seen merged ns rule: merge_loop.induct) (auto simp: prefix_def insert_absorb)

lemma Merge_result: "distinct (Merge r other) \<and> set (Merge r other) = set r \<union> set other"
proof -
  obtain m where m: "merge_loop {} [] r = (set m, m)" "distinct m" "set m = set r"
    using merge_loop_eq [of "{}" "[]" r] by auto
  obtain m' where "merge_loop (set m) m other = (set m', m')" "distinct m'" "set m' = set m \<union> set other"
    using merge_loop_eq [of "set m" m other] m(2) by auto
  with m show ?thesis by (simp add: Merge_def)
qed

text \<open>
  What the guards promise each other: on lists of plain names, at most one of them declared,
  a guard admits the allow list, or all but the deny list.
\<close>

locale namespace_policy =
  fixes permits :: "string list \<Rightarrow> string list \<Rightarrow> string \<Rightarrow> bool"
  assumes permits_exact:
    "allowed = [] \<or> restricted = [] \<Longrightarrow> list_all (\<lambda>p. CHR ''*'' \<notin> set p) (allowed @ restricted) \<Longrightarrow>
     permits allowed restricted ns \<longleftrightarrow> (if allowed \<noteq> [] then ns \<in> set allowed else ns \<notin> set restricted)"
begin

lemma permits_allowed:
  "list_all (\<lambda>p. CHR ''*'' \<notin> set p) allowed \<Longrightarrow> allowed \<noteq> [] \<Longrightarrow> permits allowed [] ns \<longleftrightarrow> ns \<in> set allowed"
  by (simp add: permits_exact)

lemma permits_restricted:
  "list_all (\<lambda>p. CHR ''*'' \<notin> set p) restricted \<Longrightarrow> permits [] restricted ns \<longleftrightarrow> ns \<notin> set restricted"
  by (simp add: permits_exact)

end

lemma list_ex_exact:
  "list_all (\<lambda>p. CHR ''*'' \<notin> set p) ps \<Longrightarrow> list_ex (MatchesPattern ns) ps \<longleftrightarrow> ns \<in> set ps"
  by (induction ps) (auto simp: MatchesPattern_exact)

interpretation guard: namespace_policy "\<lambda>a r ns. ng_allowed (CheckNamespace ns r a)"
  by unfold_locales
    (auto simp: CheckNamespace_def IsRestricted_iff IsAllowed_iff list_ex_exact)

interpretation informer_filter: namespace_policy
  "\<lambda>a r ns. Allows \<lparr>nf_allowed = a, nf_restricted = r\<rparr> ns"
  by unfold_locales (auto simp: Allows_def)

interpretation webhook: namespace_policy "\<lambda>a r ns. IsNamespaceAllowed (namespace_rules_of a r) ns"
  by unfold_locales (auto simp: IsNamespaceAllowed_def namespace_rules_of_def)

interpretation entry: namespace_policy IsNamespaceAuthorized
  by unfold_locales (auto simp: IsNamespaceAuthorized_def)

section \<open>Properties\<close>

text \<open>
  The guard of the prepare stage lets a namespace pass exactly when no restricted pattern
  matches it and, with an allow list, an allowed one does; a refusal for a restriction names
  the first pattern that matches, a refusal by the allow list names none; and merging lists
  keeps every restriction of both, without duplicates.
\<close>
lemma namespace_guard_correct:
  "(let g = CheckNamespace ns restricted allowed in
      ng_allowed g = (\<not> list_ex (MatchesPattern ns) restricted \<and>
        (allowed = [] \<or> list_ex (MatchesPattern ns) allowed)) \<and>
      (case ng_reason g = ''restricted'' of
         True \<Rightarrow> \<exists>xs ys. restricted = xs @ ng_pattern g # ys \<and> MatchesPattern ns (ng_pattern g) \<and>
           list_all (\<lambda>q. \<not> MatchesPattern ns q) xs
       | False \<Rightarrow> ng_pattern g = []))
   \<and> distinct (Merge restricted extra)
   \<and> IsRestricted (Merge restricted extra) ns = (IsRestricted restricted ns \<or> IsRestricted extra ns)"
proof -
  have "IsRestricted (Merge restricted extra) ns = (IsRestricted restricted ns \<or> IsRestricted extra ns)"
    using Merge_result [of restricted extra] by (auto simp: IsRestricted_iff list_ex_iff)
  moreover have "distinct (Merge restricted extra)"
    using Merge_result by blast
  ultimately show ?thesis
    using matchedPattern_first [of ns restricted] matchedPattern_none [of ns allowed]
    by (auto simp: CheckNamespace_def IsRestricted_iff IsAllowed_iff Let_def split: bool.splits)
qed

text \<open>
  The four places that decide on a namespace agree when the lists hold plain names and at
  most one list is declared.
\<close>
lemma namespace_guards_agree:
  assumes "allowed = [] \<or> restricted = []" "list_all (\<lambda>p. CHR ''*'' \<notin> set p) (allowed @ restricted)"
  shows "ng_allowed (CheckNamespace ns restricted allowed) = Allows \<lparr>nf_allowed = allowed, nf_restricted = restricted\<rparr> ns
    \<and> Allows \<lparr>nf_allowed = allowed, nf_restricted = restricted\<rparr> ns = IsNamespaceAllowed (namespace_rules_of allowed restricted) ns
    \<and> IsNamespaceAllowed (namespace_rules_of allowed restricted) ns = IsNamespaceAuthorized allowed restricted ns"
  using guard.permits_exact [OF assms, of ns] informer_filter.permits_exact [OF assms, of ns]
    webhook.permits_exact [OF assms, of ns] entry.permits_exact [OF assms, of ns]
  by blast

text \<open>
  The guards disagree on the rest.  An allow pattern \<open>p*\<close> opens the namespaces with that
  prefix in the prepare stage, while the informer drops their events and the webhook rejects
  their resources; and a namespace on both lists is refused by the prepare stage and by
  \<^verbatim>\<open>IsNamespaceAuthorized\<close> but passes the informer and the webhook.
\<close>
lemma namespace_guards_diverge:
  assumes "prefix p ns" "ns \<noteq> p @ ''*''" "ns \<in> set both"
  shows "ng_allowed (CheckNamespace ns [] [p @ ''*''])
    \<and> \<not> Allows \<lparr>nf_allowed = [p @ ''*''], nf_restricted = []\<rparr> ns
    \<and> \<not> IsNamespaceAllowed (namespace_rules_of [p @ ''*''] []) ns
    \<and> \<not> ng_allowed (CheckNamespace ns both both) \<and> \<not> IsNamespaceAuthorized both both ns
    \<and> Allows \<lparr>nf_allowed = both, nf_restricted = both\<rparr> ns
    \<and> IsNamespaceAllowed (namespace_rules_of both both) ns"
proof -
  have "MatchesPattern ns (p @ ''*'')" using assms(1) by (auto simp: MatchesPattern_iff)
  moreover have "MatchesPattern ns ns" by (simp add: MatchesPattern_def)
  then have "list_ex (MatchesPattern ns) both" using assms(3) by (auto simp: list_ex_iff)
  moreover have "both \<noteq> []" using assms(3) by auto
  ultimately show ?thesis
    using assms
    by (auto simp: CheckNamespace_def IsRestricted_iff IsAllowed_iff Allows_def IsNamespaceAllowed_def
        namespace_rules_of_def IsNamespaceAuthorized_def)
qed

end
