(* ===== verification/Gates.thy ===== *)
theory Gates
  imports WorkQueue Validation
begin

text \<open>
  The decisions the catalog takes about an object: its effective operatorBox (\<^verbatim>\<open>pkg/intent\<close>
  target, \<^verbatim>\<open>pkg/types/types_crd_entry.go\<close>), the gates before the queue and before the
  reconciler (\<^verbatim>\<open>pkg/catalog/pre_reconcile.go\<close>, \<^verbatim>\<open>pkg/types/types_operatorbox.go\<close>) and the
  periodic requeue (\<^verbatim>\<open>pkg/catalog/requeue.go\<close>).  A gate passes unless something declared holds
  it: a missing entry, box or resolver, and with the open policy a failing external call, let
  the object through.

  Parameters: the resolver that \<^verbatim>\<open>NewResolver\<close> with profiles, notes and context values gives
  (template engine), the function map of \<^verbatim>\<open>WithSentinels\<close> (template engine), and external
  calls (I/O).
\<close>

section \<open>Gate configuration\<close>

text \<open>\<^verbatim>\<open>FailPolicy\<close> is a string in the code; \<open>FailOther []\<close> is the unset policy.\<close>

datatype fail_policy = FailOpen | FailClosed | FailOther string

record gate_conditions =
  gc_external :: "external_call list"
  gc_sentinels :: "string list"
  gc_event_aware :: bool
  gc_when :: "condition list"
  gc_or :: "condition list"
  gc_fail_policy :: fail_policy

text \<open>The methods are safe on a nil receiver, \<open>None\<close>.\<close>

definition HasConditions :: "gate_conditions option \<Rightarrow> bool" where
  "HasConditions g = (case g of None \<Rightarrow> False | Some c \<Rightarrow> length (gc_when c) > 0 \<or> length (gc_or c) > 0)"

definition HasExternal :: "gate_conditions option \<Rightarrow> bool" where
  "HasExternal g = (case g of None \<Rightarrow> False | Some c \<Rightarrow> length (gc_external c) > 0)"

definition HasGate :: "gate_conditions option \<Rightarrow> bool" where
  "HasGate g =
     (case g of
        None \<Rightarrow> False
      | Some c \<Rightarrow> length (gc_when c) > 0 \<or> length (gc_or c) > 0 \<or> length (gc_external c) > 0 \<or>
                  length (gc_sentinels c) > 0)"

definition gate_HasSentinels :: "gate_conditions option \<Rightarrow> bool" where
  "gate_HasSentinels g = (case g of None \<Rightarrow> False | Some c \<Rightarrow> length (gc_sentinels c) > 0)"

definition gate_IsEventAware :: "gate_conditions option \<Rightarrow> bool" where
  "gate_IsEventAware g = (case g of None \<Rightarrow> False | Some c \<Rightarrow> gc_event_aware c)"

definition gate_DeclaredSentinels :: "gate_conditions option \<Rightarrow> string list" where
  "gate_DeclaredSentinels g = (case g of None \<Rightarrow> [] | Some c \<Rightarrow> gc_sentinels c)"

definition SentinelContains :: "gate_conditions option \<Rightarrow> string \<Rightarrow> bool" where
  "SentinelContains g s =
     (if \<not> gate_HasSentinels g then False else List.member (gate_DeclaredSentinels g) s)"

text \<open>
  The code ranges over the entries of \<open>declared\<close> and asks for each whether the gate contains
  its key; the entries with a contained key are those of the gate's names.
\<close>

definition SentinelsAllowed :: "gate_conditions option \<Rightarrow> sentinel_map \<Rightarrow> bool" where
  "SentinelsAllowed g declared =
     (if \<not> gate_HasSentinels g then False
      else case declared of
             None \<Rightarrow> False
           | Some m \<Rightarrow> list_ex (\<lambda>k. m k = Some ''true'') (gate_DeclaredSentinels g))"

definition gate_WhenConditions :: "gate_conditions option \<Rightarrow> condition list" where
  "gate_WhenConditions g = (case g of None \<Rightarrow> [] | Some c \<Rightarrow> gc_when c)"

definition gate_OrConditions :: "gate_conditions option \<Rightarrow> condition list" where
  "gate_OrConditions g = (case g of None \<Rightarrow> [] | Some c \<Rightarrow> gc_or c)"

definition ExternalCalls :: "gate_conditions option \<Rightarrow> external_call list" where
  "ExternalCalls g = (case g of None \<Rightarrow> [] | Some c \<Rightarrow> gc_external c)"

text \<open>\<^verbatim>\<open>PreReconcileConfig\<close>; nil and empty sentinel lists differ for \<^verbatim>\<open>HasSentinels\<close>.\<close>

record pre_reconcile =
  pc_external :: "external_call list"
  pc_sentinels :: "string list option"
  pc_enqueue :: "gate_conditions option"
  pc_reconcile :: "gate_conditions option"

definition pre_HasSentinels :: "pre_reconcile option \<Rightarrow> bool" where
  "pre_HasSentinels r = (case r of None \<Rightarrow> False | Some c \<Rightarrow> pc_sentinels c \<noteq> None)"

definition DeclaredSentinels :: "pre_reconcile option \<Rightarrow> string list" where
  "DeclaredSentinels r =
     (case r of None \<Rightarrow> [] | Some c \<Rightarrow> (case pc_sentinels c of None \<Rightarrow> [] | Some ss \<Rightarrow> ss))"

text \<open>
  \<^verbatim>\<open>InvalidGateSentinels\<close>: the gate's names that the block does not declare, and whether there
  are any.  Its callers pass a block and a gate that are not nil.
\<close>

definition InvalidGateSentinels :: "pre_reconcile \<Rightarrow> gate_conditions \<Rightarrow> string list \<times> bool" where
  "InvalidGateSentinels r g =
     (let invalid = filter (\<lambda>s. \<not> List.member (DeclaredSentinels (Some r)) s) (gc_sentinels g)
      in if length invalid > 0 then (invalid, True) else ([], False))"

definition HasPreReconcileExternal :: "pre_reconcile option \<Rightarrow> bool" where
  "HasPreReconcileExternal r = (case r of None \<Rightarrow> False | Some c \<Rightarrow> length (pc_external c) > 0)"

definition HasPreReconcileConditions :: "pre_reconcile option \<Rightarrow> bool" where
  "HasPreReconcileConditions r =
     (case r of None \<Rightarrow> False | Some c \<Rightarrow> HasConditions (pc_reconcile c) \<or> HasConditions (pc_enqueue c))"

definition HasEnqueueGate :: "pre_reconcile option \<Rightarrow> bool" where
  "HasEnqueueGate r =
     (case r of None \<Rightarrow> False | Some c \<Rightarrow> HasGate (pc_enqueue c) \<or> length (pc_external c) > 0)"

definition HasReconcileGate :: "pre_reconcile option \<Rightarrow> bool" where
  "HasReconcileGate r =
     (case r of
        None \<Rightarrow> False
      | Some c \<Rightarrow> HasGate (pc_reconcile c) \<or> length (pc_external c) > 0 \<or>
                  gate_HasSentinels (pc_reconcile c) \<or> gate_IsEventAware (pc_reconcile c))"

definition HasReconcileGateExternal :: "pre_reconcile option \<Rightarrow> bool" where
  "HasReconcileGateExternal r = (case r of None \<Rightarrow> False | Some c \<Rightarrow> HasExternal (pc_reconcile c))"

definition WhenConditions :: "pre_reconcile option \<Rightarrow> condition list" where
  "WhenConditions r = (case r of None \<Rightarrow> [] | Some c \<Rightarrow> gate_WhenConditions (pc_reconcile c))"

definition OrConditions :: "pre_reconcile option \<Rightarrow> condition list" where
  "OrConditions r = (case r of None \<Rightarrow> [] | Some c \<Rightarrow> gate_OrConditions (pc_reconcile c))"

section \<open>The effective operatorBox\<close>

text \<open>
  \<^verbatim>\<open>ReconcileConfig\<close>: tuning, hooks, requeue and the lifecycle templates; \<open>'h\<close> is the type of a
  block the gates never look into.  The remaining fields are copied with the record.
\<close>

record hook_decl =
  hk_location :: string
  hk_function :: string
  hk_alias :: string
  hk_resources :: "string list"
  hk_args :: gmap

record requeue_config =
  rq_after :: string
  rq_when :: "condition list"
  rq_or :: "condition list"

record 'h reconcile_config =
  rc_workers :: int
  rc_queue :: queue_config
  rc_requeue :: "requeue_config option"
  rc_hooks :: "hook_decl option"
  rc_on_create :: "'h option"
  rc_on_reconcile :: "'h option"
  rc_on_delete :: "'h option"

record 'h operator_box =
  ob_watch :: "(string \<times> gate_conditions option) list"
  ob_events :: "string \<Rightarrow> gate_conditions option option"
  ob_pre :: "pre_reconcile option"
  ob_runtime :: "'h option"
  ob_reconcile :: "'h reconcile_config option"
  ob_emit :: "'h option"

record 'h crd_entry =
  ce_box :: "'h operator_box option"
  ce_targets :: "string \<Rightarrow> 'h operator_box option option"   \<comment> \<open>\<^verbatim>\<open>Serve.Target.Entries\<close>\<close>

definition Target :: "(string \<Rightarrow> string option) \<Rightarrow> string" where
  "Target annotations =
     (case annotations ''inrun.dev/serve-alias'' of
        Some alias \<Rightarrow>
          (if alias \<noteq> [] then alias
           else case annotations ''inrun.dev/serve-target'' of Some t \<Rightarrow> t | None \<Rightarrow> [])
      | None \<Rightarrow> (case annotations ''inrun.dev/serve-target'' of Some t \<Rightarrow> t | None \<Rightarrow> []))"

definition Box :: "'h crd_entry \<Rightarrow> 'h operator_box" where
  "Box c =
     (case ce_box c of
        Some box \<Rightarrow> box
      | None \<Rightarrow> \<lparr>ob_watch = [], ob_events = (\<lambda>_. None), ob_pre = None, ob_runtime = None,
                 ob_reconcile = None, ob_emit = None\<rparr>)"

text \<open>The argument maps are merged key by key; merging an empty map leaves the base's.\<close>

definition merge_hooks :: "hook_decl \<Rightarrow> hook_decl \<Rightarrow> hook_decl" where
  "merge_hooks h t =
     h\<lparr>hk_location := (if hk_location t \<noteq> [] then hk_location t else hk_location h),
       hk_function := (if hk_function t \<noteq> [] then hk_function t else hk_function h),
       hk_alias := (if hk_alias t \<noteq> [] then hk_alias t else hk_alias h),
       hk_resources := (if length (hk_resources t) > 0 then hk_resources t else hk_resources h),
       hk_args := hk_args h ++ hk_args t\<rparr>"

definition mergeReconcileConfig ::
  "'h reconcile_config option \<Rightarrow> 'h reconcile_config option \<Rightarrow> 'h reconcile_config option" where
  "mergeReconcileConfig base target =
     (case (target, base) of
        (None, _) \<Rightarrow> base
      | (Some t, None) \<Rightarrow> target
      | (Some t, Some b) \<Rightarrow>
          (case rc_hooks t of
             None \<Rightarrow> Some b
           | Some th \<Rightarrow>
               (case rc_hooks b of
                  None \<Rightarrow> Some (b\<lparr>rc_hooks := Some th\<rparr>)
                | Some h \<Rightarrow> Some (b\<lparr>rc_hooks := Some (merge_hooks h th)\<rparr>))))"

definition EffectiveOperatorBox :: "'h crd_entry \<Rightarrow> string \<Rightarrow> 'h operator_box" where
  "EffectiveOperatorBox c target =
     (if target = [] then Box c
      else case ce_targets c target of
             Some (Some box) \<Rightarrow>
               (let base = Box c
                in box\<lparr>ob_pre := (if ob_pre box = None then ob_pre base else ob_pre box),
                       ob_reconcile := (if ob_reconcile box = None then ob_reconcile base
                         else mergeReconcileConfig (ob_reconcile base) (ob_reconcile box)),
                       ob_runtime := (if ob_runtime box = None then ob_runtime base else ob_runtime box),
                       ob_emit := (if ob_emit box = None then ob_emit base else ob_emit box)\<rparr>)
           | _ \<Rightarrow> Box c)"

fun watch_entry_loop :: "(string \<times> gate_conditions option) list \<Rightarrow> string \<Rightarrow> gate_conditions option option" where
  "watch_entry_loop [] gvk = None"
| "watch_entry_loop ((g, gate) # ws) gvk = (if g = gvk then Some gate else watch_entry_loop ws gvk)"

definition GetWatchEntry :: "'h operator_box \<Rightarrow> string \<Rightarrow> gate_conditions option option" where
  "GetWatchEntry box gvk = watch_entry_loop (ob_watch box) gvk"

definition GetEventEntry :: "'h operator_box \<Rightarrow> string \<Rightarrow> gate_conditions option option" where
  "GetEventEntry box name = ob_events box name"

section \<open>Evaluation\<close>

text \<open>\<^verbatim>\<open>domain.EvaluateOptions\<close>; an event carries a payload only with at least one entry.\<close>

record eval_options =
  eo_events :: "(string \<times> gval) list"
  eo_sentinels :: sentinel_map

record 'h catalog =
  ct_entries :: "string \<Rightarrow> 'h crd_entry option"
  ct_goenv :: goenv
  ct_with_sentinels :: "string list \<Rightarrow> (string \<Rightarrow> string option) \<Rightarrow> resolver \<Rightarrow> resolver"
  ct_with_events :: "(string \<times> gval) list \<Rightarrow> resolver \<Rightarrow> resolver"
  ct_external :: external_runner
  ct_parse_duration :: "string \<Rightarrow> int option"

text \<open>
  What an evaluation sees of an object: its annotations and the resolver built over it, with
  profiles, notes, request, metrics and health values; \<open>None\<close> is the error of \<^verbatim>\<open>NewResolver\<close>.
\<close>

record gate_object =
  go_annotations :: "string \<Rightarrow> string option"
  go_resolver :: "resolver option"

definition effectiveBox :: "'h catalog \<Rightarrow> gate_object option \<Rightarrow> string \<Rightarrow> 'h operator_box option" where
  "effectiveBox k obj gvk =
     (case obj of
        None \<Rightarrow> None
      | Some ob \<Rightarrow>
          (case ct_entries k gvk of
             None \<Rightarrow> None
           | Some entry \<Rightarrow> Some (EffectiveOperatorBox entry (Target (go_annotations ob)))))"

definition effectiveResolver ::
  "'h catalog \<Rightarrow> gate_object \<Rightarrow> pre_reconcile option \<Rightarrow> eval_options \<Rightarrow> resolver option" where
  "effectiveResolver k obj pr opts =
     (case go_resolver obj of
        None \<Rightarrow> None
      | Some r \<Rightarrow>
          (let r1 = (if length (eo_events opts) > 0 then ct_with_events k (eo_events opts) r else r)
           in case eo_sentinels opts of
                None \<Rightarrow> Some r1
              | Some m \<Rightarrow>
                  Some (if DeclaredSentinels pr = [] then r1
                        else ct_with_sentinels k (DeclaredSentinels pr) m r1)))"

definition conditions_hold ::
  "'h catalog \<Rightarrow> gotime \<Rightarrow> resolver \<Rightarrow> condition list \<Rightarrow> condition list \<Rightarrow> bool" where
  "conditions_hold k now r allOf or_block =
     EvaluateConditions (ct_goenv k) now (rs_data r) allOf or_block (TemplateEvaluator (Some r))"

definition evaluateGate ::
  "'h catalog \<Rightarrow> gotime \<Rightarrow> gate_conditions option \<Rightarrow> resolver option \<Rightarrow> sentinel_map \<Rightarrow> bool" where
  "evaluateGate k now g resolver sentinels =
     (case resolver of
        None \<Rightarrow> True
      | Some r0 \<Rightarrow>
          (let (r, err) = (if HasExternal g then ct_external k r0 (ExternalCalls g) else (r0, None))
           in if err \<noteq> None then
                (case g of None \<Rightarrow> True | Some c \<Rightarrow> gc_fail_policy c \<noteq> FailClosed)
              else if gate_HasSentinels g then SentinelsAllowed g sentinels
              else conditions_hold k now r (gate_WhenConditions g) (gate_OrConditions g)))"

fun gate_reason_loop :: "'h catalog \<Rightarrow> gotime \<Rightarrow> resolver \<Rightarrow> condition list \<Rightarrow> string" where
  "gate_reason_loop k now r [] = ''or: no condition satisfied''"
| "gate_reason_loop k now r (c # cs) =
     (if \<not> conditions_hold k now r [c] [] then
        (let val = (case Resolve r (c_field c) of None \<Rightarrow> [] | Some s \<Rightarrow> s);
             q = ge_quote (ct_goenv k)
         in ''when: '' @ q (c_field c) @ '' = '' @ q val @ '', want '' @ q (c_equals c))
      else gate_reason_loop k now r cs)"

definition preReconcileGateReason ::
  "'h catalog \<Rightarrow> gotime \<Rightarrow> pre_reconcile option \<Rightarrow> resolver \<Rightarrow> string" where
  "preReconcileGateReason k now pr r = gate_reason_loop k now r (WhenConditions pr)"

text \<open>
  The gate before the reconciler: whether the object passes, and the reason if not.  The calls
  on the resolver and the conditions are a definition of their own.
\<close>

definition run_reconcile_gate ::
  "'h catalog \<Rightarrow> gotime \<Rightarrow> pre_reconcile \<Rightarrow> resolver \<Rightarrow> eval_options \<Rightarrow> bool \<times> string" where
  "run_reconcile_gate k now c r0 opts =
     (let pr = Some c;
          g = pc_reconcile c;
          shared = (if HasPreReconcileExternal pr then ct_external k r0 (pc_external c) else (r0, None))
      in if snd shared \<noteq> None then (True, [])
         else
           (let own = (if HasReconcileGateExternal pr then ct_external k (fst shared) (ExternalCalls g)
                       else (fst shared, None));
                r = fst own
            in if snd own \<noteq> None then
                 (case g of
                    Some gc \<Rightarrow>
                      (if gc_fail_policy gc = FailClosed then
                         (False, ''reconcileGate: external evaluation failed (failPolicy: closed)'')
                       else (True, []))
                  | None \<Rightarrow> (True, []))
               else if gate_HasSentinels g then (SentinelsAllowed g (eo_sentinels opts), [])
               else if \<not> conditions_hold k now r (WhenConditions pr) (OrConditions pr) then
                 (False, preReconcileGateReason k now pr r)
               else (True, [])))"

definition EvaluatePreReconcile ::
  "'h catalog \<Rightarrow> gotime \<Rightarrow> string \<Rightarrow> gate_object option \<Rightarrow> eval_options \<Rightarrow> bool \<times> string" where
  "EvaluatePreReconcile k now gvk obj opts =
     (case obj of
        None \<Rightarrow> (True, [])
      | Some ob \<Rightarrow>
          (case effectiveBox k obj gvk of
             None \<Rightarrow> (True, [])
           | Some box \<Rightarrow>
               (case ob_pre box of
                  None \<Rightarrow> (True, [])
                | Some c \<Rightarrow>
                    (if \<not> HasReconcileGate (Some c) then (True, [])
                     else case effectiveResolver k ob (Some c) opts of
                            None \<Rightarrow> (True, [])
                          | Some r0 \<Rightarrow> run_reconcile_gate k now c r0 opts))))"

definition EvaluateEnqueueFilter ::
  "'h catalog \<Rightarrow> gotime \<Rightarrow> string \<Rightarrow> gate_object option \<Rightarrow> eval_options \<Rightarrow> bool" where
  "EvaluateEnqueueFilter k now gvk obj opts =
     (case obj of
        None \<Rightarrow> True
      | Some ob \<Rightarrow>
          (case effectiveBox k obj gvk of
             None \<Rightarrow> True
           | Some box \<Rightarrow>
               (case ob_pre box of
                  None \<Rightarrow> True
                | Some c \<Rightarrow>
                    (if \<not> HasEnqueueGate (Some c) then True
                     else case effectiveResolver k ob (Some c) opts of
                            None \<Rightarrow> True
                          | Some r0 \<Rightarrow>
                              (let shared = (if HasPreReconcileExternal (Some c)
                                             then ct_external k r0 (pc_external c) else (r0, None))
                               in if snd shared \<noteq> None then True
                                  else evaluateGate k now (pc_enqueue c) (Some (fst shared))
                                         (eo_sentinels opts))))))"

text \<open>Watch and event entries: no shared external calls, no declared sentinels.\<close>

definition evaluate_observe_gate ::
  "'h catalog \<Rightarrow> gotime \<Rightarrow> ('h operator_box \<Rightarrow> gate_conditions option option) \<Rightarrow> string \<Rightarrow>
   gate_object option \<Rightarrow> eval_options \<Rightarrow> bool" where
  "evaluate_observe_gate k now find_entry gvk obj opts =
     (case (effectiveBox k obj gvk, obj) of
        (Some box, Some ob) \<Rightarrow>
          (case effectiveResolver k ob None opts of
             None \<Rightarrow> True
           | Some r \<Rightarrow>
               (case find_entry box of
                  Some (Some g) \<Rightarrow> evaluateGate k now (Some g) (Some r) (eo_sentinels opts)
                | _ \<Rightarrow> True))
      | _ \<Rightarrow> True)"

definition EvaluateWatchEnqueueFilter ::
  "'h catalog \<Rightarrow> gotime \<Rightarrow> string \<Rightarrow> string \<Rightarrow> gate_object option \<Rightarrow> eval_options \<Rightarrow> bool" where
  "EvaluateWatchEnqueueFilter k now gvk secondary obj opts =
     evaluate_observe_gate k now (\<lambda>box. GetWatchEntry box secondary) gvk obj opts"

definition EvaluateEventEnqueueFilter ::
  "'h catalog \<Rightarrow> gotime \<Rightarrow> string \<Rightarrow> string \<Rightarrow> gate_object option \<Rightarrow> eval_options \<Rightarrow> bool" where
  "EvaluateEventEnqueueFilter k now gvk eventName obj opts =
     evaluate_observe_gate k now (\<lambda>box. GetEventEntry box eventName) gvk obj opts"

text \<open>
  \<^verbatim>\<open>QueueBehaviour.HasCondition\<close>, and the evaluation of the conditions of the queue.  The
  code reads \<^verbatim>\<open>rc.Queue\<close> before it asks whether \<open>rc\<close> is nil: a box without a reconcile block
  panics, \<open>None\<close>.  \<^verbatim>\<open>Queue.Empty\<close> implies that no behaviour is declared.
\<close>

definition HasBehaviourCondition :: "queue_config \<Rightarrow> bool" where
  "HasBehaviourCondition q =
     (case on_threshold q of
        Some s \<Rightarrow> HasCondition s
      | None \<Rightarrow> (case on_limit q of Some s \<Rightarrow> HasCondition s | None \<Rightarrow> False))"

definition EvaluateQueueBehaviourConditions ::
  "'h catalog \<Rightarrow> gotime \<Rightarrow> string \<Rightarrow> gate_object option \<Rightarrow> eval_options \<Rightarrow> bool option" where
  "EvaluateQueueBehaviourConditions k now gvk obj opts =
     (case (effectiveBox k obj gvk, obj) of
        (Some box, Some ob) \<Rightarrow>
          (case ob_reconcile box of
             None \<Rightarrow> None
           | Some rc \<Rightarrow>
               (let q = rc_queue rc
                in if \<not> HasBehaviourCondition q then Some True
                   else case effectiveResolver k ob (ob_pre box) opts of
                          None \<Rightarrow> Some True
                        | Some r \<Rightarrow>
                            Some (case (HasOnLimitConditions q, on_limit q, HasOnThresholdConditions q, on_threshold q) of
                                    (True, Some s, _, _) \<Rightarrow> conditions_hold k now r (bs_when s) (bs_or s)
                                  | (_, _, True, Some s) \<Rightarrow> conditions_hold k now r (bs_when s) (bs_or s)
                                  | _ \<Rightarrow> True)))
      | _ \<Rightarrow> Some True)"

definition IsEventAware :: "'h catalog \<Rightarrow> gate_object option \<Rightarrow> string \<Rightarrow> bool" where
  "IsEventAware k obj name =
     (case effectiveBox k obj name of
        None \<Rightarrow> False
      | Some box \<Rightarrow>
          (case ob_pre box of
             None \<Rightarrow> False
           | Some c \<Rightarrow> if HasReconcileGate (Some c) then gate_IsEventAware (pc_reconcile c) else False))"

definition GetPreReconcileSentinels :: "'h catalog \<Rightarrow> gate_object option \<Rightarrow> string \<Rightarrow> string list" where
  "GetPreReconcileSentinels k obj gvk =
     (case effectiveBox k obj gvk of
        None \<Rightarrow> [] | Some box \<Rightarrow> (case ob_pre box of None \<Rightarrow> [] | Some c \<Rightarrow> DeclaredSentinels (Some c)))"

section \<open>Requeue\<close>

definition IsRequeueEmpty :: "'h reconcile_config option \<Rightarrow> bool" where
  "IsRequeueEmpty r =
     (case r of
        None \<Rightarrow> True
      | Some c \<Rightarrow>
          (case rc_requeue c of
             None \<Rightarrow> True
           | Some rq \<Rightarrow> rq_after rq = [] \<and> length (rq_when rq) = 0 \<and> length (rq_or rq) = 0))"

text \<open>
  The requeue delay in nanoseconds.  \<open>prepared\<close> is the resolver of the prepared request and
  replaces the object's; the code reads the annotations of the object only.
\<close>

definition EvaluateRequeue ::
  "'h catalog \<Rightarrow> gotime \<Rightarrow> string \<Rightarrow> gate_object option \<Rightarrow> resolver option \<Rightarrow> int" where
  "EvaluateRequeue k now name obj prepared =
     (case (obj, prepared, ct_entries k name) of
        (Some ob, Some r, Some entry) \<Rightarrow>
          (let rc = ob_reconcile (EffectiveOperatorBox entry (Target (go_annotations ob)))
           in if IsRequeueEmpty rc then 0
              else case Option.bind rc rc_requeue of
                     None \<Rightarrow> 0
                   | Some rq \<Rightarrow>
                       (if \<not> conditions_hold k now r (rq_when rq) (rq_or rq) then 0
                        else if rq_after rq = [] then 0
                        else case RenderString r (rq_after rq) of
                               None \<Rightarrow> 0
                             | Some rendered \<Rightarrow>
                                 (if rendered = [] \<or> rendered = ''0s'' then 0
                                  else case ct_parse_duration k rendered of None \<Rightarrow> 0 | Some d \<Rightarrow> d)))
      | _ \<Rightarrow> 0)"

section \<open>Lemmas\<close>

lemma conditions_hold_iff:
  "conditions_hold k now r ws os \<longleftrightarrow>
     list_all (\<lambda>c. conditions_hold k now r [c] []) ws \<and>
     (os = [] \<or> list_ex (\<lambda>c. conditions_hold k now r [c] []) os)"
  by (simp add: conditions_hold_def EvaluateConditions_def evaluator_loops)

lemma SentinelsAllowed_iff:
  "SentinelsAllowed g payload \<longleftrightarrow>
     (\<exists>m s. payload = Some m \<and> SentinelContains g s \<and> m s = Some ''true'')"
  by (auto simp: SentinelsAllowed_def SentinelContains_def gate_HasSentinels_def gate_DeclaredSentinels_def
      list_ex_iff split: option.splits if_splits)

lemma gate_reason_first:
  "list_ex (\<lambda>c. \<not> conditions_hold k now r [c] []) cs \<Longrightarrow>
     \<exists>xs c ys. cs = xs @ c # ys \<and> list_all (\<lambda>d. conditions_hold k now r [d] []) xs \<and>
       \<not> conditions_hold k now r [c] [] \<and> prefix (''when: '' @ ge_quote (ct_goenv k) (c_field c)) (gate_reason_loop k now r cs)"
proof (induction cs)
  case (Cons c cs)
  show ?case
  proof (cases "conditions_hold k now r [c] []")
    case False
    then show ?thesis
      by (intro exI [of _ "[]"] exI [of _ c] exI [of _ cs]) (simp add: Let_def)
  next
    case True
    with Cons obtain xs d ys where "cs = xs @ d # ys" "list_all (\<lambda>e. conditions_hold k now r [e] []) xs"
      "\<not> conditions_hold k now r [d] []" "prefix (''when: '' @ ge_quote (ct_goenv k) (c_field d)) (gate_reason_loop k now r cs)"
      by auto
    with True show ?thesis
      by (intro exI [of _ "c # xs"] exI [of _ d] exI [of _ ys]) simp
  qed
qed simp

lemma gate_reason_or:
  "list_all (\<lambda>c. conditions_hold k now r [c] []) cs \<Longrightarrow>
     gate_reason_loop k now r cs = ''or: no condition satisfied''"
  by (induction cs) auto

lemma event_aware_box:
  "IsEventAware k obj gvk \<longleftrightarrow>
     (\<exists>box c g. effectiveBox k obj gvk = Some box \<and> ob_pre box = Some c \<and> pc_reconcile c = Some g \<and> gc_event_aware g)"
  by (auto simp: IsEventAware_def HasReconcileGate_def gate_IsEventAware_def split: option.splits)

lemma sentinel_gate_verdict:
  assumes "effectiveBox k (Some ob) gvk = Some box" "ob_pre box = Some c" "pc_reconcile c = Some g"
    and "gc_sentinels g \<noteq> []" "gc_external g = []" "pc_external c = []" "go_resolver ob \<noteq> None"
  shows "EvaluatePreReconcile k now gvk (Some ob) opts = (SentinelsAllowed (Some g) (eo_sentinels opts), [])"
  using assms
  by (auto simp: EvaluatePreReconcile_def run_reconcile_gate_def HasReconcileGate_def HasGate_def gate_HasSentinels_def
      HasPreReconcileExternal_def HasReconcileGateExternal_def HasExternal_def effectiveResolver_def
      Let_def split: option.splits)

lemma enqueue_gate_open:
  "ob_pre box = None \<Longrightarrow> effectiveBox k obj gvk = Some box \<Longrightarrow> EvaluateEnqueueFilter k now gvk obj opts"
  by (auto simp: EvaluateEnqueueFilter_def HasEnqueueGate_def split: option.splits)

lemma run_reconcile_gate_held:
  assumes "run_reconcile_gate k now c r0 opts = (False, reason)"
  shows "(\<exists>gc r. pc_reconcile c = Some gc \<and> gc_fail_policy gc = FailClosed \<and>
      snd (ct_external k r (gc_external gc)) \<noteq> None) \<or>
    (gate_HasSentinels (pc_reconcile c) \<and> \<not> SentinelsAllowed (pc_reconcile c) (eo_sentinels opts)) \<or>
    (\<not> gate_HasSentinels (pc_reconcile c) \<and>
     (\<exists>r. \<not> conditions_hold k now r (gate_WhenConditions (pc_reconcile c)) (gate_OrConditions (pc_reconcile c)) \<and>
        reason = gate_reason_loop k now r (gate_WhenConditions (pc_reconcile c))))"
proof -
  define shared where
    "shared = (if HasPreReconcileExternal (Some c) then ct_external k r0 (pc_external c) else (r0, None))"
  define own where
    "own = (if HasReconcileGateExternal (Some c) then ct_external k (fst shared) (ExternalCalls (pc_reconcile c))
            else (fst shared, None))"
  have eq: "run_reconcile_gate k now c r0 opts =
    (if snd shared \<noteq> None then (True, [])
     else if snd own \<noteq> None then
        (case pc_reconcile c of
           Some gc \<Rightarrow> (if gc_fail_policy gc = FailClosed then
               (False, ''reconcileGate: external evaluation failed (failPolicy: closed)'') else (True, []))
         | None \<Rightarrow> (True, []))
      else if gate_HasSentinels (pc_reconcile c) then (SentinelsAllowed (pc_reconcile c) (eo_sentinels opts), [])
      else if \<not> conditions_hold k now (fst own) (gate_WhenConditions (pc_reconcile c)) (gate_OrConditions (pc_reconcile c))
      then (False, gate_reason_loop k now (fst own) (gate_WhenConditions (pc_reconcile c)))
      else (True, []))"
    unfolding run_reconcile_gate_def Let_def shared_def own_def WhenConditions_def OrConditions_def
      preReconcileGateReason_def by (simp only: option.case)
  have run: "snd shared = None" using assms unfolding eq by (simp split: if_splits)
  note held = assms [unfolded eq if_not_P [OF not_not [THEN iffD2, OF run]]]
  show ?thesis
  proof (cases "snd own = None")
    case True
    with held show ?thesis by (simp split: if_splits) blast
  next
    case False
    then have "snd (ct_external k (fst shared) (ExternalCalls (pc_reconcile c))) \<noteq> None"
      by (auto simp: own_def split: if_splits)
    with False held show ?thesis
      by (auto simp: ExternalCalls_def split: option.splits if_splits)
  qed
qed

section \<open>Properties\<close>

text \<open>
  An object is held back from the reconciler only for a declared cause: the gate's
  external call failed under the closed policy; or the gate names sentinels and none of them
  is \<open>true\<close> in the event's payload; or it names none and its conditions do not hold, in which
  case the reason quotes the first \<open>when\<close> condition that fails or, when all of them hold,
  says that no \<open>or\<close> condition is satisfied.  A missing entry, box or resolver, a failing
  shared call and a failing call under any other policy let the object through.
\<close>
lemma held_object_has_a_cause:
  assumes "EvaluatePreReconcile k now gvk obj opts = (False, reason)"
  shows "\<exists>box c g. effectiveBox k obj gvk = Some box \<and> ob_pre box = Some c \<and> pc_reconcile c = g \<and>
    ((\<exists>gc r. g = Some gc \<and> gc_fail_policy gc = FailClosed \<and> snd (ct_external k r (gc_external gc)) \<noteq> None) \<or>
     (gate_HasSentinels g \<and> (\<nexists>m s. eo_sentinels opts = Some m \<and> SentinelContains g s \<and> m s = Some ''true'')) \<or>
     (\<not> gate_HasSentinels g \<and>
      (\<exists>r. if list_all (\<lambda>w. conditions_hold k now r [w] []) (gate_WhenConditions g)
           then gate_OrConditions g \<noteq> [] \<and> \<not> list_ex (\<lambda>w. conditions_hold k now r [w] []) (gate_OrConditions g) \<and>
             reason = ''or: no condition satisfied''
           else \<exists>xs w ys. gate_WhenConditions g = xs @ w # ys \<and>
             list_all (\<lambda>d. conditions_hold k now r [d] []) xs \<and> \<not> conditions_hold k now r [w] [] \<and>
             prefix (''when: '' @ ge_quote (ct_goenv k) (c_field w)) reason)))"
proof -
  obtain ob box c r0 where b: "obj = Some ob" "effectiveBox k obj gvk = Some box" "ob_pre box = Some c"
    and run: "run_reconcile_gate k now c r0 opts = (False, reason)"
    using assms by (auto simp: EvaluatePreReconcile_def split: option.splits if_splits)
  let ?g = "pc_reconcile c"
  consider (closed) gc r where "?g = Some gc" "gc_fail_policy gc = FailClosed"
      "snd (ct_external k r (gc_external gc)) \<noteq> None"
    | (sentinels) "gate_HasSentinels ?g" "\<not> SentinelsAllowed ?g (eo_sentinels opts)"
    | (conditions) r where "\<not> gate_HasSentinels ?g"
      "\<not> conditions_hold k now r (gate_WhenConditions ?g) (gate_OrConditions ?g)"
      "reason = gate_reason_loop k now r (gate_WhenConditions ?g)"
    using run_reconcile_gate_held [OF run] by blast
  then show ?thesis
  proof cases
    case closed
    with b show ?thesis by blast
  next
    case sentinels
    with b show ?thesis by (auto simp: SentinelsAllowed_iff)
  next
    case conditions
    have "if list_all (\<lambda>w. conditions_hold k now r [w] []) (gate_WhenConditions ?g)
           then gate_OrConditions ?g \<noteq> [] \<and> \<not> list_ex (\<lambda>w. conditions_hold k now r [w] []) (gate_OrConditions ?g) \<and>
             reason = ''or: no condition satisfied''
           else \<exists>xs w ys. gate_WhenConditions ?g = xs @ w # ys \<and>
             list_all (\<lambda>d. conditions_hold k now r [d] []) xs \<and> \<not> conditions_hold k now r [w] [] \<and>
             prefix (''when: '' @ ge_quote (ct_goenv k) (c_field w)) reason"
      using conditions(2,3) conditions_hold_iff [of k now r "gate_WhenConditions ?g" "gate_OrConditions ?g"]
        gate_reason_or [of k now r "gate_WhenConditions ?g"]
        gate_reason_first [of k now r "gate_WhenConditions ?g"]
      by (simp add: list_all_iff list_ex_iff) blast
    with b conditions(1) show ?thesis by blast
  qed
qed

definition sentinel_gate :: "string list \<Rightarrow> gate_conditions" where
  "sentinel_gate ss =
     \<lparr>gc_external = [], gc_sentinels = ss, gc_event_aware = True, gc_when = [], gc_or = [],
      gc_fail_policy = FailOther []\<rparr>"

definition sentinel_box :: "string list \<Rightarrow> string operator_box" where
  "sentinel_box ss =
     \<lparr>ob_watch = [], ob_events = (\<lambda>_. None),
      ob_pre = Some \<lparr>pc_external = [], pc_sentinels = Some ss, pc_enqueue = None,
                     pc_reconcile = Some (sentinel_gate ss)\<rparr>,
      ob_runtime = None, ob_reconcile = None, ob_emit = None\<rparr>"

definition gate_catalog :: "string list \<Rightarrow> string catalog" where
  "gate_catalog ss =
     \<lparr>ct_entries = [''db'' \<mapsto> \<lparr>ce_box = Some (sentinel_box ss), ce_targets = (\<lambda>_. None)\<rparr>],
      ct_goenv = sample_env, ct_with_sentinels = (\<lambda>_ _ r. r), ct_with_events = (\<lambda>_ r. r),
      ct_external = (\<lambda>r _. (r, None)), ct_parse_duration = (\<lambda>_. None)\<rparr>"

definition sample_gate_object :: gate_object where
  "sample_gate_object =
     \<lparr>go_annotations = (\<lambda>_. None), go_resolver = Some \<lparr>rs_data = Map.empty, rs_exec = (\<lambda>_ _. None)\<rparr>\<rparr>"

lemma sample_box: "effectiveBox (gate_catalog ss) (Some sample_gate_object) ''db'' = Some (sentinel_box ss)"
  by (simp add: effectiveBox_def gate_catalog_def sample_gate_object_def Target_def
      EffectiveOperatorBox_def Box_def)

lemma sample_gate_verdict:
  "ss \<noteq> [] \<Longrightarrow> EvaluatePreReconcile (gate_catalog ss) now ''db'' (Some sample_gate_object) opts =
     (SentinelsAllowed (Some (sentinel_gate ss)) (eo_sentinels opts), [])"
  by (rule sentinel_gate_verdict [OF sample_box])
    (auto simp: sentinel_box_def sentinel_gate_def sample_gate_object_def)

text \<open>
  The lifecycle templates and the requeue block of a serve target are dropped as soon as
  the CRD declares a reconcile block too: the merge starts from the CRD's block and takes from
  the target nothing but hooks.
\<close>
lemma target_templates_are_dropped:
  assumes "target \<noteq> []" "ce_targets c target = Some (Some own)" "ob_reconcile own = Some rt"
    and "ob_reconcile (Box c) = Some rb"
  shows "\<exists>rc. ob_reconcile (EffectiveOperatorBox c target) = Some rc \<and>
    rc_on_create rc = rc_on_create rb \<and> rc_on_reconcile rc = rc_on_reconcile rb \<and>
    rc_on_delete rc = rc_on_delete rb \<and> rc_requeue rc = rc_requeue rb \<and>
    rc_queue rc = rc_queue rb \<and> rc_workers rc = rc_workers rb"
  using assms
  by (auto simp: EffectiveOperatorBox_def mergeReconcileConfig_def Let_def split: option.splits)

end
