(* ===== verification/Informer.thy ===== *)
theory Informer
  imports Namespaces Gates
begin

text \<open>
  From an informer event to the work queue: the sentinels computed on an update
  (\<^verbatim>\<open>pkg/runtime/sentinel\<close>), the admission before the queue and the choice of queue and
  identity (\<^verbatim>\<open>pkg/runtime/informer/enqueue.go\<close>), and the handlers of the informer
  (\<^verbatim>\<open>event.go\<close>).  The informer itself, client-go's shared informer, calls the handlers; the
  wait for the factory to be ready is over when they run.
\<close>

section \<open>Sentinels\<close>

text \<open>The metadata of an object; nil maps, lists and pointers are \<open>None\<close>.\<close>

record object_meta =
  mt_name :: string
  mt_namespace :: string
  mt_generate_name :: string
  mt_uid :: string
  mt_resource_version :: string
  mt_generation :: int
  mt_creation :: int
  mt_deletion :: "int option"
  mt_grace_seconds :: "int option"
  mt_labels :: "(string \<Rightarrow> string option) option"
  mt_annotations :: "(string \<Rightarrow> string option) option"
  mt_finalizers :: "string list option"
  mt_owners :: "string list option"
  mt_managed :: "string list option"

definition ValidSentinels :: "string list" where
  "ValidSentinels =
     [''generationChanged'', ''labelsChanged'', ''annotationsChanged'', ''deletionStarted'',
      ''finalizersChanged'', ''nameChanged'', ''namespaceChanged'', ''generateNameChanged'',
      ''uidChanged'', ''resourceVersionChanged'', ''creationTimestampChanged'',
      ''deletionGracePeriodSecondsChanged'', ''ownerReferenceChanged'', ''managedFieldsChanged'']"

definition IsValid :: "string \<Rightarrow> bool" where
  "IsValid s = List.member ValidSentinels s"

definition IsAllValid :: "string list \<Rightarrow> bool \<times> string list" where
  "IsAllValid s =
     (let unknown = filter (\<lambda>x. \<not> IsValid x) s
      in if length unknown > 0 then (False, unknown) else (True, []))"

definition boolStr :: "bool \<Rightarrow> string" where
  "boolStr v = (if v then ''true'' else ''false'')"

definition computeOne :: "string \<Rightarrow> object_meta \<Rightarrow> object_meta \<Rightarrow> string" where
  "computeOne name old new =
     (if name = ''generationChanged'' then boolStr (mt_generation old \<noteq> mt_generation new)
      else if name = ''labelsChanged'' then boolStr (mt_labels old \<noteq> mt_labels new)
      else if name = ''annotationsChanged'' then boolStr (mt_annotations old \<noteq> mt_annotations new)
      else if name = ''deletionStarted'' then boolStr (mt_deletion old = None \<and> mt_deletion new \<noteq> None)
      else if name = ''finalizersChanged'' then boolStr (mt_finalizers old \<noteq> mt_finalizers new)
      else if name = ''nameChanged'' then boolStr (mt_name old \<noteq> mt_name new)
      else if name = ''namespaceChanged'' then boolStr (mt_namespace old \<noteq> mt_namespace new)
      else if name = ''generateNameChanged'' then boolStr (mt_generate_name old \<noteq> mt_generate_name new)
      else if name = ''uidChanged'' then boolStr (mt_uid old \<noteq> mt_uid new)
      else if name = ''resourceVersionChanged'' then
        boolStr (mt_resource_version old \<noteq> mt_resource_version new)
      else if name = ''creationTimestampChanged'' then boolStr (mt_creation old \<noteq> mt_creation new)
      else if name = ''deletionGracePeriodSecondsChanged'' then
        boolStr (mt_grace_seconds old \<noteq> mt_grace_seconds new)
      else if name = ''ownerReferenceChanged'' then boolStr (mt_owners old \<noteq> mt_owners new)
      else if name = ''managedFieldsChanged'' then boolStr (mt_managed old \<noteq> mt_managed new)
      else [])"

fun compute_loop :: "string list \<Rightarrow> object_meta \<Rightarrow> object_meta \<Rightarrow> (string \<Rightarrow> string option) \<Rightarrow> (string \<Rightarrow> string option)" where
  "compute_loop [] old new result = result"
| "compute_loop (name # names) old new result =
     compute_loop names old new (result(name \<mapsto> computeOne name old new))"

definition Compute :: "string list \<Rightarrow> object_meta \<Rightarrow> object_meta \<Rightarrow> sentinel_map" where
  "Compute declared old new =
     (if length declared = 0 then None else Some (compute_loop declared old new Map.empty))"

section \<open>The factory\<close>

text \<open>
  What a handler sees of an object: its GVK (\<open>None\<close> is the error of \<^verbatim>\<open>gvkFromObj\<close>), its
  metadata if it is an API object behind a possible tombstone, and the resolver over it.
\<close>

record informer_object =
  io_gvk :: "string option"
  io_meta :: "object_meta option"
  io_resolver :: "resolver option"

definition gate_object_of :: "informer_object \<Rightarrow> gate_object option" where
  "gate_object_of obj =
     map_option (\<lambda>m. \<lparr>go_annotations = (case mt_annotations m of None \<Rightarrow> \<lambda>_. None | Some a \<Rightarrow> a),
                      go_resolver = io_resolver obj\<rparr>) (io_meta obj)"

definition ExtractNamespace :: "informer_object \<Rightarrow> string" where
  "ExtractNamespace obj = (case io_meta obj of None \<Rightarrow> [] | Some m \<Rightarrow> mt_namespace m)"

definition ExtractGeneration :: "informer_object \<Rightarrow> int" where
  "ExtractGeneration obj = (case io_meta obj of None \<Rightarrow> 0 | Some m \<Rightarrow> mt_generation m)"

definition ExtractResourceVersion :: "informer_object \<Rightarrow> string" where
  "ExtractResourceVersion obj = (case io_meta obj of None \<Rightarrow> [] | Some m \<Rightarrow> mt_resource_version m)"

text \<open>
  The factory: the catalog may be nil, as may the default queue.  Queues are pointers shared
  with the registry, so a queue is named by the place that holds it.  \<open>fa_key\<close> is client-go's
  \<^verbatim>\<open>MetaNamespaceKeyFunc\<close>.
\<close>

record ('h, 'q) factory =
  fa_ops :: "'q client_queue"
  fa_catalog :: "'h catalog option"
  fa_registry :: "'q queue_registry"
  fa_default :: "'q workqueue option"
  fa_filters :: namespace_filters
  fa_key :: "informer_object \<Rightarrow> string option"

datatype queue_ref = RegisteredQueue string | DefaultQueue

definition deref_queue :: "('h, 'q) factory \<Rightarrow> queue_ref \<Rightarrow> 'q workqueue option" where
  "deref_queue f ref =
     (case ref of RegisteredQueue gvk \<Rightarrow> For (fa_registry f) gvk | DefaultQueue \<Rightarrow> fa_default f)"

definition store_queue :: "queue_ref \<Rightarrow> 'q workqueue \<Rightarrow> ('h, 'q) factory \<Rightarrow> ('h, 'q) factory" where
  "store_queue ref wq f =
     (case ref of
        RegisteredQueue gvk \<Rightarrow>
          f\<lparr>fa_registry := (fa_registry f)\<lparr>qr_queues := (qr_queues (fa_registry f))(gvk \<mapsto> wq)\<rparr>\<rparr>
      | DefaultQueue \<Rightarrow> f\<lparr>fa_default := Some wq\<rparr>)"

definition ComputeSentinels ::
  "('h, 'q) factory \<Rightarrow> string \<Rightarrow> informer_object \<Rightarrow> informer_object \<Rightarrow> string list option \<Rightarrow> sentinel_map" where
  "ComputeSentinels f gvk oldObj newObj opts =
     (case (fa_catalog f, io_meta oldObj, io_meta newObj) of
        (Some k, Some old, Some new) \<Rightarrow>
          (let declared = (case opts of
                             Some ds \<Rightarrow> if length ds > 0 then ds
                                        else GetPreReconcileSentinels k (gate_object_of newObj) gvk
                           | None \<Rightarrow> GetPreReconcileSentinels k (gate_object_of newObj) gvk)
           in if length declared = 0 then None else Compute declared old new)
      | _ \<Rightarrow> None)"

definition queueFor :: "('h, 'q) factory \<Rightarrow> string \<Rightarrow> queue_ref option" where
  "queueFor f gvk =
     (case For (fa_registry f) gvk of
        Some _ \<Rightarrow> Some (RegisteredQueue gvk)
      | None \<Rightarrow> (case fa_default f of None \<Rightarrow> None | Some _ \<Rightarrow> Some DefaultQueue))"

text \<open>\<^verbatim>\<open>EnqueueOptions\<close>: where the event comes from and what was observed beside it.\<close>

datatype enqueue_source = SourcePrimary | SourceWatch | SourceEvent

record enqueue_options =
  op_secondary :: string
  op_source :: enqueue_source
  op_source_name :: string
  op_events :: "(string \<times> gval) list"

definition primary_options :: "string \<Rightarrow> enqueue_options" where
  "primary_options name =
     \<lparr>op_secondary = [], op_source = SourcePrimary, op_source_name = name, op_events = []\<rparr>"

text \<open>The admission; \<open>None\<close> is a panic while the conditions of the queue are evaluated.\<close>

definition allowEnqueue ::
  "('h, 'q) factory \<Rightarrow> gotime \<Rightarrow> string \<Rightarrow> informer_object \<Rightarrow> 'q workqueue option \<Rightarrow> sentinel_map \<Rightarrow>
   enqueue_options \<Rightarrow> bool option" where
  "allowEnqueue f now gvk obj wqo sentinels opts =
     (case wqo of
        None \<Rightarrow> Some False
      | Some wq \<Rightarrow>
          (if \<not> namespaceAllowed (fa_filters f) gvk (ExtractNamespace obj) then Some False
           else case (gate_object_of obj, fa_catalog f) of
                  (Some ob, Some k) \<Rightarrow>
                    (case (if NeedsBehaviourEval wq
                           then EvaluateQueueBehaviourConditions k now gvk (Some ob)
                                  \<lparr>eo_events = [], eo_sentinels = sentinels\<rparr>
                           else Some True) of
                       None \<Rightarrow> None
                     | Some False \<Rightarrow> Some False
                     | Some True \<Rightarrow>
                         (let eo = \<lparr>eo_events = op_events opts, eo_sentinels = sentinels\<rparr>
                          in case op_source opts of
                               SourceWatch \<Rightarrow>
                                 (if op_secondary opts = [] then Some True
                                  else Some (EvaluateWatchEnqueueFilter k now gvk (op_secondary opts) (Some ob) eo))
                             | SourceEvent \<Rightarrow>
                                 (if op_source_name opts = [] then Some True
                                  else Some (EvaluateEventEnqueueFilter k now gvk (op_source_name opts) (Some ob) eo))
                             | SourcePrimary \<Rightarrow>
                                 Some (EvaluateEnqueueFilter k now gvk (Some ob)
                                         \<lparr>eo_events = [], eo_sentinels = sentinels\<rparr>)))
                | _ \<Rightarrow> Some True))"

text \<open>The identity and the payload the item is queued with.\<close>

definition enqueueKey ::
  "('h, 'q) factory \<Rightarrow> string \<Rightarrow> string \<Rightarrow> informer_object \<Rightarrow> queue_ref option \<Rightarrow> sentinel_map \<Rightarrow> bool \<Rightarrow>
   ('h, 'q) factory option" where
  "enqueueKey f gvk key obj ref sentinels secondary =
     (case ref of
        None \<Rightarrow> Some f
      | Some q \<Rightarrow>
          (case (deref_queue f q, io_meta obj) of
             (Some wq, Some m) \<Rightarrow>
               (let eventAware = (case fa_catalog f of
                                    None \<Rightarrow> False | Some k \<Rightarrow> IsEventAware k (gate_object_of obj) gvk);
                    ops = fa_ops f;
                    res = (if secondary then
                             (if eventAware then EnqueueWithKeyEventSentinels ops key gvk sentinels wq
                              else if sentinels \<noteq> None then EnqueueWithKeySentinels ops key gvk sentinels wq
                              else EnqueueWithKey ops key gvk wq)
                           else
                             (if eventAware then EnqueueWithEventSentinels ops (fa_key f) obj gvk sentinels wq
                              else if sentinels \<noteq> None then EnqueueWithSentinels ops (fa_key f) obj gvk sentinels wq
                              else Enqueue ops (fa_key f) obj gvk wq))
                in map_option (\<lambda>wq'. store_queue q wq' f) res)
           | _ \<Rightarrow> Some f))"

definition enqueue ::
  "('h, 'q) factory \<Rightarrow> string \<Rightarrow> informer_object \<Rightarrow> sentinel_map \<Rightarrow> ('h, 'q) factory option" where
  "enqueue f gvk obj sentinels =
     (case io_meta obj of
        None \<Rightarrow> Some f
      | Some m \<Rightarrow>
          (let key = (if mt_namespace m = [] then mt_name m else mt_namespace m @ ''/'' @ mt_name m)
           in enqueueKey f gvk key obj (queueFor f gvk) sentinels False))"

definition AllowAndEnqueueKey ::
  "('h, 'q) factory \<Rightarrow> gotime \<Rightarrow> string \<Rightarrow> string \<Rightarrow> informer_object \<Rightarrow> queue_ref option \<Rightarrow>
   sentinel_map \<Rightarrow> enqueue_options \<Rightarrow> (('h, 'q) factory \<times> bool) option" where
  "AllowAndEnqueueKey f now gvk key obj ref sentinels opts =
     (case allowEnqueue f now gvk obj (Option.bind ref (deref_queue f)) sentinels opts of
        None \<Rightarrow> None
      | Some False \<Rightarrow> Some (f, False)
      | Some True \<Rightarrow> map_option (\<lambda>f'. (f', True)) (enqueueKey f gvk key obj ref sentinels True))"

section \<open>The handlers\<close>

definition handleEvent :: "('h, 'q) factory \<Rightarrow> informer_object \<Rightarrow> ('h, 'q) factory option" where
  "handleEvent f obj =
     (case io_gvk obj of
        None \<Rightarrow> Some f
      | Some gvk \<Rightarrow>
          (if \<not> namespaceAllowed (fa_filters f) gvk (ExtractNamespace obj) then Some f
           else enqueue f gvk obj None))"

definition handleUpdate ::
  "('h, 'q) factory \<Rightarrow> gotime \<Rightarrow> string \<Rightarrow> informer_object \<Rightarrow> informer_object \<Rightarrow> ('h, 'q) factory option" where
  "handleUpdate f now gvk oldObj newObj =
     (if ExtractGeneration oldObj \<noteq> 0 \<and> ExtractGeneration oldObj = ExtractGeneration newObj \<and>
         ExtractResourceVersion oldObj \<noteq> ExtractResourceVersion newObj
      then Some f
      else
        (let sentinels = ComputeSentinels f gvk oldObj newObj None
         in case allowEnqueue f now gvk newObj (For (fa_registry f) gvk) sentinels (primary_options gvk) of
              None \<Rightarrow> None
            | Some False \<Rightarrow> Some f
            | Some True \<Rightarrow> enqueue f gvk newObj sentinels))"

section \<open>Lemmas\<close>

lemma compute_loop_eq:
  "compute_loop names old new result =
     (\<lambda>s. if s \<in> set names then Some (computeOne s old new) else result s)"
  by (induction names arbitrary: result) auto

lemma Compute_eq:
  "Compute declared old new =
     (if declared = [] then None
      else Some (\<lambda>s. if s \<in> set declared then Some (computeOne s old new) else None))"
  by (simp add: Compute_def compute_loop_eq)

lemma boolStr_iff [simp]:
  "boolStr v = ''true'' \<longleftrightarrow> v" "boolStr v = ''false'' \<longleftrightarrow> \<not> v" "''true'' = boolStr v \<longleftrightarrow> v"
  by (auto simp: boolStr_def)

lemma IsValid_cases:
  "IsValid s \<longleftrightarrow>
     s = ''generationChanged'' \<or> s = ''labelsChanged'' \<or> s = ''annotationsChanged'' \<or> s = ''deletionStarted'' \<or>
     s = ''finalizersChanged'' \<or> s = ''nameChanged'' \<or> s = ''namespaceChanged'' \<or> s = ''generateNameChanged'' \<or>
     s = ''uidChanged'' \<or> s = ''resourceVersionChanged'' \<or> s = ''creationTimestampChanged'' \<or>
     s = ''deletionGracePeriodSecondsChanged'' \<or> s = ''ownerReferenceChanged'' \<or> s = ''managedFieldsChanged''"
  by (simp add: IsValid_def ValidSentinels_def)

lemma known_if:
  "(\<not> c \<Longrightarrow> \<exists>b. y = boolStr b) \<Longrightarrow> \<exists>b. (if c then boolStr x else y) = boolStr b"
  "\<not> x \<Longrightarrow> (\<not> c \<Longrightarrow> y = ''false'') \<Longrightarrow> (if c then boolStr x else y) = ''false''"
  "\<not> c \<Longrightarrow> y = [] \<Longrightarrow> (if c then boolStr x else y) = []"
  by (auto simp: boolStr_def)

lemma computeOne_unknown: "\<not> IsValid s \<Longrightarrow> computeOne s old new = []"
  unfolding IsValid_cases de_Morgan_disj computeOne_def by (elim conjE) (intro known_if(3) refl; assumption)

lemma computeOne_known: "IsValid s \<Longrightarrow> \<exists>b. computeOne s old new = boolStr b"
  unfolding computeOne_def by (intro known_if(1)) (simp only: IsValid_cases simp_thms)

lemma computeOne_same: "IsValid s \<Longrightarrow> computeOne s m m = ''false''"
  unfolding computeOne_def by (intro known_if(2)) (simp_all only: IsValid_cases simp_thms not_not de_Morgan_conj)

lemma deref_store [simp]:
  "deref_queue (store_queue q wq f) q = Some wq"
  "fa_ops (store_queue q wq f) = fa_ops f"
  "fa_catalog (store_queue q wq f) = fa_catalog f"
  "fa_filters (store_queue q wq f) = fa_filters f"
  "fa_key (store_queue q wq f) = fa_key f"
  by (cases q; simp add: store_queue_def deref_queue_def For_def)+

lemma store_other: "q \<noteq> p \<Longrightarrow> deref_queue (store_queue q wq f) p = deref_queue f p"
  by (cases q; cases p) (auto simp: store_queue_def deref_queue_def For_def)

lemma queueFor_registered: "For (fa_registry f) gvk = Some wq \<Longrightarrow> queueFor f gvk = Some (RegisteredQueue gvk)"
  by (simp add: queueFor_def)

lemma For_store [simp]:
  "For (fa_registry (store_queue (RegisteredQueue gvk) wq f)) g = (if g = gvk then Some wq else For (fa_registry f) g)"
  by (simp add: store_queue_def For_def)

lemma queue_add_frame [simp]:
  "wq_queue (q_add ops item wq) = cq_add ops item (wq_queue wq)"
  "Sentinels (q_add ops item wq) i = Sentinels wq i"
  by (simp_all add: q_add_def Sentinels_def)

lemma accepted_event:
  assumes "evaluateQueueBehaviour ops wq = Some (wq', True)" "fa_key f obj = Some key" "key \<noteq> []"
    and "item = \<lparr>qi_key = key, qi_gvk = gvk, qi_event = wq_next_event wq + 1\<rparr>"
  shows "\<exists>wq''. EnqueueWithEventSentinels ops (fa_key f) obj gvk s wq = Some wq'' \<and>
    wq_queue wq'' = cq_add ops item (wq_queue wq) \<and>
    Sentinels wq'' = (Sentinels wq)(item := s)"
  using assms behaviour_frame [OF assms(1)]
  by (auto simp: EnqueueWithEventSentinels_def resolveKeyFromCache_def enqueue_cases Sentinels_def Let_def
      fun_eq_iff)

lemma accepted_plain:
  assumes "evaluateQueueBehaviour ops wq = Some (wq', True)" "fa_key f obj = Some key" "key \<noteq> []"
  shows "\<exists>wq''. Enqueue ops (fa_key f) obj gvk wq = Some wq'' \<and>
    wq_queue wq'' = cq_add ops (normal_item key gvk) (wq_queue wq) \<and> Sentinels wq'' = Sentinels wq"
  using assms behaviour_frame [OF assms(1)]
  by (auto simp: Enqueue_def resolveKeyFromCache_def addWithEval_def Sentinels_def q_add_def fun_eq_iff)

lemma update_stores:
  assumes "io_meta newObj = Some m" "fa_key f newObj = Some key" "key \<noteq> []" "fa_catalog f = Some k"
    and "IsEventAware k (gate_object_of newObj) gvk" "For (fa_registry f) gvk = Some wq"
    and "ExtractGeneration oldObj \<noteq> ExtractGeneration newObj"
    and "payload = ComputeSentinels f gvk oldObj newObj None"
    and "allowEnqueue f now gvk newObj (Some wq) payload (primary_options gvk) = Some True"
    and "evaluateQueueBehaviour (fa_ops f) wq = Some (wq', True)"
    and "item = \<lparr>qi_key = key, qi_gvk = gvk, qi_event = wq_next_event wq + 1\<rparr>"
  shows "\<exists>wq''. handleUpdate f now gvk oldObj newObj = Some (store_queue (RegisteredQueue gvk) wq'' f) \<and>
    wq_queue wq'' = cq_add (fa_ops f) item (wq_queue wq) \<and> Sentinels wq'' = (Sentinels wq)(item := payload)"
proof -
  obtain wq'' where enq: "EnqueueWithEventSentinels (fa_ops f) (fa_key f) newObj gvk payload wq = Some wq''"
    "wq_queue wq'' = cq_add (fa_ops f) item (wq_queue wq)" "Sentinels wq'' = (Sentinels wq)(item := payload)"
    using accepted_event [OF assms(10,2,3,11), of payload] by blast
  moreover from enq(1) have "handleUpdate f now gvk oldObj newObj = Some (store_queue (RegisteredQueue gvk) wq'' f)"
    using assms(1,4-9)
    by (simp add: handleUpdate_def enqueue_def enqueueKey_def queueFor_registered deref_queue_def Let_def)
  ultimately show ?thesis by blast
qed

section \<open>Properties\<close>

text \<open>A factory with one queue, for the CRD \<open>db\<close>, and a catalog for it.\<close>

definition sample_factory :: "string catalog \<Rightarrow> (string, list_queue) factory" where
  "sample_factory k =
     \<lparr>fa_ops = list_queue_ops, fa_catalog = Some k,
      fa_registry = fst (Register empty_lq ''db'' None NewQueueRegistry), fa_default = None,
      fa_filters = (\<lambda>_. None), fa_key = (\<lambda>_. Some ''apps/a'')\<rparr>"

definition sample_meta :: object_meta where
  "sample_meta =
     \<lparr>mt_name = ''a'', mt_namespace = ''apps'', mt_generate_name = [], mt_uid = ''u'',
      mt_resource_version = ''1'', mt_generation = 1, mt_creation = 0, mt_deletion = None,
      mt_grace_seconds = None, mt_labels = None, mt_annotations = None, mt_finalizers = None,
      mt_owners = None, mt_managed = None\<rparr>"

definition relabeled_meta :: object_meta where
  "relabeled_meta =
     sample_meta\<lparr>mt_labels := Some [''team'' \<mapsto> ''x''], mt_resource_version := ''2'', mt_generation := 2\<rparr>"

definition sample_object :: "object_meta \<Rightarrow> informer_object" where
  "sample_object m =
     \<lparr>io_gvk = Some ''db'', io_meta = Some m, io_resolver = go_resolver sample_gate_object\<rparr>"

lemma sample_resolver: "go_resolver sample_gate_object = Some \<lparr>rs_data = Map.empty, rs_exec = (\<lambda>_ _. None)\<rparr>"
  by (simp add: sample_gate_object_def)

lemma sample_gate_view [simp]:
  "mt_annotations m = None \<Longrightarrow> gate_object_of (sample_object m) = Some sample_gate_object"
  by (simp add: gate_object_of_def sample_object_def sample_gate_object_def)

lemma sample_metas [simp]:
  "mt_annotations sample_meta = None" "mt_annotations relabeled_meta = None"
  "mt_namespace sample_meta = ''apps''"
  "mt_generation sample_meta = 1" "mt_generation relabeled_meta = 2"
  "mt_resource_version sample_meta = ''1''" "mt_resource_version relabeled_meta = ''2''"
  by (simp_all add: sample_meta_def relabeled_meta_def)

lemma sample_objects [simp]:
  "io_meta (sample_object m) = Some m" "io_gvk (sample_object m) = Some ''db''"
  "ExtractGeneration (sample_object m) = mt_generation m"
  "ExtractResourceVersion (sample_object m) = mt_resource_version m"
  by (simp_all add: sample_object_def ExtractGeneration_def ExtractResourceVersion_def)

lemma sample_factory_sel [simp]:
  "fa_catalog (sample_factory k) = Some k" "fa_ops (sample_factory k) = list_queue_ops"
  "fa_key (sample_factory k) obj = Some ''apps/a''"
  "For (fa_registry (sample_factory k)) ''db'' = Some (sample_queue None)"
  "namespaceAllowed (fa_filters (sample_factory k)) g ns"
  by (simp_all add: sample_factory_def namespaceAllowed_def For_def Register_def sample_queue_def Let_def)

lemma sample_queue_open [simp]:
  "evaluateQueueBehaviour ops (sample_queue None) = Some (sample_queue None, True)"
  "\<not> NeedsBehaviourEval (sample_queue None)" "wq_next_event (sample_queue None) = 0"
  by (simp_all add: sample_queue_eq evaluateQueueBehaviour_def NeedsBehaviourEval_def OnLimitCond_def
      OnThresholdCond_def)

lemma sample_sentinels [simp]:
  "mt_annotations new = None \<Longrightarrow>
   ComputeSentinels (sample_factory (gate_catalog ss)) ''db'' (sample_object old) (sample_object new) None =
     Compute ss old new"
  by (simp add: ComputeSentinels_def GetPreReconcileSentinels_def sample_box sentinel_box_def
      DeclaredSentinels_def Compute_def)

lemma sample_event_aware [simp]: "IsEventAware (gate_catalog ss) (Some sample_gate_object) ''db''"
  by (simp add: event_aware_box sample_box sentinel_box_def sentinel_gate_def)

lemma sample_admission [simp]:
  "mt_annotations m = None \<Longrightarrow>
   allowEnqueue (sample_factory (gate_catalog ss)) now ''db'' (sample_object m) (Some (sample_queue None)) s
     (primary_options ''db'') = Some True"
  by (simp add: allowEnqueue_def primary_options_def EvaluateEnqueueFilter_def sample_box sentinel_box_def
      HasEnqueueGate_def HasGate_def)

lemmas sample_delivery =
  update_stores [of "sample_object relabeled_meta" relabeled_meta
      "sample_factory (gate_catalog [''labelsChanged''])" "''apps/a''" "gate_catalog [''labelsChanged'']" "''db''"
      "sample_queue None" "sample_object sample_meta" "Compute [''labelsChanged''] sample_meta relabeled_meta"
      "sample_time 9 0" "sample_queue None" "\<lparr>qi_key = ''apps/a'', qi_gvk = ''db'', qi_event = 1\<rparr>", simplified]

text \<open>
  C26. A sentinel that is true when an update reaches the queue comes with a new generation:
  an update of labels, annotations or finalizers alone keeps the generation of a resource that
  tracks one and is dropped, and a resync, which has the same resource version and hence the
  same object, makes every sentinel false.  So the metadata sentinels never fire on their own.
\<close>
theorem true_sentinels_need_a_generation:
  assumes "ExtractGeneration oldObj \<noteq> 0"
    and same_version: "ExtractResourceVersion oldObj = ExtractResourceVersion newObj \<Longrightarrow> io_meta oldObj = io_meta newObj"
    and "handleUpdate f now gvk oldObj newObj \<noteq> Some f"
    and "ComputeSentinels f gvk oldObj newObj None = Some payload" "IsValid s" "payload s = Some ''true''"
  shows "ExtractGeneration oldObj \<noteq> ExtractGeneration newObj"
proof
  assume same: "ExtractGeneration oldObj = ExtractGeneration newObj"
  have "io_meta oldObj = io_meta newObj"
    using assms(1,3) same by (intro same_version) (auto simp: handleUpdate_def split: if_splits)
  then have "payload s \<in> {None, Some ''false''}"
    using assms(4) computeOne_same [OF assms(5)]
    by (auto simp: ComputeSentinels_def Compute_eq Let_def split: option.splits if_splits)
  with assms(6) show False by simp
qed

theorem true_sentinels_need_a_generation_witness:
  "handleUpdate (sample_factory (gate_catalog [''labelsChanged''])) (sample_time 9 0) ''db''
     (sample_object sample_meta) (sample_object relabeled_meta) \<noteq> Some (sample_factory (gate_catalog [''labelsChanged''])) \<and>
   mt_generation sample_meta \<noteq> mt_generation relabeled_meta"
proof -
  let ?f = "sample_factory (gate_catalog [''labelsChanged''])"
  let ?p = "\<lambda>s. if s = ''labelsChanged'' then Some (computeOne s sample_meta relabeled_meta) else None"
  have "Depth list_queue_ops wq = 1 \<Longrightarrow> store_queue (RegisteredQueue ''db'') wq ?f \<noteq> ?f" for wq
  proof
    assume "Depth list_queue_ops wq = 1" "store_queue (RegisteredQueue ''db'') wq ?f = ?f"
    then have "wq = sample_queue None"
      using For_store [of "''db''" wq ?f "''db''"] by simp
    with \<open>Depth list_queue_ops wq = 1\<close> show False
      by (simp add: sample_queue_eq Depth_def list_queue_ops_def empty_lq_def)
  qed
  moreover obtain wq where "handleUpdate ?f (sample_time 9 0) ''db'' (sample_object sample_meta)
      (sample_object relabeled_meta) = Some (store_queue (RegisteredQueue ''db'') wq ?f)"
    "wq_queue wq = cq_add list_queue_ops \<lparr>qi_key = ''apps/a'', qi_gvk = ''db'', qi_event = 1\<rparr>
       (wq_queue (sample_queue None))"
    using sample_delivery by blast
  moreover from this(2) have "Depth list_queue_ops wq = 1"
    by (simp add: Depth_def list_queue_ops_def lq_add_def sample_queue_eq empty_lq_def)
  ultimately have moved: "handleUpdate ?f (sample_time 9 0) ''db'' (sample_object sample_meta)
      (sample_object relabeled_meta) \<noteq> Some ?f" by auto
  have "Compute [''labelsChanged''] sample_meta relabeled_meta = Some ?p"
    by (simp add: Compute_eq)
  moreover have "?p ''labelsChanged'' = Some ''true''"
    by (simp add: computeOne_def sample_meta_def relabeled_meta_def)
  ultimately show ?thesis
    using moved true_sentinels_need_a_generation [of "sample_object sample_meta" "sample_object relabeled_meta"
        ?f "sample_time 9 0" "''db''" ?p "''labelsChanged''"]
    by (simp add: IsValid_cases)
qed



text \<open>
  The creation of an object bypasses the enqueue gate: the item is queued although the
  admission that updates go through refuses the object, and it carries no new payload.
\<close>
lemma created_object_skips_the_gate:
  assumes "io_gvk obj = Some gvk" "io_meta obj = Some m" "fa_key f obj = Some key" "key \<noteq> []"
    and "fa_catalog f = Some k" "\<not> IsEventAware k (gate_object_of obj) gvk"
    and "namespaceAllowed (fa_filters f) gvk (mt_namespace m)"
    and "For (fa_registry f) gvk = Some wq" "evaluateQueueBehaviour (fa_ops f) wq = Some (wq', True)"
    and "allowEnqueue f now gvk obj (Some wq) None (primary_options gvk) = Some False"
  shows "\<exists>f' wq''. handleEvent f obj = Some f' \<and> For (fa_registry f') gvk = Some wq'' \<and>
    wq_queue wq'' = cq_add (fa_ops f) (normal_item key gvk) (wq_queue wq) \<and> Sentinels wq'' = Sentinels wq"
proof -
  obtain wq'' where enq: "Enqueue (fa_ops f) (fa_key f) obj gvk wq = Some wq''"
    "wq_queue wq'' = cq_add (fa_ops f) (normal_item key gvk) (wq_queue wq)" "Sentinels wq'' = Sentinels wq"
    using accepted_plain [OF assms(9,3,4)] by blast
  have "handleEvent f obj = Some (store_queue (RegisteredQueue gvk) wq'' f)"
    using assms(1,2,5-8) enq(1)
    by (simp add: handleEvent_def enqueue_def enqueueKey_def queueFor_registered deref_queue_def
        ExtractNamespace_def Let_def)
  with enq show ?thesis by simp
qed

definition enqueue_gated_catalog :: "string catalog" where
  "enqueue_gated_catalog =
     (gate_catalog [])\<lparr>ct_entries := [''db'' \<mapsto> \<lparr>ce_box = Some ((sentinel_box [])\<lparr>ob_pre :=
        Some \<lparr>pc_external = [], pc_sentinels = Some [''labelsChanged''],
              pc_enqueue = Some (sentinel_gate [''labelsChanged'']), pc_reconcile = None\<rparr>\<rparr>),
        ce_targets = (\<lambda>_. None)\<rparr>]\<rparr>"

end
