(* ===== verification/Lifecycle.thy ===== *)
theory Lifecycle
  imports Dependencies Health WorkQueue
begin

text \<open>
  Which CRDs run: the start-up pass of \<^verbatim>\<open>DependencyCoordinator.Coordinate\<close>, one tick of the
  retry loop that watches for CRDs that come and go (\<^verbatim>\<open>post_start_hooks.go\<close>), and the drain of
  the workers of a CRD that went away.  The channels \<^verbatim>\<open>startedCh\<close> and \<^verbatim>\<open>healthyCh\<close> are modelled
  by whether they are closed.  Parameters: what the API server says about a CRD, and whether
  a drain ends before its timeout; reconcilers, goroutines and the autoscaler of a CRD are what
  \<^verbatim>\<open>startCRDWorkers\<close> starts and are logged as one start.
\<close>

section \<open>State\<close>

record crd_spec =
  cd_name :: string
  cd_gvk :: string
  cd_depends :: "(string \<times> string) list"    \<comment> \<open>CRD name and condition\<close>
  cd_workers :: int

text \<open>An informer entry of the factory: its flags \<^verbatim>\<open>Missing\<close> and \<^verbatim>\<open>WasNeverStarted\<close>.\<close>

record informer_entry =
  ie_missing :: bool
  ie_never_started :: bool

record lifecycle =
  lc_entries :: "string \<Rightarrow> informer_entry option"   \<comment> \<open>\<^verbatim>\<open>informers\<close>, by GVK\<close>
  lc_missing :: "string list"                        \<comment> \<open>keys of \<^verbatim>\<open>missing\<close>\<close>
  lc_running :: "string \<Rightarrow> bool"                     \<comment> \<open>\<^verbatim>\<open>started\<close>\<close>
  lc_started_ch :: "string \<Rightarrow> bool"                  \<comment> \<open>\<^verbatim>\<open>startedCh\<close> is closed\<close>
  lc_healthy_ch :: "string \<Rightarrow> bool"                  \<comment> \<open>\<^verbatim>\<open>healthyCh\<close> is closed\<close>
  lc_deactivated :: "string \<Rightarrow> bool"
  lc_health :: "string \<Rightarrow> crd_health"
  lc_any_online :: bool
  lc_all_online :: bool
  lc_starts :: "string list"                         \<comment> \<open>calls of \<^verbatim>\<open>startCRDWorkers\<close>\<close>

text \<open>\<^verbatim>\<open>crdExists\<close>: present, not installed, or an error that says nothing.\<close>

datatype presence = Present | Absent | Unreachable

definition find_crd :: "crd_spec list \<Rightarrow> string \<Rightarrow> crd_spec option" where
  "find_crd crds name = List.find (\<lambda>c. cd_name c = name) crds"

definition nameToGVK :: "crd_spec list \<Rightarrow> string \<Rightarrow> string option" where
  "nameToGVK crds name = map_option cd_gvk (find_crd crds name)"

section \<open>Starting one CRD\<close>

fun dependenciesReady_loop :: "crd_spec list \<Rightarrow> lifecycle \<Rightarrow> (string \<times> string) list \<Rightarrow> bool" where
  "dependenciesReady_loop crds s [] = True"
| "dependenciesReady_loop crds s ((dep, cond) # deps) =
     (case nameToGVK crds dep of
        None \<Rightarrow> False
      | Some gvk \<Rightarrow>
          (if to_lower cond = ''healthy''
           then (if lc_healthy_ch s gvk then dependenciesReady_loop crds s deps else False)
           else (if lc_started_ch s gvk then dependenciesReady_loop crds s deps else False)))"

definition dependenciesReady :: "crd_spec list \<Rightarrow> lifecycle \<Rightarrow> crd_spec \<Rightarrow> bool" where
  "dependenciesReady crds s crd = dependenciesReady_loop crds s (cd_depends crd)"

definition on_lc_health :: "string \<Rightarrow> (crd_health \<Rightarrow> crd_health) \<Rightarrow> lifecycle \<Rightarrow> lifecycle" where
  "on_lc_health gvk f s = s\<lparr>lc_health := (lc_health s)(gvk := f (lc_health s gvk))\<rparr>"

definition startCRDWorkers :: "int \<Rightarrow> string \<Rightarrow> int \<Rightarrow> lifecycle \<Rightarrow> lifecycle" where
  "startCRDWorkers now gvk workers s =
     (on_lc_health gvk (\<lambda>h. SetTotalWorkers workers (SetStarted now h)) s)
       \<lparr>lc_running := (lc_running s)(gvk := True), lc_starts := lc_starts s @ [gvk]\<rparr>"

section \<open>The start-up pass\<close>

definition start_one :: "crd_spec list \<Rightarrow> int \<Rightarrow> string \<Rightarrow> lifecycle \<times> int \<Rightarrow> lifecycle \<times> int" where
  "start_one crds now name = (\<lambda>(s, online).
     case find_crd crds name of
       None \<Rightarrow> (s, online)
     | Some crd \<Rightarrow>
         (if \<not> dependenciesReady crds s crd then (s, online)
          else if List.member (lc_missing s) (cd_gvk crd) then (s, online)
          else
            (let s1 = startCRDWorkers now (cd_gvk crd) (cd_workers crd) s
             in (s1\<lparr>lc_started_ch := (lc_started_ch s1)(cd_gvk crd := True), lc_any_online := True\<rparr>,
                 online + 1))))"

fun start_loop :: "crd_spec list \<Rightarrow> int \<Rightarrow> string list \<Rightarrow> lifecycle \<times> int \<Rightarrow> lifecycle \<times> int" where
  "start_loop crds now [] st = st"
| "start_loop crds now (name # names) st = start_loop crds now names (start_one crds now name st)"

definition Coordinate_start :: "crd_spec list \<Rightarrow> int \<Rightarrow> string list \<Rightarrow> lifecycle \<Rightarrow> lifecycle" where
  "Coordinate_start crds now order s =
     (let (s1, online) = start_loop crds now order (s\<lparr>lc_all_online := False\<rparr>, 0)
      in if online = int (length order) then s1\<lparr>lc_all_online := True\<rparr>
         else s1\<lparr>lc_all_online := False\<rparr>)"

section \<open>CRDs that come and go\<close>

definition close_healthy_of :: "crd_spec list \<Rightarrow> int \<Rightarrow> string \<Rightarrow> string \<Rightarrow> lifecycle \<Rightarrow> lifecycle" where
  "close_healthy_of crds now name dep s =
     (case find_crd crds dep of
        None \<Rightarrow> s
      | Some crd \<Rightarrow>
          (if map_of (cd_depends crd) name = Some ''healthy'' then
             (if lc_healthy_ch s (cd_gvk crd) then s
              else if \<not> h_healthy (lc_health s (cd_gvk crd)) then s
              else on_lc_health (cd_gvk crd) (SetStarted now)
                     (s\<lparr>lc_healthy_ch := (lc_healthy_ch s)(cd_gvk crd := True)\<rparr>))
           else s))"

definition activateCRD :: "crd_spec list \<Rightarrow> dep_graph \<Rightarrow> int \<Rightarrow> crd_spec \<Rightarrow> lifecycle \<Rightarrow> lifecycle" where
  "activateCRD crds g now crd s =
     (let gvk = cd_gvk crd;
          s1 = s\<lparr>lc_entries := (lc_entries s)(gvk := map_option
                   (\<lambda>_. \<lparr>ie_missing = False, ie_never_started = False\<rparr>) (lc_entries s gvk)),
                 lc_missing := removeAll gvk (lc_missing s)\<rparr>;
          s2 = startCRDWorkers now gvk (cd_workers crd) s1;
          s3 = on_lc_health gvk (\<lambda>h. SetTotalWorkers (cd_workers crd) (SetStarted now h))
                 (s2\<lparr>lc_deactivated := (lc_deactivated s2)(gvk := False)\<rparr>);
          s4 = (if lc_started_ch s3 gvk then s3
                else on_lc_health gvk (SetStarted now)
                       (s3\<lparr>lc_started_ch := (lc_started_ch s3)(gvk := True)\<rparr>))
      in fold (close_healthy_of crds now (cd_name crd)) (GetDependents g (cd_name crd)) s4)"

text \<open>The workers of a CRD that went away; \<open>drained\<close> says whether they end before the timeout.\<close>

definition deactivateCRD :: "bool \<Rightarrow> string \<Rightarrow> lifecycle \<Rightarrow> lifecycle" where
  "deactivateCRD drained gvk s =
     (if drained then
        (on_lc_health gvk (\<lambda>h. MarkWorkersStopped (ResetWorkerCounts h)) s)
          \<lparr>lc_deactivated := (lc_deactivated s)(gvk := True)\<rparr>
      else s)"

definition degrade_dependent :: "crd_spec list \<Rightarrow> string \<Rightarrow> string \<Rightarrow> lifecycle \<Rightarrow> lifecycle" where
  "degrade_dependent crds name dep s =
     (case find_crd crds dep of
        None \<Rightarrow> s
      | Some crd \<Rightarrow>
          (if map_of (cd_depends crd) name = Some ''healthy'' then on_lc_health (cd_gvk crd) SetDegraded s
           else s))"

text \<open>
  The first phase, for one registered informer.  \<open>gone\<close> is \<^verbatim>\<open>runtimeMissing\<close>, which becomes the
  factory's map of missing CRDs as soon as it has an entry.
\<close>

definition detect_missing ::
  "crd_spec list \<Rightarrow> dep_graph \<Rightarrow> int \<Rightarrow> (string \<Rightarrow> presence) \<Rightarrow> (string \<Rightarrow> bool) \<Rightarrow> crd_spec \<Rightarrow>
   lifecycle \<times> string list \<Rightarrow> lifecycle \<times> string list" where
  "detect_missing crds g now exists drained crd = (\<lambda>(s, gone).
     let gvk = cd_gvk crd in
     case lc_entries s gvk of
       None \<Rightarrow> (s, gone)
     | Some entry \<Rightarrow>
         (if ie_missing entry \<or> exists gvk \<noteq> Absent then (s, gone)
          else
            (let gone' = gone @ [gvk];
                 s1 = s\<lparr>lc_entries := (lc_entries s)(gvk \<mapsto> entry\<lparr>ie_missing := True\<rparr>), lc_missing := gone'\<rparr>;
                 s2 = on_lc_health gvk (\<lambda>h. SetDegraded (SetMissingAtRuntime now h)) s1;
                 s3 = s2\<lparr>lc_all_online := False\<rparr>;
                 s4 = fold (degrade_dependent crds (cd_name crd)) (GetDependents g (cd_name crd)) s3
             in (if lc_deactivated s4 gvk then s4 else deactivateCRD (drained gvk) gvk s4, gone'))))"

fun detect_loop ::
  "crd_spec list \<Rightarrow> dep_graph \<Rightarrow> int \<Rightarrow> (string \<Rightarrow> presence) \<Rightarrow> (string \<Rightarrow> bool) \<Rightarrow> crd_spec list \<Rightarrow>
   lifecycle \<times> string list \<Rightarrow> lifecycle \<times> string list" where
  "detect_loop crds g now exists drained [] st = st"
| "detect_loop crds g now exists drained (c # cs) st =
     detect_loop crds g now exists drained cs (detect_missing crds g now exists drained c st)"

text \<open>The second phase, for one missing CRD; \<open>still\<close> is \<^verbatim>\<open>stillMissing\<close>.\<close>

definition retry_missing ::
  "crd_spec list \<Rightarrow> dep_graph \<Rightarrow> int \<Rightarrow> (string \<Rightarrow> presence) \<Rightarrow> crd_spec \<Rightarrow>
   lifecycle \<times> string list \<Rightarrow> lifecycle \<times> string list" where
  "retry_missing crds g now exists crd = (\<lambda>(s, still).
     case exists (cd_gvk crd) of
       Unreachable \<Rightarrow> (s, still @ [cd_gvk crd])
     | Present \<Rightarrow>
         (on_lc_health (cd_gvk crd) (SetStarted now)
            (let s' = activateCRD crds g now crd s
             in s'\<lparr>lc_deactivated := (lc_deactivated s')(cd_gvk crd := False)\<rparr>), still)
     | Absent \<Rightarrow>
         ((on_lc_health (cd_gvk crd) (\<lambda>h. SetDegraded (SetMissingAtRuntime now h)) s), still @ [cd_gvk crd]))"

fun retry_loop ::
  "crd_spec list \<Rightarrow> dep_graph \<Rightarrow> int \<Rightarrow> (string \<Rightarrow> presence) \<Rightarrow> crd_spec list \<Rightarrow>
   lifecycle \<times> string list \<Rightarrow> lifecycle \<times> string list" where
  "retry_loop crds g now exists [] st = st"
| "retry_loop crds g now exists (c # cs) st = retry_loop crds g now exists cs (retry_missing crds g now exists c st)"

definition retry_phase ::
  "crd_spec list \<Rightarrow> dep_graph \<Rightarrow> int \<Rightarrow> (string \<Rightarrow> presence) \<Rightarrow> lifecycle \<Rightarrow> lifecycle" where
  "retry_phase crds g now exists s =
     (if lc_missing s = [] then s
      else
        (let (s1, still) = retry_loop crds g now exists
                             (filter (\<lambda>c. List.member (lc_missing s) (cd_gvk c)) crds) (s, []);
             s2 = s1\<lparr>lc_missing := still\<rparr>
         in if length still > 0 then s2\<lparr>lc_all_online := False\<rparr> else s2))"

text \<open>The third phase, for one name of the start-up order.\<close>

definition activate_deferred :: "crd_spec list \<Rightarrow> dep_graph \<Rightarrow> int \<Rightarrow> string \<Rightarrow> lifecycle \<Rightarrow> lifecycle" where
  "activate_deferred crds g now name s =
     (case find_crd crds name of
        None \<Rightarrow> s
      | Some crd \<Rightarrow>
          (if lc_running s (cd_gvk crd) then s
           else if List.member (lc_missing s) (cd_gvk crd) then s
           else if \<not> dependenciesReady crds s crd then s
           else if lc_entries s (cd_gvk crd) = None then s
           else on_lc_health (cd_gvk crd) (SetStarted now)
                  (let s' = activateCRD crds g now crd s
                   in s'\<lparr>lc_deactivated := (lc_deactivated s')(cd_gvk crd := False)\<rparr>)))"

definition allCRDsStarted :: "crd_spec list \<Rightarrow> lifecycle \<Rightarrow> bool" where
  "allCRDsStarted crds s = list_all (\<lambda>c. lc_running s (cd_gvk c)) crds"

text \<open>
  One tick of \<^verbatim>\<open>retryMissingCRDs\<close>.  Go visits the registered and the missing CRDs in any order,
  here it is the order of \<open>crds\<close>; custom child CRDs, which only refresh the REST mapper, and the
  sleep at the end are left out.
\<close>

definition retry_tick ::
  "crd_spec list \<Rightarrow> dep_graph \<Rightarrow> string list \<Rightarrow> int \<Rightarrow> (string \<Rightarrow> presence) \<Rightarrow> (string \<Rightarrow> bool) \<Rightarrow>
   lifecycle \<Rightarrow> lifecycle" where
  "retry_tick crds g order now exists drained s =
     (let s1 = fst (detect_loop crds g now exists drained crds (s, []));
          s2 = retry_phase crds g now exists s1;
          s3 = fold (activate_deferred crds g now) order s2
      in if lc_missing s3 = [] \<and> allCRDsStarted crds s3 then s3\<lparr>lc_all_online := True\<rparr> else s3)"

section \<open>Lemmas: the start-up pass\<close>

definition crd_catalog :: "crd_spec list \<Rightarrow> dep_catalog" where
  "crd_catalog crds = map (\<lambda>c. (cd_name c, map fst (cd_depends c))) crds"

definition wf_crds :: "crd_spec list \<Rightarrow> bool" where
  "wf_crds crds \<longleftrightarrow> distinct (map cd_name crds) \<and> distinct (map cd_gvk crds)"

definition name_runs :: "crd_spec list \<Rightarrow> lifecycle \<Rightarrow> string \<Rightarrow> bool" where
  "name_runs crds s name \<longleftrightarrow> (case nameToGVK crds name of None \<Rightarrow> False | Some gvk \<Rightarrow> lc_running s gvk)"

text \<open>
  What the start-up pass is meant to start: a CRD that is installed, waits for no other to be
  healthy, and whose dependencies all run.
\<close>

definition may_start :: "crd_spec list \<Rightarrow> string list \<Rightarrow> lifecycle \<Rightarrow> crd_spec \<Rightarrow> bool" where
  "may_start crds missing s c \<longleftrightarrow>
     cd_gvk c \<notin> set missing \<and>
     list_all (\<lambda>(d, cond). to_lower cond \<noteq> ''healthy'' \<and> name_runs crds s d) (cd_depends c)"

lemma find_crd_Some: "find_crd crds n = Some c \<Longrightarrow> c \<in> set crds \<and> cd_name c = n"
  by (induction crds) (auto simp: find_crd_def split: if_splits)

lemma find_crd_member: "wf_crds crds \<Longrightarrow> c \<in> set crds \<Longrightarrow> find_crd crds (cd_name c) = Some c"
  unfolding find_crd_def wf_crds_def by (induction crds) (auto simp: image_iff)

lemma gvk_inj: "wf_crds crds \<Longrightarrow> c \<in> set crds \<Longrightarrow> d \<in> set crds \<Longrightarrow> cd_gvk c = cd_gvk d \<Longrightarrow> c = d"
  by (auto simp: wf_crds_def distinct_map dest: inj_onD)

lemma dependenciesReady_iff:
  "dependenciesReady crds s c \<longleftrightarrow>
     list_all (\<lambda>(d, cond). \<exists>g. nameToGVK crds d = Some g \<and>
       (if to_lower cond = ''healthy'' then lc_healthy_ch s g else lc_started_ch s g)) (cd_depends c)"
proof -
  have "dependenciesReady_loop crds s ds \<longleftrightarrow>
      list_all (\<lambda>(d, cond). \<exists>g. nameToGVK crds d = Some g \<and>
        (if to_lower cond = ''healthy'' then lc_healthy_ch s g else lc_started_ch s g)) ds" for ds
    by (induction crds s ds rule: dependenciesReady_loop.induct) (auto split: option.splits)
  then show ?thesis by (simp add: dependenciesReady_def)
qed

lemma startCRDWorkers_frame [simp]:
  "lc_running (startCRDWorkers now gvk w s) = (lc_running s)(gvk := True)"
  "lc_starts (startCRDWorkers now gvk w s) = lc_starts s @ [gvk]"
  "lc_started_ch (startCRDWorkers now gvk w s) = lc_started_ch s"
  "lc_healthy_ch (startCRDWorkers now gvk w s) = lc_healthy_ch s"
  "lc_missing (startCRDWorkers now gvk w s) = lc_missing s"
  "lc_entries (startCRDWorkers now gvk w s) = lc_entries s"
  by (simp_all add: startCRDWorkers_def on_lc_health_def)

lemma on_lc_health_frame [simp]:
  "lc_running (on_lc_health gvk f s) = lc_running s"
  "lc_starts (on_lc_health gvk f s) = lc_starts s"
  "lc_started_ch (on_lc_health gvk f s) = lc_started_ch s"
  "lc_healthy_ch (on_lc_health gvk f s) = lc_healthy_ch s"
  "lc_missing (on_lc_health gvk f s) = lc_missing s"
  "lc_entries (on_lc_health gvk f s) = lc_entries s"
  "lc_deactivated (on_lc_health gvk f s) = lc_deactivated s"
  by (simp_all add: on_lc_health_def)

text \<open>The invariant of the pass once it has been through the names \<open>done\<close>.\<close>

definition start_inv :: "crd_spec list \<Rightarrow> string list \<Rightarrow> string list \<Rightarrow> lifecycle \<times> int \<Rightarrow> bool" where
  "start_inv crds missing names = (\<lambda>(s, online).
     lc_missing s = missing \<and> lc_healthy_ch s = (\<lambda>_. False) \<and> lc_started_ch s = lc_running s \<and>
     lc_starts s = map (\<lambda>n. the (nameToGVK crds n)) (filter (name_runs crds s) names) \<and>
     online = int (length (filter (name_runs crds s) names)) \<and>
     (\<forall>g. lc_running s g \<longrightarrow> (\<exists>n \<in> set names. nameToGVK crds n = Some g)) \<and>
     (\<forall>n \<in> set names. \<exists>c. find_crd crds n = Some c \<and> lc_running s (cd_gvk c) = may_start crds missing s c))"

lemma nameToGVK_inj:
  assumes "wf_crds crds" "nameToGVK crds m = Some g" "nameToGVK crds n = Some g"
  shows "m = n"
proof -
  obtain c d where "find_crd crds m = Some c" "find_crd crds n = Some d" "cd_gvk c = g" "cd_gvk d = g"
    using assms(2,3) by (auto simp: nameToGVK_def)
  then show ?thesis
    using gvk_inj [OF assms(1)] find_crd_Some by metis
qed

lemma start_step:
  assumes wf: "wf_crds crds" and inv: "start_inv crds missing names (s, online)"
    and c: "find_crd crds n = Some c" and fresh: "n \<notin> set names"
    and deps: "\<And>d cond. (d, cond) \<in> set (cd_depends c) \<Longrightarrow> d \<in> set names"
    and closed: "\<And>m c d cond. m \<in> set names \<Longrightarrow> find_crd crds m = Some c \<Longrightarrow> (d, cond) \<in> set (cd_depends c) \<Longrightarrow> d \<in> set names"
  shows "start_inv crds missing (names @ [n]) (start_one crds now n (s, online))"
proof -
  have st: "lc_missing s = missing" "lc_healthy_ch s = (\<lambda>_. False)" "lc_started_ch s = lc_running s"
    "lc_starts s = map (\<lambda>n. the (nameToGVK crds n)) (filter (name_runs crds s) names)"
    "online = int (length (filter (name_runs crds s) names))"
    "\<And>g. lc_running s g \<Longrightarrow> \<exists>n \<in> set names. nameToGVK crds n = Some g"
    "\<And>m. m \<in> set names \<Longrightarrow> \<exists>c. find_crd crds m = Some c \<and> lc_running s (cd_gvk c) = may_start crds missing s c"
    using inv by (auto simp: start_inv_def)
  have gvk: "nameToGVK crds n = Some (cd_gvk c)" by (simp add: nameToGVK_def c)
  have idle: "\<not> lc_running s (cd_gvk c)"
    using st(6) nameToGVK_inj [OF wf gvk] fresh by metis
  have ready: "dependenciesReady crds s c \<and> cd_gvk c \<notin> set missing \<longleftrightarrow> may_start crds missing s c"
    by (auto simp: dependenciesReady_iff may_start_def name_runs_def st(2,3) list_all_iff split: option.splits if_splits)
  define s' where "s' = (if may_start crds missing s c then
      (startCRDWorkers now (cd_gvk c) (cd_workers c) s)\<lparr>lc_started_ch := (lc_started_ch s)(cd_gvk c := True), lc_any_online := True\<rparr>
    else s)"
  define on' where "on' = (if may_start crds missing s c then online + 1 else online)"
  have step: "start_one crds now n (s, online) = (s', on')"
    using ready by (auto simp: start_one_def c s'_def on'_def st(1) Let_def)
  have run: "lc_running s' = (if may_start crds missing s c then (lc_running s)(cd_gvk c := True) else lc_running s)"
    by (simp add: s'_def)
  have same: "name_runs crds s' m = name_runs crds s m" if "m \<in> set names" for m
    using that fresh nameToGVK_inj [OF wf gvk] by (auto simp: name_runs_def run split: option.splits)
  have last: "name_runs crds s' n = may_start crds missing s c"
    using idle by (simp add: name_runs_def gvk run)
  have may: "may_start crds missing s' d = may_start crds missing s d"
    if "\<And>x cond. (x, cond) \<in> set (cd_depends d) \<Longrightarrow> x \<in> set names" for d
    using that same by (fastforce simp: may_start_def list_all_iff)
  have "filter (name_runs crds s') names = filter (name_runs crds s) names"
    using same by (intro filter_cong) auto
  moreover have "\<exists>d. find_crd crds m = Some d \<and> lc_running s' (cd_gvk d) = may_start crds missing s' d"
    if "m \<in> set (names @ [n])" for m
  proof (cases "m = n")
    case True
    then show ?thesis using c may [OF deps] idle by (auto simp: run)
  next
    case False
    with that obtain d where d: "find_crd crds m = Some d" "lc_running s (cd_gvk d) = may_start crds missing s d"
      using st(7) by auto
    have "cd_gvk d \<noteq> cd_gvk c"
      using False nameToGVK_inj [OF wf gvk, of m] d(1) by (auto simp: nameToGVK_def)
    moreover have "may_start crds missing s' d = may_start crds missing s d"
      using False that closed [OF _ d(1)] by (intro may) auto
    ultimately show ?thesis using d by (auto simp: run)
  qed
  moreover have "\<exists>m \<in> set (names @ [n]). nameToGVK crds m = Some g" if "lc_running s' g" for g
    using that st(6) gvk by (cases "g = cd_gvk c") (auto simp: run split: if_splits)
  ultimately show ?thesis
    unfolding step start_inv_def using last st(1-5) gvk
    by (auto simp: s'_def on'_def)
qed

lemma start_loop_inv:
  assumes wf: "wf_crds crds" and "start_inv crds missing names st"
    and "deps_first (dep_pairs (crd_catalog crds)) names todo" "distinct (names @ todo)"
    and "set (names @ todo) \<subseteq> cd_name ` set crds"
    and "\<And>m d cond c. m \<in> set names \<Longrightarrow> find_crd crds m = Some c \<Longrightarrow> (d, cond) \<in> set (cd_depends c) \<Longrightarrow> d \<in> set names"
  shows "start_inv crds missing (names @ todo) (start_loop crds now todo st)"
  using assms(2-)
proof (induction todo arbitrary: names st)
  case (Cons n todo)
  obtain s online where st: "st = (s, online)" by (cases st)
  obtain c where c: "find_crd crds n = Some c" "c \<in> set crds" "cd_name c = n"
    using Cons.prems(4) find_crd_member [OF wf] by auto
  have deps: "d \<in> set names" if "(d, cond) \<in> set (cd_depends c)" for d cond
  proof -
    have "(n, d) \<in> set (dep_pairs (crd_catalog crds))"
      using that c by (force simp: dep_pairs_def crd_catalog_def)
    then show ?thesis using Cons.prems(2) by (auto simp: list_all_iff)
  qed
  have "start_inv crds missing (names @ [n]) (start_one crds now n st)"
    unfolding st using Cons.prems deps
    by (intro start_step [OF wf _ c(1)]) (auto simp: st)
  then have "start_inv crds missing ((names @ [n]) @ todo) (start_loop crds now todo (start_one crds now n st))"
    using Cons.prems deps c(1) by (intro Cons.IH) auto
  then show ?case by simp
qed simp

lemma all_kept_iff: "length (filter P xs) = length xs \<longleftrightarrow> list_all P xs"
proof
  show "length (filter P xs) = length xs \<Longrightarrow> list_all P xs"
    using length_filter_less [of _ xs P] by (fastforce simp: list_all_iff)
qed (simp add: list_all_iff)

section \<open>Lemmas: ticks\<close>

lemma close_healthy_frame [simp]:
  "lc_running (close_healthy_of crds now n d s) = lc_running s"
  "lc_missing (close_healthy_of crds now n d s) = lc_missing s"
  "lc_entries (close_healthy_of crds now n d s) = lc_entries s"
  "lc_started_ch (close_healthy_of crds now n d s) = lc_started_ch s"
  by (simp_all add: close_healthy_of_def split: option.splits)

lemma fold_close_healthy_frame [simp]:
  "lc_running (fold (close_healthy_of crds now n) ds s) = lc_running s"
  "lc_missing (fold (close_healthy_of crds now n) ds s) = lc_missing s"
  "lc_entries (fold (close_healthy_of crds now n) ds s) = lc_entries s"
  "lc_started_ch (fold (close_healthy_of crds now n) ds s) = lc_started_ch s"
  by (induction ds arbitrary: s; simp)+

lemma activate_frame [simp]:
  "lc_running (activateCRD crds g now c s) = (lc_running s)(cd_gvk c := True)"
  "lc_missing (activateCRD crds g now c s) = removeAll (cd_gvk c) (lc_missing s)"
  "lc_started_ch (activateCRD crds g now c s) = (lc_started_ch s)(cd_gvk c := True)"
  "lc_entries (activateCRD crds g now c s) = (lc_entries s)(cd_gvk c :=
     map_option (\<lambda>_. \<lparr>ie_missing = False, ie_never_started = False\<rparr>) (lc_entries s (cd_gvk c)))"
  by (simp_all add: activateCRD_def Let_def fun_upd_idem)

lemma degrade_frame [simp]:
  "lc_running (fold (degrade_dependent crds n) ds s) = lc_running s"
  "lc_missing (fold (degrade_dependent crds n) ds s) = lc_missing s"
  "lc_entries (fold (degrade_dependent crds n) ds s) = lc_entries s"
  by (induction ds arbitrary: s; simp add: degrade_dependent_def split: option.splits)+

lemma deactivate_frame [simp]:
  "lc_running (deactivateCRD b gvk s) = lc_running s"
  "lc_missing (deactivateCRD b gvk s) = lc_missing s"
  "lc_entries (deactivateCRD b gvk s) = lc_entries s"
  by (simp_all add: deactivateCRD_def)

definition vanishes :: "(string \<Rightarrow> presence) \<Rightarrow> lifecycle \<Rightarrow> crd_spec \<Rightarrow> bool" where
  "vanishes exists s c \<longleftrightarrow>
     exists (cd_gvk c) = Absent \<and> (\<exists>e. lc_entries s (cd_gvk c) = Some e \<and> \<not> ie_missing e)"

lemma detect_missing_result:
  assumes "detect_missing crds g now exists drained c (s, gone) = (s', gone')"
  shows "lc_running s' = lc_running s" "\<And>g. g \<noteq> cd_gvk c \<Longrightarrow> lc_entries s' g = lc_entries s g"
    and "if vanishes exists s c then gone' = gone @ [cd_gvk c] \<and> lc_missing s' = gone' else s' = s \<and> gone' = gone"
  using assms by (auto simp: detect_missing_def vanishes_def Let_def split: option.splits if_splits)

lemma detect_loop_result:
  assumes "detect_loop crds g now exists drained cs (s, gone) = (s', gone')"
    and "distinct (map cd_gvk cs)"
  shows "lc_running s' = lc_running s \<and> (\<forall>g. g \<notin> cd_gvk ` set cs \<longrightarrow> lc_entries s' g = lc_entries s g) \<and>
    gone' = gone @ map cd_gvk (filter (vanishes exists s) cs) \<and>
    (\<forall>c \<in> set cs. \<not> vanishes exists s c \<longrightarrow> lc_entries s' (cd_gvk c) = lc_entries s (cd_gvk c)) \<and>
    (if list_ex (vanishes exists s) cs then lc_missing s' = gone' else s' = s)"
  using assms
proof (induction cs arbitrary: s gone)
  case (Cons c cs)
  obtain s1 gone1 where one: "detect_missing crds g now exists drained c (s, gone) = (s1, gone1)"
    by (metis surj_pair)
  note r = detect_missing_result [OF one]
  have rest: "detect_loop crds g now exists drained cs (s1, gone1) = (s', gone')"
    using Cons.prems(1) by (simp add: one)
  have others: "vanishes exists s1 d = vanishes exists s d" if "d \<in> set cs" for d
    using that Cons.prems(2) r(2) by (force simp: vanishes_def image_iff)
  have "filter (vanishes exists s1) cs = filter (vanishes exists s) cs"
    using others by (intro filter_cong) auto
  moreover have "list_ex (vanishes exists s1) cs = list_ex (vanishes exists s) cs"
    using others by (auto simp: list_ex_iff)
  ultimately show ?case
    using Cons.IH [OF rest] Cons.prems(2) r others
    by (auto simp: list_ex_iff split: if_splits) (metis image_eqI)+
qed simp

lemma retry_missing_result:
  assumes "retry_missing crds g now exists c (s, still) = (s', still')"
  shows "lc_running s' = (if exists (cd_gvk c) = Present then (lc_running s)(cd_gvk c := True) else lc_running s)"
    and "still' = (if exists (cd_gvk c) = Present then still else still @ [cd_gvk c])"
    and "\<And>g. g \<noteq> cd_gvk c \<Longrightarrow> lc_entries s' g = lc_entries s g"
  using assms by (auto simp: retry_missing_def Let_def split: presence.splits)

lemma retry_loop_result:
  assumes "retry_loop crds g now exists cs (s, still) = (s', still')"
  shows "lc_running s' = (\<lambda>g. lc_running s g \<or> (\<exists>c \<in> set cs. cd_gvk c = g \<and> exists g = Present)) \<and>
    still' = still @ map cd_gvk (filter (\<lambda>c. exists (cd_gvk c) \<noteq> Present) cs) \<and>
    (\<forall>g. g \<notin> cd_gvk ` set cs \<longrightarrow> lc_entries s' g = lc_entries s g)"
  using assms
proof (induction cs arbitrary: s still)
  case (Cons c cs)
  obtain s1 still1 where one: "retry_missing crds g now exists c (s, still) = (s1, still1)"
    by (metis surj_pair)
  have "retry_loop crds g now exists cs (s1, still1) = (s', still')"
    using Cons.prems by (simp add: one)
  from Cons.IH [OF this] retry_missing_result [OF one] show ?case
    by (auto simp: fun_eq_iff)
qed auto

lemma retry_phase_result:
  "lc_running (retry_phase crds gr now exists s) =
     (\<lambda>g. lc_running s g \<or> (\<exists>c \<in> set crds. cd_gvk c = g \<and> g \<in> set (lc_missing s) \<and> exists g = Present)) \<and>
   set (lc_missing (retry_phase crds gr now exists s)) =
     {g \<in> set (lc_missing s). g \<in> cd_gvk ` set crds \<and> exists g \<noteq> Present} \<and>
   (\<forall>g. g \<notin> set (lc_missing s) \<longrightarrow> lc_entries (retry_phase crds gr now exists s) g = lc_entries s g)"
proof (cases "lc_missing s = []")
  case False
  let ?cs = "filter (\<lambda>c. List.member (lc_missing s) (cd_gvk c)) crds"
  obtain s1 still where loop: "retry_loop crds gr now exists ?cs (s, []) = (s1, still)" by (metis surj_pair)
  let ?s2 = "s1\<lparr>lc_missing := still\<rparr>"
  have "retry_phase crds gr now exists s = (if length still > 0 then ?s2\<lparr>lc_all_online := False\<rparr> else ?s2)"
    by (simp only: retry_phase_def False if_False loop prod.case Let_def)
  then have "lc_running (retry_phase crds gr now exists s) = lc_running s1"
    "lc_missing (retry_phase crds gr now exists s) = still"
    "lc_entries (retry_phase crds gr now exists s) = lc_entries s1"
    by simp_all
  moreover have "set still = {g \<in> set (lc_missing s). g \<in> cd_gvk ` set crds \<and> exists g \<noteq> Present}"
    using retry_loop_result [OF loop] by auto
  moreover have "lc_running s1 =
      (\<lambda>g. lc_running s g \<or> (\<exists>c \<in> set crds. cd_gvk c = g \<and> g \<in> set (lc_missing s) \<and> exists g = Present))"
    using retry_loop_result [OF loop] by (auto simp: fun_eq_iff)
  moreover have "lc_entries s1 g = lc_entries s g" if "g \<notin> set (lc_missing s)" for g
  proof -
    have "g \<notin> cd_gvk ` set ?cs" using that by auto
    with retry_loop_result [OF loop] show ?thesis by blast
  qed
  ultimately show ?thesis by simp
qed (auto simp: retry_phase_def)

lemma activate_deferred_frame:
  "lc_running s g \<Longrightarrow> lc_running (activate_deferred crds gr now n s) g"
  "g \<in> set (lc_missing s) \<Longrightarrow> \<not> lc_running s g \<Longrightarrow>
     \<not> lc_running (activate_deferred crds gr now n s) g \<and> g \<in> set (lc_missing (activate_deferred crds gr now n s))"
  "g \<notin> set (lc_missing s) \<Longrightarrow> g \<notin> set (lc_missing (activate_deferred crds gr now n s))"
  "lc_entries s g \<noteq> None \<Longrightarrow> lc_entries (activate_deferred crds gr now n s) g \<noteq> None"
  by (auto simp: activate_deferred_def Let_def split: option.splits)

lemma fold_activate_frame:
  "lc_running s g \<Longrightarrow> lc_running (fold (activate_deferred crds gr now) ns s) g"
  "g \<in> set (lc_missing s) \<Longrightarrow> \<not> lc_running s g \<Longrightarrow> \<not> lc_running (fold (activate_deferred crds gr now) ns s) g"
  "g \<notin> set (lc_missing s) \<Longrightarrow> g \<notin> set (lc_missing (fold (activate_deferred crds gr now) ns s))"
  "lc_entries s g \<noteq> None \<Longrightarrow> lc_entries (fold (activate_deferred crds gr now) ns s) g \<noteq> None"
  by (induction ns arbitrary: s; simp add: activate_deferred_frame del: not_None_eq)+

lemma fold_activates_free:
  assumes "n \<in> set ns" "find_crd crds n = Some c" "cd_depends c = []"
    and "cd_gvk c \<notin> set (lc_missing s)" "lc_entries s (cd_gvk c) \<noteq> None"
  shows "lc_running (fold (activate_deferred crds gr now) ns s) (cd_gvk c)"
proof -
  obtain xs ys where ns: "ns = xs @ n # ys" using split_list [OF assms(1)] by blast
  let ?s = "fold (activate_deferred crds gr now) xs s"
  have "lc_running (activate_deferred crds gr now n ?s) (cd_gvk c)"
    using fold_activate_frame(3) [OF assms(4), of crds gr now xs]
      fold_activate_frame(4) [OF assms(5), of crds gr now xs] assms(2,3)
    by (auto simp: activate_deferred_def dependenciesReady_iff Let_def)
  then show ?thesis by (simp add: ns fold_activate_frame(1))
qed

lemma no_mutual_dependency:
  assumes "deps_first ps st xs" "a \<in> set xs" "b \<in> set xs" "{a, b} \<inter> set st = {}" "(a, b) \<in> set ps"
  shows "(b, a) \<notin> set ps"
  using cycle_not_ordered [OF assms(1), of "{a, b}"] assms(2-) by auto

lemma dependents_never_match:
  assumes "wf_crds crds" "NewDependencyGraph (crd_catalog crds) = Inr g"
    and "valid_order (crd_catalog crds) order" "c \<in> set crds" "d \<in> set (GetDependents g (cd_name c))"
  shows "degrade_dependent crds (cd_name c) d s = s"
proof (cases "find_crd crds d")
  case (Some dc)
  have "(cd_name c, d) \<in> set (dep_pairs (crd_catalog crds))"
    using neighbour_queries_are_swapped [OF assms(2)] assms(5) by auto
  moreover have "cd_name c \<in> set order" "d \<in> set order"
    using assms(3,4) find_crd_Some [OF Some] by (auto simp: valid_order_def crd_catalog_def)
  ultimately have "(d, cd_name c) \<notin> set (dep_pairs (crd_catalog crds))"
    using assms(3) no_mutual_dependency [of "dep_pairs (crd_catalog crds)" "[]" order "cd_name c" d]
    by (auto simp: valid_order_def)
  then have "map_of (cd_depends dc) (cd_name c) = None"
    using find_crd_Some [OF Some] by (force simp: dep_pairs_def crd_catalog_def map_of_eq_None_iff)
  then show ?thesis by (simp add: degrade_dependent_def Some)
qed (simp add: degrade_dependent_def)

section \<open>Properties\<close>

text \<open>
  C3. The start-up pass over a valid start-up order starts exactly the CRDs that may start: those
  that are installed, wait for no CRD to be healthy and depend on running CRDs only; the others
  are deferred.  It starts them in the start-up order, each once, and reports the catalog online
  exactly when every CRD runs.
\<close>
theorem startup_starts_exactly_the_ready:
  assumes "wf_crds crds" "valid_order (crd_catalog crds) order"
    and "lc_running s = (\<lambda>_. False)" "lc_started_ch s = (\<lambda>_. False)" "lc_healthy_ch s = (\<lambda>_. False)"
    and "lc_starts s = []"
  shows "let s' = Coordinate_start crds now order s in
    list_all (\<lambda>c. lc_running s' (cd_gvk c) = may_start crds (lc_missing s) s' c) crds \<and>
    lc_starts s' = map (\<lambda>n. the (nameToGVK crds n)) (filter (name_runs crds s') order) \<and>
    lc_all_online s' = allCRDsStarted crds s'"
proof -
  have names: "set order = cd_name ` set crds"
    using assms(2) by (auto simp: valid_order_def crd_catalog_def)
  obtain s1 online where loop: "start_loop crds now order (s\<lparr>lc_all_online := False\<rparr>, 0) = (s1, online)"
    by (metis surj_pair)
  have "start_inv crds (lc_missing s) ([] @ order) (s1, online)"
    unfolding loop [symmetric] using assms names
    by (intro start_loop_inv) (auto simp: start_inv_def valid_order_def)
  then have st: "lc_starts s1 = map (\<lambda>n. the (nameToGVK crds n)) (filter (name_runs crds s1) order)"
    "online = int (length (filter (name_runs crds s1) order))"
    "\<And>n. n \<in> set order \<Longrightarrow> \<exists>c. find_crd crds n = Some c \<and> lc_running s1 (cd_gvk c) = may_start crds (lc_missing s) s1 c"
    by (auto simp: start_inv_def)
  have run: "lc_running s1 (cd_gvk c) = may_start crds (lc_missing s) s1 c" if "c \<in> set crds" for c
    using st(3) [of "cd_name c"] find_crd_member [OF assms(1) that] names that by auto
  have "name_runs crds s1 (cd_name c) = lc_running s1 (cd_gvk c)" if "c \<in> set crds" for c
    using find_crd_member [OF assms(1) that] by (simp add: name_runs_def nameToGVK_def)
  then have online: "online = int (length order) \<longleftrightarrow> allCRDsStarted crds s1"
    using names by (auto simp: st(2) all_kept_iff allCRDsStarted_def list_all_iff)
  have eq: "Coordinate_start crds now order s = s1\<lparr>lc_all_online := allCRDsStarted crds s1\<rparr>"
    using online by (simp add: Coordinate_start_def loop)
  have "name_runs crds (s1\<lparr>lc_all_online := b\<rparr>) = name_runs crds s1"
    "may_start crds (lc_missing s) (s1\<lparr>lc_all_online := b\<rparr>) = may_start crds (lc_missing s) s1"
    "allCRDsStarted crds (s1\<lparr>lc_all_online := b\<rparr>) = allCRDsStarted crds s1" for b
    by (simp_all add: name_runs_def may_start_def allCRDsStarted_def fun_eq_iff cong: option.case_cong)
  then show ?thesis
    using run st(1) by (simp add: eq Let_def list_all_iff)
qed

text \<open>
  C22. When a CRD disappears at run time the retry loop forgets which CRDs were missing at
  start-up, and activates one of them in the same tick: a CRD without dependencies that is
  not installed is reported as running.
\<close>
theorem absent_crd_is_activated:
  assumes "wf_crds crds" "gone \<in> set crds" "absent \<in> set crds" "cd_name absent \<in> set order"
    and "vanishes exists s gone"
    and "lc_entries s (cd_gvk absent) = Some \<lparr>ie_missing = True, ie_never_started = True\<rparr>"
    and "exists (cd_gvk absent) = Absent" "cd_depends absent = []"
  shows "lc_running (retry_tick crds g order now exists drained s) (cd_gvk absent)"
proof -
  obtain s1 out where detect: "detect_loop crds g now exists drained crds (s, []) = (s1, out)"
    by (metis surj_pair)
  have "\<not> vanishes exists s absent" using assms(6) by (simp add: vanishes_def)
  moreover have "lc_missing s1 = map cd_gvk (filter (vanishes exists s) crds)"
    using detect_loop_result [OF detect] assms(1,2,5) by (auto simp: wf_crds_def list_ex_iff split: if_splits)
  ultimately have s1: "cd_gvk absent \<notin> set (lc_missing s1)" "lc_entries s1 (cd_gvk absent) \<noteq> None"
    using detect_loop_result [OF detect] assms(1,3,6) gvk_inj [OF assms(1,3)]
    by (auto simp: wf_crds_def)
  let ?s2 = "retry_phase crds g now exists s1"
  have "cd_gvk absent \<notin> set (lc_missing ?s2)" "lc_entries ?s2 (cd_gvk absent) \<noteq> None"
    using retry_phase_result [of crds g now exists s1] s1 by auto
  then have "lc_running (fold (activate_deferred crds g now) order ?s2) (cd_gvk absent)"
    using fold_activates_free [OF assms(4) find_crd_member [OF assms(1,3)] assms(8)] by blast
  then show ?thesis by (simp add: retry_tick_def detect Let_def)
qed

text \<open>
  C23. A missing CRD that appears is activated whatever its dependencies: after the tick it runs
  while the CRD it depends on is still not installed and does not run.
\<close>
theorem returning_crd_skips_its_dependencies:
  assumes "wf_crds crds" "c \<in> set crds" "dep \<in> set crds" "(cd_name dep, cond) \<in> set (cd_depends c)"
    and "list_all (\<lambda>d. \<not> vanishes exists s d) crds"
    and "cd_gvk c \<in> set (lc_missing s)" "exists (cd_gvk c) = Present"
    and "cd_gvk dep \<in> set (lc_missing s)" "exists (cd_gvk dep) = Absent" "\<not> lc_running s (cd_gvk dep)"
  shows "let s' = retry_tick crds g order now exists drained s in
    lc_running s' (cd_gvk c) \<and> \<not> lc_running s' (cd_gvk dep)"
proof -
  obtain s1 out where detect: "detect_loop crds g now exists drained crds (s, []) = (s1, out)"
    by (metis surj_pair)
  have s1: "s1 = s"
    using detect_loop_result [OF detect] assms(1,5) by (auto simp: wf_crds_def list_ex_iff list_all_iff)
  let ?s2 = "retry_phase crds g now exists s"
  have "lc_running ?s2 (cd_gvk c)" "\<not> lc_running ?s2 (cd_gvk dep)" "cd_gvk dep \<in> set (lc_missing ?s2)"
    using retry_phase_result [of crds g now exists s] assms(2,3,6-10) by auto
  then show ?thesis
    by (simp add: retry_tick_def detect s1 Let_def fold_activate_frame)
qed

text \<open>
  A CRD that disappears at run time degrades itself and no other CRD: the loop that is to
  degrade the dependents waiting for it to be healthy asks for the neighbours on the wrong side
  of the graph, none of which can depend on it.
\<close>
lemma lost_crd_degrades_no_dependent:
  assumes "wf_crds crds" "NewDependencyGraph (crd_catalog crds) = Inr g"
    and "valid_order (crd_catalog crds) order" "c \<in> set crds" "gvk \<noteq> cd_gvk c"
  shows "lc_health (fst (detect_missing crds g now exists drained c (s, gone))) gvk = lc_health s gvk"
proof -
  have "fold (degrade_dependent crds (cd_name c)) ds x = x"
    if "set ds \<subseteq> set (GetDependents g (cd_name c))" for ds x
    using that by (induction ds arbitrary: x) (auto simp: dependents_never_match [OF assms(1-4)])
  then show ?thesis
    using assms(5)
    by (auto simp: detect_missing_def deactivateCRD_def on_lc_health_def Let_def split: option.splits)
qed

section \<open>The catalog of the witnesses\<close>

text \<open>An \<open>app\<close> that depends on a \<open>db\<close>, and a \<open>log\<close> of its own.\<close>

definition three_crds :: "crd_spec list" where
  "three_crds =
     [\<lparr>cd_name = ''app'', cd_gvk = ''v1/App'', cd_depends = [(''db'', ''started'')], cd_workers = 2\<rparr>,
      \<lparr>cd_name = ''db'', cd_gvk = ''v1/Db'', cd_depends = [], cd_workers = 1\<rparr>,
      \<lparr>cd_name = ''log'', cd_gvk = ''v1/Log'', cd_depends = [], cd_workers = 1\<rparr>]"

definition three_order :: "string list" where
  "three_order = [''db'', ''log'', ''app'']"

definition three_graph :: dep_graph where
  "three_graph =
     \<lparr>g_nodes = [(''app'', \<lparr>n_name = ''app'', n_in = 1, n_out = 0\<rparr>),
                 (''db'', \<lparr>n_name = ''db'', n_in = 0, n_out = 1\<rparr>),
                 (''log'', \<lparr>n_name = ''log'', n_in = 0, n_out = 0\<rparr>)],
      g_edges = [(''db'', [''app''])], g_order = None\<rparr>"

definition idle_lifecycle :: "string list \<Rightarrow> (string \<Rightarrow> bool) \<Rightarrow> lifecycle" where
  "idle_lifecycle missing running =
     \<lparr>lc_entries = (\<lambda>g. Some \<lparr>ie_missing = List.member missing g, ie_never_started = List.member missing g\<rparr>),
      lc_missing = missing, lc_running = running, lc_started_ch = running, lc_healthy_ch = (\<lambda>_. False),
      lc_deactivated = (\<lambda>_. False), lc_health = NewCRDHealth, lc_any_online = False,
      lc_all_online = False, lc_starts = []\<rparr>"

lemma three_crds_ok:
  "wf_crds three_crds" "valid_order (crd_catalog three_crds) three_order"
  "NewDependencyGraph (crd_catalog three_crds) = Inr three_graph"
  by (simp_all add: wf_crds_def three_crds_def valid_order_def crd_catalog_def three_order_def dep_pairs_def
      NewDependencyGraph_def three_graph_def new_node_def add_edge_def edges_of_def insert_commute)

lemma three_crds_members:
  "\<lparr>cd_name = ''app'', cd_gvk = ''v1/App'', cd_depends = [(''db'', ''started'')], cd_workers = 2\<rparr> \<in> set three_crds"
  "\<lparr>cd_name = ''db'', cd_gvk = ''v1/Db'', cd_depends = [], cd_workers = 1\<rparr> \<in> set three_crds"
  "\<lparr>cd_name = ''log'', cd_gvk = ''v1/Log'', cd_depends = [], cd_workers = 1\<rparr> \<in> set three_crds"
  by (simp_all add: three_crds_def)

theorem startup_starts_exactly_the_ready_witness:
  "lc_starts (Coordinate_start three_crds 0 three_order (idle_lifecycle [''v1/Log''] (\<lambda>_. False))) =
     [''v1/Db'', ''v1/App''] \<and>
   \<not> lc_all_online (Coordinate_start three_crds 0 three_order (idle_lifecycle [''v1/Log''] (\<lambda>_. False)))"
proof -
  let ?s = "idle_lifecycle [''v1/Log''] (\<lambda>_. False)"
  let ?s' = "Coordinate_start three_crds 0 three_order ?s"
  have p: "list_all (\<lambda>c. lc_running ?s' (cd_gvk c) = may_start three_crds [''v1/Log''] ?s' c) three_crds"
    "lc_starts ?s' = map (\<lambda>n. the (nameToGVK three_crds n)) (filter (name_runs three_crds ?s') three_order)"
    "lc_all_online ?s' = allCRDsStarted three_crds ?s'"
    using startup_starts_exactly_the_ready [OF three_crds_ok(1,2), of ?s 0]
    by (simp_all add: idle_lifecycle_def Let_def)
  have names: "nameToGVK three_crds ''db'' = Some ''v1/Db''" "nameToGVK three_crds ''app'' = Some ''v1/App''"
    "nameToGVK three_crds ''log'' = Some ''v1/Log''"
    by (simp_all add: nameToGVK_def find_crd_def three_crds_def)
  have run: "lc_running ?s' ''v1/Db''" "\<not> lc_running ?s' ''v1/Log''" "lc_running ?s' ''v1/App''"
    using p(1) by (simp_all add: three_crds_def may_start_def name_runs_def names [unfolded three_crds_def]
        to_lower_def lower_char_def)
  have order: "filter P three_order = [''db'', ''app'']" if "P ''db''" "P ''app''" "\<not> P ''log''" for P
    using that by (simp add: three_order_def)
  have "filter (name_runs three_crds ?s') three_order = [''db'', ''app'']"
    using run by (intro order) (simp_all add: name_runs_def names)
  moreover have "\<not> allCRDsStarted three_crds ?s'"
  proof
    assume "allCRDsStarted three_crds ?s'"
    then have "\<forall>c \<in> set three_crds. lc_running ?s' (cd_gvk c)" by (simp only: allCRDsStarted_def list_all_iff)
    from bspec [OF this three_crds_members(3)] run(2) show False by simp
  qed
  ultimately show ?thesis by (simp add: p(2,3) names)
qed

theorem absent_crd_is_activated_witness:
  "lc_running (retry_tick three_crds three_graph three_order 0 (\<lambda>g. if g = ''v1/App'' then Present else Absent)
     (\<lambda>_. True) (idle_lifecycle [''v1/Log''] (\<lambda>g. g \<noteq> ''v1/Log''))) ''v1/Log''"
  using absent_crd_is_activated [OF three_crds_ok(1) three_crds_members(2,3), of three_order
      "\<lambda>g. if g = ''v1/App'' then Present else Absent" "idle_lifecycle [''v1/Log''] (\<lambda>g. g \<noteq> ''v1/Log'')"
      three_graph 0 "\<lambda>_. True"]
  by (simp add: three_order_def vanishes_def idle_lifecycle_def)

theorem returning_crd_skips_its_dependencies_witness:
  "\<not> lc_running (retry_tick three_crds three_graph three_order 0 (\<lambda>g. if g = ''v1/App'' then Present else Absent)
     (\<lambda>_. True) (idle_lifecycle [''v1/App'', ''v1/Db'', ''v1/Log''] (\<lambda>_. False))) ''v1/Db''"
  using returning_crd_skips_its_dependencies [OF three_crds_ok(1) three_crds_members(1,2), of "''started''"
      "\<lambda>g. if g = ''v1/App'' then Present else Absent"
      "idle_lifecycle [''v1/App'', ''v1/Db'', ''v1/Log''] (\<lambda>_. False)" three_graph three_order 0 "\<lambda>_. True"]
  by (simp add: vanishes_def idle_lifecycle_def three_crds_def Let_def)

end
