(* ===== verification/Drain.thy ===== *)
theory Drain
  imports Worker Lifecycle
begin

text \<open>
  The drain of a CRD's workers (\<^verbatim>\<open>deactivateCRD\<close> in \<^verbatim>\<open>post_start_hooks.go\<close>): the context of the
  workers is cancelled and a sentinel item is added for each, to wake those that wait for an
  item.  The workers are a step relation: a waiting worker of a cancelled context makes one
  turn of its loop when the queue has an item for it, and ends.
\<close>

section \<open>Sentinel items\<close>

definition drain_item :: "string \<Rightarrow> queue_item" where
  "drain_item gvk = \<lparr>qi_key = drainSentinel, qi_gvk = gvk, qi_event = 0\<rparr>"

fun add_drain_sentinels :: "'q client_queue \<Rightarrow> string \<Rightarrow> nat \<Rightarrow> 'q workqueue \<Rightarrow> 'q workqueue" where
  "add_drain_sentinels ops gvk 0 wq = wq"
| "add_drain_sentinels ops gvk (Suc n) wq = add_drain_sentinels ops gvk n (Add ops (drain_item gvk) wq)"

section \<open>Workers of a cancelled context\<close>

record 'q drain =
  dr_controller :: "'q controller"
  dr_waiting :: nat                  \<comment> \<open>workers inside \<^verbatim>\<open>wq.Get\<close>\<close>
  dr_ended :: nat
  dr_taken :: "queue_item list"

inductive drain_step ::
  "'q client_queue \<Rightarrow> rfc3339 \<Rightarrow> goenv \<Rightarrow> string \<Rightarrow> 'q drain \<Rightarrow> 'q drain \<Rightarrow> bool"
  for ops clk E gvk where
  wake: "dr_waiting s = Suc n \<Longrightarrow> ps_cancelled ps \<Longrightarrow>
    worker_turn ops clk E ps gvk wid (dr_controller s) = Some (item, k) \<Longrightarrow>
    drain_step ops clk E gvk s
      (s\<lparr>dr_controller := k, dr_waiting := n, dr_ended := Suc (dr_ended s), dr_taken := dr_taken s @ [item]\<rparr>)"

inductive_cases drain_stepE: "drain_step ops clk E gvk s s'"

section \<open>Lemmas\<close>

lemma Add_frame [simp]: "wq_queue (Add ops i wq) = cq_add ops i (wq_queue wq)"
  by (simp add: Add_def)

lemma sentinels_coalesce:
  assumes "\<And>q. cq_add ops (drain_item gvk) (cq_add ops (drain_item gvk) q) = cq_add ops (drain_item gvk) q"
  shows "wq_queue (add_drain_sentinels ops gvk n wq) =
    (if n = 0 then wq_queue wq else cq_add ops (drain_item gvk) (wq_queue wq))"
  by (induction n arbitrary: wq) (auto simp: assms)

text \<open>A turn of a worker whose context is cancelled takes an item and gives it back as done.\<close>

lemma cancelled_turn:
  assumes "worker_turn ops clk E ps gvk wid k = Some (item, k')" "ps_cancelled ps"
  shows "\<exists>q. cq_get ops (wq_queue (worker_queue gvk k)) = Some (item, q) \<and>
    wq_queue (worker_queue gvk k') = cq_done ops item q \<and>
    k_failed k' = k_failed k \<and> k_total k' = k_total k \<and> k_posts k' = k_posts k"
proof -
  obtain wq where get: "Get ops (worker_queue gvk k) = Some (item, wq)"
    using assms(1) by (auto simp: worker_turn_def Let_def split: option.splits)
  have posts: "k_posts (on_queue gvk f c) = k_posts c" "k_posts (on_crd_health gvk h c) = k_posts c" for f h c
    by (simp_all add: on_queue_def on_crd_health_def split: option.splits)
  have finished: "wq_queue (Done ops item wq) = cq_done ops item (wq_queue wq)"
    by (simp add: Done_def)
  have "cq_get ops (wq_queue (worker_queue gvk k)) = Some (item, wq_queue wq)"
    using get by (auto simp: Get_def split: option.splits)
  moreover have "k_total (k\<lparr>k_metrics := ms\<rparr>) = k_total k" for ms by simp
  ultimately show ?thesis
    using assms get finished
    by (auto simp: worker_turn_def processItemForGVK_def Let_def step_simps posts)
qed

lemma drain_stuck:
  assumes "cq_get ops (wq_queue (worker_queue gvk (dr_controller s))) = None"
  shows "\<not> drain_step ops clk E gvk s s'"
  using assms by (auto elim!: drain_stepE dest: cancelled_turn)

section \<open>Properties\<close>

text \<open>
  The sentinels of a drain are equal items, and a client-go queue holds equal items once:
  when the queue is empty and all \<open>n\<close> workers wait, the sentinels wake a single one of them
  and at least \<open>n - 1\<close> go on waiting, however long the drain waits for them.
\<close>
lemma drain_wakes_one_worker:
  assumes "\<And>q. cq_add ops (drain_item gvk) (cq_add ops (drain_item gvk) q) = cq_add ops (drain_item gvk) q"
    and "cq_get ops (cq_add ops (drain_item gvk) (wq_queue wq)) = Some (drain_item gvk, q1)"
    and "cq_get ops (cq_done ops (drain_item gvk) q1) = None"
    and "worker_queue gvk (dr_controller s0) = add_drain_sentinels ops gvk n wq" "dr_waiting s0 = n" "0 < n"
    and "(drain_step ops clk E gvk)\<^sup>*\<^sup>* s0 s"
  shows "n \<le> dr_waiting s + 1"
proof -
  have "s = s0 \<or> dr_waiting s + 1 = n \<and> cq_get ops (wq_queue (worker_queue gvk (dr_controller s))) = None"
    using assms(7)
  proof (induction rule: rtranclp_induct)
    case (step s1 s2)
    from step.IH show ?case
    proof
      assume s1: "s1 = s0"
      from step.hyps(2) show ?thesis
      proof (rule drain_stepE)
        fix m ps wid item k
        assume 1: "s2 = s1\<lparr>dr_controller := k, dr_waiting := m, dr_ended := Suc (dr_ended s1),
            dr_taken := dr_taken s1 @ [item]\<rparr>" "dr_waiting s1 = Suc m" "ps_cancelled ps"
          "worker_turn ops clk E ps gvk wid (dr_controller s1) = Some (item, k)"
        obtain q where "cq_get ops (wq_queue (worker_queue gvk (dr_controller s0))) = Some (item, q)"
          "wq_queue (worker_queue gvk k) = cq_done ops item q"
          using cancelled_turn [OF 1(4,3)] s1 by blast
        then have "wq_queue (worker_queue gvk k) = cq_done ops (drain_item gvk) q1"
          using assms(2,4,6) by (simp add: sentinels_coalesce [OF assms(1)])
        then show ?thesis using 1 s1 assms(3,5) by simp
      qed
    qed (use step.hyps(2) drain_stuck in blast)
  qed simp
  then show ?thesis using assms(5) by auto
qed

definition draining :: "list_queue drain" where
  "draining =
     \<lparr>dr_controller = on_queue ''db'' (\<lambda>wq. add_drain_sentinels list_queue_ops ''db'' 3 (wq\<lparr>wq_queue := empty_lq\<rparr>))
        (sample_controller panics), dr_waiting = 3, dr_ended = 0, dr_taken = []\<rparr>"

lemma list_queue_coalesces: "cq_add list_queue_ops i (cq_add list_queue_ops i q) = cq_add list_queue_ops i q"
  by (simp add: list_queue_ops_def lq_add_def)

lemma draining_queue: "worker_queue ''db'' (dr_controller draining) =
    add_drain_sentinels list_queue_ops ''db'' 3 ((worker_queue ''db'' (sample_controller panics))\<lparr>wq_queue := empty_lq\<rparr>)"
  by (simp add: draining_def worker_queue_on_queue del: add_drain_sentinels.simps)

lemma one_sentinel:
  "cq_get list_queue_ops (cq_add list_queue_ops (drain_item ''db'') empty_lq) =
     Some (drain_item ''db'', \<lparr>lq_queue = [], lq_dirty = [], lq_processing = [drain_item ''db'']\<rparr>)"
  "cq_get list_queue_ops (cq_done list_queue_ops (drain_item ''db'')
     \<lparr>lq_queue = [], lq_dirty = [], lq_processing = [drain_item ''db'']\<rparr>) = None"
  by (simp_all add: list_queue_ops_def lq_add_def lq_get_def lq_done_def empty_lq_def Let_def)

text \<open>
  A worker that was cancelled while it waited takes the next real item of the CRD and loses
  it: the item leaves the queue, is not queued again, and is neither reconciled, retried nor
  counted.
\<close>
lemma cancelled_worker_loses_the_item:
  assumes "worker_turn list_queue_ops clk E ps gvk wid k = Some (item, k')" "ps_cancelled ps"
    and "distinct (lq_queue (wq_queue (worker_queue gvk k)))"
  shows "item \<in> set (lq_queue (wq_queue (worker_queue gvk k))) \<and>
    item \<notin> set (lq_queue (wq_queue (worker_queue gvk k'))) \<and>
    item \<notin> set (lq_dirty (wq_queue (worker_queue gvk k'))) \<and>
    k_failed k' = k_failed k \<and> k_total k' = k_total k \<and> k_posts k' = k_posts k"
proof -
  obtain q where "cq_get list_queue_ops (wq_queue (worker_queue gvk k)) = Some (item, q)"
    "wq_queue (worker_queue gvk k') = cq_done list_queue_ops item q"
    "k_failed k' = k_failed k" "k_total k' = k_total k" "k_posts k' = k_posts k"
    using cancelled_turn [OF assms(1,2)] by blast
  then show ?thesis
    using assms(3)
    by (auto simp: list_queue_ops_def lq_get_def lq_done_def Let_def split: list.splits if_splits)
qed

end
