(* ===== verification/Maintain.thy ===== *)
theory Maintain
  imports Worker Validation "HOL-Library.AList"
begin

text \<open>
  What maintenance writes to a resource before it is reconciled: finalizers, the system labels
  and user labels, and annotations (\<^verbatim>\<open>coordinator/maintain\<close>, \<^verbatim>\<open>pkg/labels/manager.go\<close>), the
  patches it sends (\<^verbatim>\<open>pkg/kubeclient/patches.go\<close>), and the two webhooks that guard the protection
  label (\<^verbatim>\<open>strict_mode_protection.go\<close>, \<^verbatim>\<open>deletion_protection.go\<close>).
  A label map is an association list, whose order stands for the order Go iterates in.
\<close>

section \<open>Finalizers in memory\<close>

definition ContainsFinalizer :: "string list \<Rightarrow> string \<Rightarrow> bool" where
  "ContainsFinalizer fs finalizer = list_ex (\<lambda>f. f = finalizer) fs"

definition AddFinalizer :: "string list \<Rightarrow> string \<Rightarrow> string list \<times> bool" where
  "AddFinalizer fs finalizer =
     (if ContainsFinalizer fs finalizer then (fs, False) else (fs @ [finalizer], True))"

definition RemoveFinalizer :: "string list \<Rightarrow> string \<Rightarrow> string list \<times> bool" where
  "RemoveFinalizer cur finalizer =
     (let kept = filter (\<lambda>f. f \<noteq> finalizer) cur in (kept, length kept \<noteq> length cur))"

fun EnsureFinalizers :: "string list \<Rightarrow> string list \<Rightarrow> string list \<times> bool" where
  "EnsureFinalizers fs [] = (fs, False)"
| "EnsureFinalizers fs (f # want) =
     (let (fs1, added) = AddFinalizer fs f; (fs2, updated) = EnsureFinalizers fs1 want
      in (fs2, added \<or> updated))"

fun StripFinalizers :: "string list \<Rightarrow> string list \<Rightarrow> string list \<times> bool" where
  "StripFinalizers fs [] = (fs, False)"
| "StripFinalizers fs (f # strip) =
     (let (fs1, removed) = RemoveFinalizer fs f; (fs2, updated) = StripFinalizers fs1 strip
      in (fs2, removed \<or> updated))"

section \<open>Labels and annotations in memory\<close>

type_synonym label_map = "(string \<times> string) list"

text \<open>\<^verbatim>\<open>m[k]\<close> of a Go map, nil or not: the empty string when there is no entry.\<close>

definition go_entry :: "label_map \<Rightarrow> string \<Rightarrow> string" where
  "go_entry m k = (case map_of m k of None \<Rightarrow> [] | Some v \<Rightarrow> v)"

definition ManagedKey :: string where "ManagedKey = ''inrun.dev/managed''"

definition ManagedValue :: string where "ManagedValue = ''true''"

definition DeletionProtectionLabel :: string where
  "DeletionProtectionLabel = ''inrun.dev/deletion-protection''"

definition DeletionProtectionValue :: string where "DeletionProtectionValue = ''true''"

definition StrictModeExemptKey :: string where
  "StrictModeExemptKey = ''inrun.dev/strict-mode-exempt''"

definition StrictModeExemptValue :: string where "StrictModeExemptValue = ''true''"

definition AnnotationManagedBy :: string where "AnnotationManagedBy = ''inrun.dev/managed-by''"

definition AnnotationManagedSince :: string where "AnnotationManagedSince = ''inrun.dev/managed-since''"

definition EnsureManagedLabel :: "label_map \<Rightarrow> label_map \<times> bool" where
  "EnsureManagedLabel ls =
     (if map_of ls ManagedKey = Some ManagedValue then (ls, False)
      else (AList.update ManagedKey ManagedValue ls, True))"

definition EnsureDeletionProtectionLabel :: "bool \<Rightarrow> label_map \<Rightarrow> label_map \<times> bool" where
  "EnsureDeletionProtectionLabel shouldHave ls =
     (let desiredValue = (if shouldHave then DeletionProtectionValue else []);
          currentValue = go_entry ls DeletionProtectionLabel
      in if currentValue = desiredValue then (ls, False)
         else if desiredValue = [] then (AList.delete DeletionProtectionLabel ls, True)
         else (AList.update DeletionProtectionLabel desiredValue ls, True))"

definition EnsureStrictModeExemptLabel :: "bool \<Rightarrow> label_map \<Rightarrow> label_map \<times> bool" where
  "EnsureStrictModeExemptLabel strictModeEnabled ls =
     (let desiredValue = (if \<not> strictModeEnabled then StrictModeExemptValue else []);
          currentValue = go_entry ls StrictModeExemptKey
      in if currentValue = desiredValue then (ls, False)
         else if desiredValue = [] then (AList.delete StrictModeExemptKey ls, True)
         else (AList.update StrictModeExemptKey desiredValue ls, True))"

fun EnsureUserLabels :: "label_map \<Rightarrow> label_map \<Rightarrow> label_map \<times> bool" where
  "EnsureUserLabels [] ls = (ls, False)"
| "EnsureUserLabels ((k, v) # extra) ls =
     (let (ls1, changed) = (if go_entry ls k \<noteq> v then (AList.update k v ls, True) else (ls, False));
          (ls2, changed2) = EnsureUserLabels extra ls1
      in (ls2, changed \<or> changed2))"

text \<open>Annotations are those of \<open>cr_object\<close>; the map is written back when it changed.\<close>

definition annotation_map :: "cr_object \<Rightarrow> annotations" where
  "annotation_map obj = (case cr_annotations obj of None \<Rightarrow> Map.empty | Some a \<Rightarrow> a)"

definition ann_entry :: "annotations \<Rightarrow> string \<Rightarrow> string" where
  "ann_entry ann k = (case ann k of None \<Rightarrow> [] | Some v \<Rightarrow> v)"

fun user_annotation_loop :: "label_map \<Rightarrow> annotations \<Rightarrow> annotations \<times> bool" where
  "user_annotation_loop [] ann = (ann, False)"
| "user_annotation_loop ((k, v) # extra) ann =
     (let (ann1, changed) = (if ann_entry ann k \<noteq> v then (ann(k \<mapsto> v), True) else (ann, False));
          (ann2, changed2) = user_annotation_loop extra ann1
      in (ann2, changed \<or> changed2))"

definition EnsureUserAnnotations :: "label_map \<Rightarrow> cr_object \<Rightarrow> cr_object \<times> bool" where
  "EnsureUserAnnotations extra obj =
     (if length extra = 0 then (obj, False)
      else (let (ann, changed) = user_annotation_loop extra (annotation_map obj)
            in if changed then (obj\<lparr>cr_annotations := Some ann\<rparr>, True) else (obj, False)))"

definition EnsureManagedAnnotations :: "string \<Rightarrow> string \<Rightarrow> cr_object \<Rightarrow> cr_object \<times> bool" where
  "EnsureManagedAnnotations now operatorName obj =
     (let ann = annotation_map obj;
          (ann1, c1) = (if ann_entry ann AnnotationManagedBy = []
                        then (ann(AnnotationManagedBy \<mapsto> operatorName), True) else (ann, False));
          (ann2, c2) = (if ann_entry ann1 AnnotationManagedSince = []
                        then (ann1(AnnotationManagedSince \<mapsto> now), True) else (ann1, False))
      in if c1 \<or> c2 then (obj\<lparr>cr_annotations := Some ann2\<rparr>, True) else (obj, False))"

section \<open>Patches\<close>

text \<open>
  The resource with its copy on the server.  The API server: what it makes of a merge patch on
  labels, whether it admits the update of the labels, and whether it takes the finalizers.
\<close>

record maintained =
  mo_object :: cr_object
  mo_finalizers :: "string list"
  mo_labels :: label_map
  mo_server_finalizers :: "string list"
  mo_server_labels :: label_map

record kube_api =
  ka_annotations :: api_server
  ka_merge_labels :: "label_map \<Rightarrow> (string \<times> string option) list \<Rightarrow> label_map"
  ka_admit :: "label_map \<Rightarrow> label_map \<Rightarrow> string option"
  ka_finalizer_error :: "string option"

definition PatchFinalizers ::
  "kube_api \<Rightarrow> string list \<Rightarrow> maintained \<Rightarrow> maintained \<times> string option" where
  "PatchFinalizers api finalizers m =
     (case ka_finalizer_error api of
        Some e \<Rightarrow> (m, Some e)
      | None \<Rightarrow> (m\<lparr>mo_server_finalizers := finalizers\<rparr>, None))"

text \<open>The body of the label patch; \<open>None\<close> is JSON's null.\<close>

definition labelPatch :: "label_map \<Rightarrow> label_map \<Rightarrow> (string \<times> string option) list" where
  "labelPatch base desired =
     map (\<lambda>(key, _). (key, None)) (filter (\<lambda>(key, _). map_of desired key = None) base) @
     map (\<lambda>(key, val). (key, Some val)) (filter (\<lambda>(key, val). go_entry base key \<noteq> val) desired)"

definition PatchLabels ::
  "kube_api \<Rightarrow> label_map \<Rightarrow> label_map \<Rightarrow> maintained \<Rightarrow> maintained \<times> string option" where
  "PatchLabels api base desired m =
     (let patch = labelPatch base desired in
      if length patch = 0 then (m, None)
      else (let new = ka_merge_labels api (mo_server_labels m) patch in
            case ka_admit api (mo_server_labels m) new of
              Some e \<Rightarrow> (m, Some e)
            | None \<Rightarrow> (m\<lparr>mo_server_labels := new\<rparr>, None)))"

section \<open>Configuration\<close>

record dp_override =
  dp_protect_crd :: "bool option"
  dp_protect_crs :: "bool option"
  dp_strict_mode :: "bool option"

text \<open>\<^verbatim>\<open>RuntimeConfig\<close>: the fields that maintenance and deletion read.\<close>

record runtime_config =
  rt_finalizers :: "string list"
  rt_remove_finalizers :: bool
  rt_protection :: "dp_override option"

definition EffectiveFinalizers :: "runtime_config option \<Rightarrow> string list" where
  "EffectiveFinalizers rt = (case rt of None \<Rightarrow> [] | Some r \<Rightarrow> rt_finalizers r)"

definition EffectiveRemoveFinalizers :: "runtime_config option \<Rightarrow> bool" where
  "EffectiveRemoveFinalizers rt = (case rt of None \<Rightarrow> False | Some r \<Rightarrow> rt_remove_finalizers r)"

record maintained_crd =
  mc_name :: string
  mc_catalog_name :: string
  mc_runtime :: "runtime_config option"
  mc_labels :: label_map
  mc_annotations :: label_map

definition deletionProtection :: "maintained_crd \<Rightarrow> dp_override option" where
  "deletionProtection crd = (case mc_runtime crd of None \<Rightarrow> None | Some r \<Rightarrow> rt_protection r)"

definition ShouldProtectCRD :: "maintained_crd \<Rightarrow> bool" where
  "ShouldProtectCRD crd =
     (case deletionProtection crd of None \<Rightarrow> True
      | Some dp \<Rightarrow> (case dp_protect_crd dp of None \<Rightarrow> True | Some b \<Rightarrow> b))"

definition ShouldProtectCRs :: "maintained_crd \<Rightarrow> bool" where
  "ShouldProtectCRs crd =
     (case deletionProtection crd of None \<Rightarrow> True
      | Some dp \<Rightarrow> (case dp_protect_crs dp of None \<Rightarrow> True | Some b \<Rightarrow> b))"

definition IsStrictDeletionProtection :: "maintained_crd \<Rightarrow> bool \<Rightarrow> bool" where
  "IsStrictDeletionProtection crd catalogStrictMode =
     (if \<not> catalogStrictMode then False
      else case deletionProtection crd of None \<Rightarrow> True
      | Some dp \<Rightarrow> (case dp_strict_mode dp of None \<Rightarrow> True | Some b \<Rightarrow> b))"

text \<open>\<^verbatim>\<open>security.deletionProtection\<close> of the catalog and the default from the environment.\<close>

record catalog_protection =
  cp_block :: "(bool option \<times> bool) option"   \<comment> \<open>\<^verbatim>\<open>Enabled\<close> and \<^verbatim>\<open>StrictMode\<close>\<close>
  cp_env_enabled :: bool

definition IsDeletionProtectionEnabled :: "catalog_protection \<Rightarrow> bool" where
  "IsDeletionProtectionEnabled k =
     (case cp_block k of
        None \<Rightarrow> cp_env_enabled k
      | Some (enabled, _) \<Rightarrow> (case enabled of None \<Rightarrow> True | Some b \<Rightarrow> b))"

definition IsStrictModeEnabled :: "catalog_protection \<Rightarrow> bool" where
  "IsStrictModeEnabled k = (case cp_block k of None \<Rightarrow> False | Some (_, strict) \<Rightarrow> strict)"

section \<open>Maintenance\<close>

datatype maintain_error =
    FinalizerPatch string | LabelTemplate string | LabelPatchError string
  | AnnotationTemplate string | AnnotationPatchError string

definition ensureFinalizers ::
  "kube_api \<Rightarrow> runtime_config option \<Rightarrow> maintained \<Rightarrow> maintained \<times> string option" where
  "ensureFinalizers api rt m =
     (if length (EffectiveFinalizers rt) = 0 then (m, None)
      else (let (fs, updated) = EnsureFinalizers (mo_finalizers m) (EffectiveFinalizers rt);
                m1 = m\<lparr>mo_finalizers := fs\<rparr>
            in if \<not> updated then (m1, None) else PatchFinalizers api fs m1))"

definition stripFinalizers ::
  "kube_api \<Rightarrow> runtime_config option \<Rightarrow> maintained \<Rightarrow> maintained \<times> string option" where
  "stripFinalizers api rt m =
     (if length (mo_finalizers m) = 0 then (m, None)
      else (let (fs, updated) = StripFinalizers (mo_finalizers m) (EffectiveFinalizers rt);
                m1 = m\<lparr>mo_finalizers := fs\<rparr>
            in if \<not> updated then (m1, None) else PatchFinalizers api fs m1))"

text \<open>\<open>rt\<close> is the runtime block of the effective box, \<open>mc_runtime\<close> the one of the CRD.\<close>

definition applyFinalizers ::
  "kube_api \<Rightarrow> maintained_crd \<Rightarrow> runtime_config option \<Rightarrow> maintained \<Rightarrow> maintained \<times> string option" where
  "applyFinalizers api crd rt m =
     (let remove = EffectiveRemoveFinalizers (mc_runtime crd);
          remove' = (case rt of None \<Rightarrow> remove | Some r \<Rightarrow> (if rt_remove_finalizers r then True else remove))
      in if remove' then stripFinalizers api rt m else ensureFinalizers api rt m)"

fun resolve_values :: "resolver \<Rightarrow> label_map \<Rightarrow> string + label_map" where
  "resolve_values r [] = Inr []"
| "resolve_values r ((k, v) # declared) =
     (case Resolve r v of
        None \<Rightarrow> Inl k
      | Some val \<Rightarrow> (case resolve_values r declared of Inl e \<Rightarrow> Inl e | Inr rest \<Rightarrow> Inr ((k, val) # rest)))"

definition system_labels ::
  "maintained_crd \<Rightarrow> catalog_protection \<Rightarrow> bool \<Rightarrow> label_map \<Rightarrow> label_map" where
  "system_labels crd k forCleanup serverLabels =
     (let ls1 = fst (EnsureManagedLabel serverLabels) in
      if IsDeletionProtectionEnabled k then
        (let shouldHave = (\<not> forCleanup \<and> IsDeletionProtectionEnabled k \<and> ShouldProtectCRs crd);
             ls2 = fst (EnsureDeletionProtectionLabel shouldHave ls1);
             strict = IsStrictDeletionProtection crd (IsStrictModeEnabled k);
             currentlyProtected = (go_entry serverLabels DeletionProtectionLabel = DeletionProtectionValue);
             effectiveStrict = (if \<not> shouldHave \<and> currentlyProtected then False else strict)
         in fst (EnsureStrictModeExemptLabel effectiveStrict ls2))
      else ls1)"

text \<open>The end of \<^verbatim>\<open>applyLabels\<close>, after the labels are patched.\<close>

definition apply_annotations ::
  "kube_api \<Rightarrow> maintained_crd \<Rightarrow> resolver \<Rightarrow> string \<Rightarrow> maintained \<Rightarrow> maintained \<times> maintain_error option" where
  "apply_annotations api crd r now m =
     (case (if length (mc_annotations crd) > 0 then resolve_values r (mc_annotations crd) else Inr []) of
        Inl key \<Rightarrow> (m, Some (AnnotationTemplate key))
      | Inr resolved \<Rightarrow>
          (let obj1 = (if length (mc_annotations crd) > 0 then fst (EnsureUserAnnotations resolved (mo_object m))
                       else mo_object m);
               (obj2, changed) = EnsureManagedAnnotations now (mc_catalog_name crd) obj1
           in if changed then
                (case PatchAnnotations (ka_annotations api) (annotation_map obj2) obj2 of
                   (obj3, Some e) \<Rightarrow> (m\<lparr>mo_object := obj3\<rparr>, Some (AnnotationPatchError e))
                 | (obj3, None) \<Rightarrow> (m\<lparr>mo_object := obj3\<rparr>, None))
              else (m\<lparr>mo_object := obj2\<rparr>, None)))"

definition applyLabels ::
  "kube_api \<Rightarrow> maintained_crd \<Rightarrow> catalog_protection \<Rightarrow> bool \<Rightarrow> resolver \<Rightarrow> string \<Rightarrow> maintained \<Rightarrow>
   maintained \<times> maintain_error option" where
  "applyLabels api crd k forCleanup r now m =
     (let serverLabels = mo_labels m;
          ls = system_labels crd k forCleanup serverLabels
      in case (if length (mc_labels crd) > 0 then resolve_values r (mc_labels crd) else Inr []) of
           Inl key \<Rightarrow> (m\<lparr>mo_labels := ls\<rparr>, Some (LabelTemplate key))
         | Inr resolved \<Rightarrow>
             (let desired = fst (EnsureUserLabels resolved ls) in
              case PatchLabels api serverLabels desired (m\<lparr>mo_labels := desired\<rparr>) of
                (m1, Some e) \<Rightarrow> (m1, Some (LabelPatchError e))
              | (m1, None) \<Rightarrow> apply_annotations api crd r now m1))"

definition Apply ::
  "kube_api \<Rightarrow> maintained_crd \<Rightarrow> catalog_protection \<Rightarrow> bool \<Rightarrow> runtime_config option \<Rightarrow> resolver \<Rightarrow> string \<Rightarrow>
   maintained \<Rightarrow> maintained \<times> maintain_error option" where
  "Apply api crd k forCleanup rt r now m =
     (case applyFinalizers api crd rt m of
        (m1, Some e) \<Rightarrow> (m1, Some (FinalizerPatch e))
      | (m1, None) \<Rightarrow> applyLabels api crd k forCleanup r now m1)"

section \<open>The protection webhooks\<close>

text \<open>
  \<^verbatim>\<open>AdmissionRequest\<close>: the fields the two handlers decide on.  A body that is not an
  \<^verbatim>\<open>AdmissionReview\<close> and a review without a request are HTTP errors; the text and the counters
  of a denial are left out.
\<close>

record admission_request =
  ar_operation :: string
  ar_kind :: string
  ar_group :: string
  ar_resource :: string
  ar_name :: string
  ar_old_labels :: label_map
  ar_new_labels :: label_map

datatype webhook_reply = HttpError int | Review bool

definition strictModeProtectionHandler ::
  "string \<Rightarrow> admission_request option option \<Rightarrow> webhook_reply" where
  "strictModeProtectionHandler rmethod review =
     (if rmethod \<noteq> ''POST'' then HttpError 405
      else case review of
        None \<Rightarrow> HttpError 400
      | Some None \<Rightarrow> HttpError 400
      | Some (Some req) \<Rightarrow>
          (if ar_operation req \<noteq> ''UPDATE'' then Review True
           else (let hadLabel = (go_entry (ar_old_labels req) DeletionProtectionLabel = ''true'');
                     hasLabel = (go_entry (ar_new_labels req) DeletionProtectionLabel = ''true'')
                 in if go_entry (ar_new_labels req) StrictModeExemptKey = ''true'' then Review True
                    else if hadLabel \<and> \<not> hasLabel then Review False
                    else Review True)))"

definition isProtectedCRD :: "string list option \<Rightarrow> string \<Rightarrow> bool" where
  "isProtectedCRD names crdName = (case names of None \<Rightarrow> False | Some ns \<Rightarrow> List.member ns crdName)"

definition deletionProtectionHandler ::
  "string \<Rightarrow> string list option \<Rightarrow> string \<Rightarrow> admission_request option option \<Rightarrow> webhook_reply" where
  "deletionProtectionHandler configName protectedNames rmethod review =
     (if rmethod \<noteq> ''POST'' then HttpError 405
      else case review of
        None \<Rightarrow> HttpError 400
      | Some None \<Rightarrow> HttpError 400
      | Some (Some req) \<Rightarrow>
          (if ar_operation req \<noteq> ''DELETE'' then Review True
           else if ar_kind req = ''ValidatingWebhookConfiguration'' \<and> ar_name req = configName then Review False
           else if ar_group req = ''apiextensions.k8s.io'' \<and> ar_resource req = ''customresourcedefinitions''
           then Review (\<not> isProtectedCRD protectedNames (ar_name req))
           else Review False))"

text \<open>
  The API server with the strict-mode webhook.  It calls the webhook for an update when the old
  or the new object matches the object selector, and refuses the update that it denies.
\<close>

definition update_request :: "label_map \<Rightarrow> label_map \<Rightarrow> admission_request" where
  "update_request old new =
     \<lparr>ar_operation = ''UPDATE'', ar_kind = [], ar_group = [], ar_resource = [], ar_name = [],
      ar_old_labels = old, ar_new_labels = new\<rparr>"

definition strict_webhook :: "bool \<Rightarrow> label_map \<Rightarrow> label_map \<Rightarrow> string option" where
  "strict_webhook registered old new =
     (if registered \<and>
         (go_entry old DeletionProtectionLabel = DeletionProtectionValue \<or>
          go_entry new DeletionProtectionLabel = DeletionProtectionValue) \<and>
         strictModeProtectionHandler ''POST'' (Some (Some (update_request old new))) = Review False
      then Some ''denied'' else None)"

section \<open>Lemmas: finalizers\<close>

lemma EnsureFinalizers_keeps: "\<exists>added. fst (EnsureFinalizers fs want) = fs @ added \<and> set added = set want - set fs"
proof (induction want arbitrary: fs)
  case (Cons f want)
  show ?case
  proof (cases "f \<in> set fs")
    case True
    with Cons [of fs] show ?thesis
      by (auto simp: AddFinalizer_def ContainsFinalizer_def list_ex_iff case_prod_beta Let_def)
  next
    case False
    obtain added where "fst (EnsureFinalizers (fs @ [f]) want) = (fs @ [f]) @ added"
      "set added = set want - set (fs @ [f])"
      using Cons [of "fs @ [f]"] by blast
    then show ?thesis
      using False by (intro exI [of _ "f # added"])
        (auto simp: AddFinalizer_def ContainsFinalizer_def list_ex_iff case_prod_beta Let_def)
  qed
qed simp

lemma EnsureFinalizers_set [simp]: "set (fst (EnsureFinalizers fs want)) = set fs \<union> set want"
proof -
  obtain added where "fst (EnsureFinalizers fs want) = fs @ added" "set added = set want - set fs"
    using EnsureFinalizers_keeps by blast
  then show ?thesis by simp
qed

lemma EnsureFinalizers_unchanged: "\<not> snd (EnsureFinalizers fs want) \<Longrightarrow> fst (EnsureFinalizers fs want) = fs"
  by (induction want arbitrary: fs) (auto simp: AddFinalizer_def case_prod_beta Let_def split: if_splits)

lemma StripFinalizers_filter [simp]:
  "fst (StripFinalizers fs strip) = filter (\<lambda>f. f \<notin> set strip) fs"
  by (induction strip arbitrary: fs) (auto simp: RemoveFinalizer_def case_prod_beta Let_def conj_commute)

lemma RemoveFinalizer_unchanged: "\<not> snd (RemoveFinalizer fs f) \<Longrightarrow> fst (RemoveFinalizer fs f) = fs"
proof -
  assume "\<not> snd (RemoveFinalizer fs f)"
  then have "length (filter (\<lambda>g. g \<noteq> f) fs) = length fs" by (simp add: RemoveFinalizer_def Let_def)
  then have "\<forall>g \<in> set fs. g \<noteq> f"
    using length_filter_less [of _ fs "\<lambda>g. g \<noteq> f"] by fastforce
  then show ?thesis by (simp add: RemoveFinalizer_def Let_def)
qed

lemma StripFinalizers_unchanged: "\<not> snd (StripFinalizers fs strip) \<Longrightarrow> fst (StripFinalizers fs strip) = fs"
proof (induction strip arbitrary: fs)
  case (Cons f strip)
  then show ?case
    using RemoveFinalizer_unchanged [of fs f] by (simp add: case_prod_beta Let_def)
qed simp

text \<open>
  A resource whose finalizers in memory are the wanted ones: no pass patches them any more.
\<close>

definition finalizers_settled :: "maintained_crd \<Rightarrow> runtime_config option \<Rightarrow> maintained \<Rightarrow> bool" where
  "finalizers_settled crd rt m \<longleftrightarrow>
     (if EffectiveRemoveFinalizers (mc_runtime crd) \<or> EffectiveRemoveFinalizers rt
      then set (mo_finalizers m) \<inter> set (EffectiveFinalizers rt) = {}
      else set (EffectiveFinalizers rt) \<subseteq> set (mo_finalizers m))"

lemma EnsureFinalizers_present: "set want \<subseteq> set fs \<Longrightarrow> EnsureFinalizers fs want = (fs, False)"
  by (induction want) (auto simp: AddFinalizer_def ContainsFinalizer_def list_ex_iff)

lemma StripFinalizers_absent: "set fs \<inter> set strip = {} \<Longrightarrow> StripFinalizers fs strip = (fs, False)"
proof (induction strip)
  case (Cons f strip)
  then have "filter (\<lambda>g. g \<noteq> f) fs = fs" by (auto simp: filter_id_conv)
  then have "RemoveFinalizer fs f = (fs, False)" by (simp add: RemoveFinalizer_def Let_def)
  with Cons show ?case by (auto simp: Int_insert_right split: if_splits)
qed simp

lemma applyFinalizers_remove:
  "applyFinalizers api crd rt m =
     (if EffectiveRemoveFinalizers (mc_runtime crd) \<or> EffectiveRemoveFinalizers rt
      then stripFinalizers api rt m else ensureFinalizers api rt m)"
  by (auto simp: applyFinalizers_def EffectiveRemoveFinalizers_def Let_def split: option.splits)

lemma settled_finalizers: "finalizers_settled crd rt m \<Longrightarrow> applyFinalizers api crd rt m = (m, None)"
  by (auto simp: applyFinalizers_remove finalizers_settled_def ensureFinalizers_def stripFinalizers_def
      EnsureFinalizers_present StripFinalizers_absent)

lemma failed_finalizers:
  assumes "applyFinalizers api crd rt m = (m1, Some e)"
  shows "finalizers_settled crd rt m1" "mo_server_finalizers m1 = mo_server_finalizers m"
  using assms
  by (auto simp: applyFinalizers_remove finalizers_settled_def ensureFinalizers_def stripFinalizers_def
      PatchFinalizers_def prod_eq_iff case_prod_beta Let_def split: if_splits option.splits)

lemma apply_annotations_finalizers:
  "mo_finalizers (fst (apply_annotations api crd r now m)) = mo_finalizers m"
  "mo_server_finalizers (fst (apply_annotations api crd r now m)) = mo_server_finalizers m"
  by (simp_all add: apply_annotations_def Let_def case_prod_beta split: sum.split option.split)

lemma applyLabels_finalizers:
  "mo_finalizers (fst (applyLabels api crd k c r now m)) = mo_finalizers m"
  "mo_server_finalizers (fst (applyLabels api crd k c r now m)) = mo_server_finalizers m"
  by (simp_all add: applyLabels_def PatchLabels_def Let_def case_prod_beta apply_annotations_finalizers
      split: sum.split option.split)

lemma settled_pass:
  assumes "finalizers_settled crd rt m"
  shows "finalizers_settled crd rt (fst (Apply api crd k c rt r now m))"
    and "mo_server_finalizers (fst (Apply api crd k c rt r now m)) = mo_server_finalizers m"
  using assms applyLabels_finalizers
  by (simp_all add: Apply_def settled_finalizers [OF assms] finalizers_settled_def)

lemma failed_pass_settles:
  assumes "Apply api crd k c rt r now m = (m1, Some (FinalizerPatch e))"
  shows "finalizers_settled crd rt m1" "mo_server_finalizers m1 = mo_server_finalizers m"
proof -
  have "applyFinalizers api crd rt m = (m1, Some e)"
  proof (cases "applyFinalizers api crd rt m")
    case (Pair m' err)
    have "snd (applyLabels api crd k c r now m') \<noteq> Some (FinalizerPatch e)"
      by (simp add: applyLabels_def apply_annotations_def Let_def case_prod_beta split: sum.split option.split)
    with Pair assms show ?thesis by (auto simp: Apply_def split: option.splits)
  qed
  then show "finalizers_settled crd rt m1" "mo_server_finalizers m1 = mo_server_finalizers m"
    using failed_finalizers by blast+
qed

section \<open>Lemmas: labels\<close>

text \<open>What Go reads from a label map after each operation.\<close>

lemma go_entry_update [simp]: "go_entry (AList.update k v m) j = (if j = k then v else go_entry m j)"
  by (simp add: go_entry_def update_conv')

lemma go_entry_delete [simp]: "go_entry (AList.delete k m) j = (if j = k then [] else go_entry m j)"
  by (simp add: go_entry_def delete_conv')

lemma go_entry_managed [simp]:
  "go_entry (fst (EnsureManagedLabel ls)) j = (if j = ManagedKey then ManagedValue else go_entry ls j)"
  by (auto simp: EnsureManagedLabel_def go_entry_def update_conv')

lemma go_entry_protection [simp]:
  "go_entry (fst (EnsureDeletionProtectionLabel b ls)) j =
     (if j = DeletionProtectionLabel then (if b then DeletionProtectionValue else []) else go_entry ls j)"
  by (auto simp: EnsureDeletionProtectionLabel_def Let_def DeletionProtectionValue_def)

lemma go_entry_exempt [simp]:
  "go_entry (fst (EnsureStrictModeExemptLabel b ls)) j =
     (if j = StrictModeExemptKey then (if b then [] else StrictModeExemptValue) else go_entry ls j)"
  by (auto simp: EnsureStrictModeExemptLabel_def Let_def StrictModeExemptValue_def)

lemma go_entry_user:
  "distinct (map fst extra) \<Longrightarrow>
   go_entry (fst (EnsureUserLabels extra ls)) j = (case map_of extra j of Some v \<Rightarrow> v | None \<Rightarrow> go_entry ls j)"
  by (induction extra arbitrary: ls)
    (auto simp: case_prod_beta Let_def dest: map_of_SomeD split: option.splits intro: rev_image_eqI)

lemma label_keys [simp]:
  "ManagedKey \<noteq> DeletionProtectionLabel" "ManagedKey \<noteq> StrictModeExemptKey"
  "DeletionProtectionLabel \<noteq> StrictModeExemptKey" "DeletionProtectionLabel \<noteq> ManagedKey"
  "StrictModeExemptKey \<noteq> ManagedKey" "StrictModeExemptKey \<noteq> DeletionProtectionLabel"
  by (simp_all add: ManagedKey_def DeletionProtectionLabel_def StrictModeExemptKey_def)

lemma label_values [simp]: "DeletionProtectionValue \<noteq> []" "StrictModeExemptValue \<noteq> []"
  "StrictModeExemptValue = ''true''" "DeletionProtectionValue = ''true''"
  by (simp_all add: DeletionProtectionValue_def StrictModeExemptValue_def)

text \<open>Each operation keeps the keys of a map distinct.\<close>

lemma distinct_labels:
  "distinct (map fst ls) \<Longrightarrow> distinct (map fst (fst (EnsureManagedLabel ls)))"
  "distinct (map fst ls) \<Longrightarrow> distinct (map fst (fst (EnsureDeletionProtectionLabel b ls)))"
  "distinct (map fst ls) \<Longrightarrow> distinct (map fst (fst (EnsureStrictModeExemptLabel b ls)))"
  by (simp_all add: EnsureManagedLabel_def EnsureDeletionProtectionLabel_def EnsureStrictModeExemptLabel_def
      Let_def distinct_update distinct_delete)

lemma distinct_user: "distinct (map fst ls) \<Longrightarrow> distinct (map fst (fst (EnsureUserLabels extra ls)))"
  by (induction extra arbitrary: ls) (auto simp: case_prod_beta Let_def distinct_update)

lemma distinct_system: "distinct (map fst ls) \<Longrightarrow> distinct (map fst (system_labels crd k c ls))"
  by (simp add: system_labels_def Let_def distinct_labels)

lemma distinct_filter_fst: "distinct (map fst xs) \<Longrightarrow> distinct (map fst (filter P xs))"
  by (induction xs) auto

lemma map_of_filter_key:
  "distinct (map fst xs) \<Longrightarrow>
   map_of (filter (\<lambda>(a, b). P a b) xs) k = (case map_of xs k of Some v \<Rightarrow> if P k v then Some v else None | None \<Rightarrow> None)"
  by (induction xs) (auto split: option.splits dest: map_of_SomeD intro: rev_image_eqI)

text \<open>A JSON merge patch on a flat object, whose keys are distinct.\<close>

definition merge_labels_law :: "kube_api \<Rightarrow> bool" where
  "merge_labels_law api \<longleftrightarrow>
     (\<forall>s p. distinct (map fst s) \<longrightarrow> distinct (map fst p) \<longrightarrow>
        distinct (map fst (ka_merge_labels api s p)) \<and>
        (\<forall>k. map_of (ka_merge_labels api s p) k = (case map_of p k of Some v \<Rightarrow> v | None \<Rightarrow> map_of s k)))"

lemma labelPatch_keys:
  assumes "distinct (map fst base)" "distinct (map fst desired)"
  shows "distinct (map fst (labelPatch base desired))"
proof -
  have "map fst (labelPatch base desired) =
    map fst (filter (\<lambda>(key, _). map_of desired key = None) base) @
    map fst (filter (\<lambda>(key, val). go_entry base key \<noteq> val) desired)"
    by (simp add: labelPatch_def case_prod_beta comp_def)
  moreover have "k \<in> fst ` set desired" if "(k, v) \<in> set desired" for k v
    using that by force
  ultimately show ?thesis
    using assms by (auto simp: distinct_filter_fst map_of_eq_None_iff)
qed

lemma labelPatch_lookup:
  assumes "distinct (map fst base)" "distinct (map fst desired)"
  shows "map_of (labelPatch base desired) k =
    (case map_of desired k of
       None \<Rightarrow> (if map_of base k = None then None else Some None)
     | Some v \<Rightarrow> (if go_entry base k \<noteq> v then Some (Some v) else None))"
proof -
  have deleted: "map_of (map (\<lambda>(key, _). (key, None)) xs) k = map_option (\<lambda>_. None) (map_of xs k)"
    for xs :: label_map by (induction xs) auto
  have set: "map_of (map (\<lambda>(key, val). (key, Some val)) xs) k = map_option Some (map_of xs k)"
    for xs :: label_map by (induction xs) auto
  have gone: "map_of (filter (\<lambda>(key, _). map_of desired key = None) base) k =
      (if map_of desired k = None then map_of base k else None)"
    using map_of_filter_key [OF assms(1), of "\<lambda>a b. map_of desired a = None" k] by (auto split: option.splits)
  have changed: "map_of (filter (\<lambda>(key, val). go_entry base key \<noteq> val) desired) k =
      (case map_of desired k of Some v \<Rightarrow> if go_entry base k \<noteq> v then Some v else None | None \<Rightarrow> None)"
    using map_of_filter_key [OF assms(2), of "\<lambda>a b. go_entry base a \<noteq> b" k] by (auto split: option.splits)
  show ?thesis
    unfolding labelPatch_def map_of_append map_add_def deleted set gone changed
    by (auto split: option.splits)
qed

text \<open>The server after a label patch: a three-way merge of its own labels, base and desired.\<close>

lemma merged_labels:
  assumes "merge_labels_law api" "distinct (map fst base)" "distinct (map fst desired)" "distinct (map fst s)"
  shows "go_entry (ka_merge_labels api s (labelPatch base desired)) k =
    (if go_entry base k \<noteq> go_entry desired k \<or> map_of base k \<noteq> None \<and> map_of desired k = None
     then go_entry desired k else go_entry s k)"
proof -
  have "map_of (ka_merge_labels api s (labelPatch base desired)) k =
    (case map_of (labelPatch base desired) k of Some v \<Rightarrow> v | None \<Rightarrow> map_of s k)"
    using assms labelPatch_keys unfolding merge_labels_law_def by blast
  then show ?thesis
    by (auto simp: go_entry_def labelPatch_lookup [OF assms(2,3)] split: option.splits if_splits)
qed

lemma resolve_values_keys: "resolve_values r ls = Inr res \<Longrightarrow> map fst res = map fst ls"
  by (induction r ls arbitrary: res rule: resolve_values.induct) (auto split: option.splits sum.splits)

section \<open>Lemmas: a pass\<close>

text \<open>The labels that a pass is meant to leave on a server that had \<open>srv\<close>.\<close>

definition label_spec ::
  "maintained_crd \<Rightarrow> catalog_protection \<Rightarrow> bool \<Rightarrow> label_map \<Rightarrow> (string \<Rightarrow> string) \<Rightarrow> string \<Rightarrow> string" where
  "label_spec crd k forCleanup declared srv j =
     (let protect = (\<not> forCleanup \<and> ShouldProtectCRs crd);
          strict = IsStrictDeletionProtection crd (IsStrictModeEnabled k)
      in if j = ManagedKey then ''true''
         else if IsDeletionProtectionEnabled k \<and> j = DeletionProtectionLabel
         then (if protect then ''true'' else [])
         else if IsDeletionProtectionEnabled k \<and> j = StrictModeExemptKey
         then (if \<not> strict \<or> \<not> protect \<and> srv DeletionProtectionLabel = ''true'' then ''true'' else [])
         else case map_of declared j of Some v \<Rightarrow> v | None \<Rightarrow> srv j)"

definition system_keys :: "string list" where
  "system_keys = [ManagedKey, DeletionProtectionLabel, StrictModeExemptKey]"

text \<open>
  What a pass relies on: user labels and annotations whose templates resolve, none of them under
  a system key; a server that takes every patch the strict-mode webhook admits.
\<close>

definition well_declared :: "resolver \<Rightarrow> maintained_crd \<Rightarrow> label_map \<Rightarrow> bool" where
  "well_declared r crd declared \<longleftrightarrow>
     resolve_values r (mc_labels crd) = Inr declared \<and>
     (case resolve_values r (mc_annotations crd) of Inl _ \<Rightarrow> False | Inr _ \<Rightarrow> True) \<and>
     distinct (map fst declared) \<and> list_all (\<lambda>key. map_of declared key = None) system_keys"

definition webhook_api :: "bool \<Rightarrow> kube_api \<Rightarrow> bool" where
  "webhook_api registered api \<longleftrightarrow>
     merge_labels_law api \<and> ka_admit api = strict_webhook registered \<and>
     ka_finalizer_error api = None \<and> api_patch_error (ka_annotations api) = None"

definition refresh :: "maintained \<Rightarrow> maintained" where
  "refresh m = m\<lparr>mo_labels := mo_server_labels m, mo_finalizers := mo_server_finalizers m,
     mo_object := (mo_object m)\<lparr>cr_annotations := Some (cr_server (mo_object m))\<rparr>\<rparr>"

definition maintain_pass ::
  "kube_api \<Rightarrow> maintained_crd \<Rightarrow> catalog_protection \<Rightarrow> bool \<Rightarrow> runtime_config option \<Rightarrow> resolver \<Rightarrow> string \<Rightarrow>
   maintained \<Rightarrow> maintained \<times> maintain_error option" where
  "maintain_pass api crd k forCleanup rt r now m = Apply api crd k forCleanup rt r now (refresh m)"

lemma system_labels_spec:
  assumes "list_all (\<lambda>key. map_of declared key = None) system_keys" "distinct (map fst declared)"
  shows "go_entry (fst (EnsureUserLabels declared (system_labels crd k c srv))) j =
    label_spec crd k c declared (go_entry srv) j"
  using assms
  by (auto simp: go_entry_user system_labels_def label_spec_def Let_def system_keys_def ManagedValue_def split: option.splits)

lemma applyFinalizers_ok:
  assumes "ka_finalizer_error api = None"
  obtains m1 where "applyFinalizers api crd rt m = (m1, None)" "mo_labels m1 = mo_labels m"
    "mo_server_labels m1 = mo_server_labels m" "mo_object m1 = mo_object m"
proof -
  have "\<exists>m1. applyFinalizers api crd rt m = (m1, None) \<and> mo_labels m1 = mo_labels m \<and>
    mo_server_labels m1 = mo_server_labels m \<and> mo_object m1 = mo_object m"
    using assms
    by (auto simp: applyFinalizers_def stripFinalizers_def ensureFinalizers_def PatchFinalizers_def Let_def
        case_prod_beta split: option.splits)
  then show ?thesis using that by blast
qed

lemma apply_annotations_ok:
  assumes "api_patch_error (ka_annotations api) = None"
    and "case resolve_values r (mc_annotations crd) of Inl _ \<Rightarrow> False | Inr _ \<Rightarrow> True"
  shows "snd (apply_annotations api crd r now m) = None"
    "mo_server_labels (fst (apply_annotations api crd r now m)) = mo_server_labels m"
    "mo_labels (fst (apply_annotations api crd r now m)) = mo_labels m"
  using assms
  by (auto simp: apply_annotations_def PatchAnnotations_def case_prod_beta Let_def split: sum.splits)

text \<open>The label patch of a pass is admitted, and leaves the labels that are meant.\<close>

lemma PatchLabels_pass:
  assumes "webhook_api registered api" "distinct (map fst (mo_server_labels m))"
    and "list_all (\<lambda>key. map_of declared key = None) system_keys" "distinct (map fst declared)"
    and "desired = fst (EnsureUserLabels declared (system_labels crd k c (mo_server_labels m)))"
  obtains m1 where "PatchLabels api (mo_server_labels m) desired m = (m1, None)"
    "\<And>j. go_entry (mo_server_labels m1) j = label_spec crd k c declared (go_entry (mo_server_labels m)) j"
    "distinct (map fst (mo_server_labels m1))" "mo_labels m1 = mo_labels m" "mo_object m1 = mo_object m"
proof -
  let ?base = "mo_server_labels m" and ?spec = "label_spec crd k c declared (go_entry (mo_server_labels m))"
  let ?new = "ka_merge_labels api ?base (labelPatch ?base desired)"
  have law: "merge_labels_law api" and admit: "ka_admit api = strict_webhook registered"
    using assms(1) by (auto simp: webhook_api_def)
  have desired: "go_entry desired j = ?spec j" for j
    by (simp add: assms(5) system_labels_spec [OF assms(3,4)])
  have dist: "distinct (map fst desired)"
    using assms(2) by (simp add: assms(5) distinct_user distinct_system)
  have new: "go_entry ?new j = ?spec j" for j
    by (simp add: merged_labels [OF law assms(2) dist assms(2)] desired)
  have "\<not> (go_entry ?base DeletionProtectionLabel = ''true'' \<and> ?spec DeletionProtectionLabel \<noteq> ''true'' \<and>
     ?spec StrictModeExemptKey \<noteq> ''true'')"
    using assms(3) by (auto simp: label_spec_def Let_def system_keys_def split: if_splits)
  then have admitted: "strict_webhook registered ?base ?new = None"
    by (auto simp: strict_webhook_def strictModeProtectionHandler_def update_request_def Let_def new)
  have keys: "distinct (map fst ?new)"
    using law assms(2) labelPatch_keys [OF assms(2) dist] by (simp add: merge_labels_law_def)
  show ?thesis
  proof (cases "labelPatch ?base desired = []")
    case True
    have same: "go_entry ?base j = go_entry desired j" for j
      using labelPatch_lookup [OF assms(2) dist, of j] unfolding True
      by (auto simp: go_entry_def split: option.splits if_splits)
    show ?thesis
      by (rule that [of m]) (use True assms(2) in \<open>auto simp: PatchLabels_def Let_def same desired [symmetric]\<close>)
  next
    case False
    show ?thesis
      by (rule that [of "m\<lparr>mo_server_labels := ?new\<rparr>"])
        (use False keys in \<open>auto simp: PatchLabels_def Let_def admit admitted new\<close>)
  qed
qed

lemma pass_labels:
  assumes "webhook_api registered api" "well_declared r crd declared" "distinct (map fst (mo_server_labels m))"
  obtains m' where "maintain_pass api crd k c rt r now m = (m', None)"
    "\<And>j. go_entry (mo_server_labels m') j = label_spec crd k c declared (go_entry (mo_server_labels m)) j"
    "distinct (map fst (mo_server_labels m'))"
proof -
  have api: "ka_finalizer_error api = None" "api_patch_error (ka_annotations api) = None"
    using assms(1) by (auto simp: webhook_api_def)
  have decl: "resolve_values r (mc_labels crd) = Inr declared" "distinct (map fst declared)"
    "list_all (\<lambda>key. map_of declared key = None) system_keys"
    "case resolve_values r (mc_annotations crd) of Inl _ \<Rightarrow> False | Inr _ \<Rightarrow> True"
    using assms(2) by (auto simp: well_declared_def)
  obtain m1 where m1: "applyFinalizers api crd rt (refresh m) = (m1, None)"
    "mo_labels m1 = mo_server_labels m" "mo_server_labels m1 = mo_server_labels m"
    using applyFinalizers_ok [OF api(1), of crd rt "refresh m"] by (auto simp: refresh_def)
  let ?desired = "fst (EnsureUserLabels declared (system_labels crd k c (mo_server_labels m)))"
  let ?m1 = "m1\<lparr>mo_labels := ?desired\<rparr>"
  obtain m2 where m2: "PatchLabels api (mo_server_labels m) ?desired ?m1 = (m2, None)"
    "\<And>j. go_entry (mo_server_labels m2) j = label_spec crd k c declared (go_entry (mo_server_labels m)) j"
    "distinct (map fst (mo_server_labels m2))"
    using PatchLabels_pass [OF assms(1), of ?m1 declared ?desired crd k c] assms(3) decl(2,3) m1(3) by auto
  have none: "declared = []" if "mc_labels crd = []" using decl(1) that by simp
  have "maintain_pass api crd k c rt r now m = apply_annotations api crd r now m2"
    using m2(1) decl(1) none by (auto simp: maintain_pass_def Apply_def m1 applyLabels_def Let_def)
  then show ?thesis
    using apply_annotations_ok [OF api(2) decl(4), of now m2] m2(2,3)
    by (intro that [of "fst (apply_annotations api crd r now m2)"]) (auto simp: prod_eq_iff)
qed

text \<open>A pass on labels that are as meant changes nothing.\<close>

lemma EnsureUserLabels_same:
  "(\<And>key v. (key, v) \<in> set extra \<Longrightarrow> go_entry ls key = v) \<Longrightarrow> fst (EnsureUserLabels extra ls) = ls"
  by (induction extra) (auto simp: case_prod_beta Let_def)

lemma system_labels_same:
  assumes "go_entry ls ManagedKey = ''true''"
    and "IsDeletionProtectionEnabled k \<Longrightarrow>
      go_entry ls DeletionProtectionLabel = (if \<not> c \<and> ShouldProtectCRs crd then ''true'' else [])"
    and "IsDeletionProtectionEnabled k \<Longrightarrow>
      go_entry ls StrictModeExemptKey = (if IsStrictDeletionProtection crd (IsStrictModeEnabled k) then [] else ''true'')"
  shows "system_labels crd k c ls = ls"
proof -
  have "map_of ls ManagedKey = Some ManagedValue"
    using assms(1) by (auto simp: go_entry_def ManagedValue_def split: option.splits)
  then show ?thesis
    using assms
    by (auto simp: system_labels_def EnsureManagedLabel_def EnsureDeletionProtectionLabel_def
        EnsureStrictModeExemptLabel_def Let_def)
qed

lemma labelPatch_same: "distinct (map fst ls) \<Longrightarrow> labelPatch ls ls = []"
  by (auto simp: labelPatch_def filter_empty_conv go_entry_def map_of_eq_None_iff intro: rev_image_eqI)

text \<open>One event in the life of a protected resource: a pass, or an update by somebody else.\<close>

datatype label_event = MaintainPass resolver string maintained | Update label_map

definition label_event_step ::
  "kube_api \<Rightarrow> maintained_crd \<Rightarrow> catalog_protection \<Rightarrow> runtime_config option \<Rightarrow> label_map \<Rightarrow> label_event \<Rightarrow> label_map" where
  "label_event_step api crd k rt ls e =
     (case e of
        MaintainPass r now m \<Rightarrow>
          mo_server_labels (fst (maintain_pass api crd k False rt r now (m\<lparr>mo_server_labels := ls\<rparr>)))
      | Update new \<Rightarrow> (if ka_admit api ls new = None then new else ls))"

definition label_event_ok :: "maintained_crd \<Rightarrow> label_map \<Rightarrow> label_event \<Rightarrow> bool" where
  "label_event_ok crd ls e =
     (case e of
        MaintainPass r now m \<Rightarrow>
          (case resolve_values r (mc_labels crd) of Inl _ \<Rightarrow> False | Inr declared \<Rightarrow> well_declared r crd declared)
      | Update new \<Rightarrow> distinct (map fst new) \<and> go_entry new StrictModeExemptKey \<noteq> ''true'')"

definition locked :: "label_map \<Rightarrow> bool" where
  "locked ls \<longleftrightarrow> distinct (map fst ls) \<and> go_entry ls DeletionProtectionLabel = ''true'' \<and>
     go_entry ls StrictModeExemptKey \<noteq> ''true''"

definition strictly_protected :: "maintained_crd \<Rightarrow> catalog_protection \<Rightarrow> bool" where
  "strictly_protected crd k \<longleftrightarrow> IsDeletionProtectionEnabled k \<and> ShouldProtectCRs crd \<and>
     IsStrictDeletionProtection crd (IsStrictModeEnabled k)"

lemma update_admitted:
  "strict_webhook True old new = None \<longleftrightarrow>
   \<not> (go_entry old DeletionProtectionLabel = ''true'' \<and> go_entry new DeletionProtectionLabel \<noteq> ''true'' \<and>
      go_entry new StrictModeExemptKey \<noteq> ''true'')"
  by (auto simp: strict_webhook_def strictModeProtectionHandler_def update_request_def Let_def)

lemma label_event_keeps_locked:
  assumes "webhook_api True api" "strictly_protected crd k" "locked ls" "label_event_ok crd ls e"
  shows "locked (label_event_step api crd k rt ls e)"
proof (cases e)
  case (MaintainPass r now m)
  then obtain declared where decl: "well_declared r crd declared"
    using assms(4) by (auto simp: label_event_ok_def split: sum.splits)
  have "distinct (map fst (mo_server_labels (m\<lparr>mo_server_labels := ls\<rparr>)))"
    using assms(3) by (simp add: locked_def)
  from pass_labels [OF assms(1) decl this, of k False rt now] obtain m' where
    m': "maintain_pass api crd k False rt r now (m\<lparr>mo_server_labels := ls\<rparr>) = (m', None)"
    "\<And>j. go_entry (mo_server_labels m') j =
      label_spec crd k False declared (go_entry (mo_server_labels (m\<lparr>mo_server_labels := ls\<rparr>))) j"
    "distinct (map fst (mo_server_labels m'))" by blast
  show ?thesis
    using assms(2) m'(3)
    by (simp add: label_event_step_def MaintainPass m'(1) locked_def m'(2) label_spec_def Let_def strictly_protected_def)
next
  case (Update new)
  have "ka_admit api = strict_webhook True" using assms(1) by (simp add: webhook_api_def)
  then show ?thesis
    using assms(3,4) by (auto simp: label_event_step_def Update locked_def label_event_ok_def update_admitted)
qed

text \<open>The machine of the labels of a resource; each event comes with the configuration it meets.\<close>

type_synonym label_setting = "kube_api \<times> maintained_crd \<times> catalog_protection \<times> runtime_config option"

definition locked_step :: "label_map \<Rightarrow> label_setting \<times> label_event \<Rightarrow> label_map" where
  "locked_step ls = (\<lambda>((api, crd, k, rt), e). label_event_step api crd k rt ls e)"

definition locked_ok :: "label_map \<Rightarrow> label_setting \<times> label_event \<Rightarrow> bool" where
  "locked_ok ls = (\<lambda>((api, crd, k, rt), e).
     webhook_api True api \<and> strictly_protected crd k \<and> label_event_ok crd ls e)"

interpretation locked_labels: invariant_machine locked_step locked_ok locked
  by unfold_locales (auto simp: locked_step_def locked_ok_def intro: label_event_keeps_locked)

text \<open>Maintenance patches annotations only when a management annotation is missing.\<close>

lemma user_annotation_loop_other:
  "key \<notin> fst ` set extra \<Longrightarrow> ann_entry (fst (user_annotation_loop extra ann)) key = ann_entry ann key"
  by (induction extra arbitrary: ann) (auto simp: case_prod_beta Let_def ann_entry_def)

lemma EnsureUserAnnotations_other:
  assumes "key \<notin> fst ` set extra"
  shows "ann_entry (annotation_map (fst (EnsureUserAnnotations extra obj))) key = ann_entry (annotation_map obj) key"
    "cr_server (fst (EnsureUserAnnotations extra obj)) = cr_server obj"
  using user_annotation_loop_other [OF assms, of "annotation_map obj"]
  by (simp_all add: EnsureUserAnnotations_def Let_def case_prod_beta annotation_map_def)

lemma apply_annotations_quiet:
  assumes "ann_entry (annotation_map (mo_object n)) AnnotationManagedBy \<noteq> []"
    and "ann_entry (annotation_map (mo_object n)) AnnotationManagedSince \<noteq> []"
    and "list_all (\<lambda>(key, _). key \<noteq> AnnotationManagedBy \<and> key \<noteq> AnnotationManagedSince) (mc_annotations crd)"
  shows "cr_server (mo_object (fst (apply_annotations api crd r now n))) = cr_server (mo_object n)"
proof (cases "if length (mc_annotations crd) > 0 then resolve_values r (mc_annotations crd) else Inr []")
  case (Inl key)
  then show ?thesis by (simp add: apply_annotations_def)
next
  case (Inr resolved)
  have "map fst resolved = map fst (mc_annotations crd)"
    using Inr resolve_values_keys by (auto split: if_splits)
  moreover have "\<forall>key \<in> set (map fst (mc_annotations crd)). key \<noteq> AnnotationManagedBy \<and> key \<noteq> AnnotationManagedSince"
    using assms(3) by (auto simp: list_all_iff)
  ultimately have keys: "AnnotationManagedBy \<notin> fst ` set resolved" "AnnotationManagedSince \<notin> fst ` set resolved"
    by (metis list.set_map)+
  then show ?thesis
    using Inr assms(1,2) EnsureUserAnnotations_other [OF keys(1)] EnsureUserAnnotations_other [OF keys(2)]
    by (simp add: apply_annotations_def EnsureManagedAnnotations_def Let_def)
qed

lemma applyFinalizers_object: "mo_object (fst (applyFinalizers api crd rt n)) = mo_object n"
  by (auto simp: applyFinalizers_def stripFinalizers_def ensureFinalizers_def PatchFinalizers_def Let_def
      case_prod_beta split: option.splits)

lemma PatchLabels_object: "mo_object (fst (PatchLabels api base desired n)) = mo_object n"
  by (auto simp: PatchLabels_def Let_def split: option.splits)

lemma applyLabels_object:
  obtains "mo_object (fst (applyLabels api crd k c r now m)) = mo_object m"
  | n where "mo_object n = mo_object m"
      "fst (applyLabels api crd k c r now m) = fst (apply_annotations api crd r now n)"
proof (cases "if length (mc_labels crd) > 0 then resolve_values r (mc_labels crd) else Inr []")
  case (Inl key)
  then show ?thesis by (intro that(1)) (simp add: applyLabels_def Let_def)
next
  case (Inr declared)
  let ?desired = "fst (EnsureUserLabels declared (system_labels crd k c (mo_labels m)))"
  obtain m1 e where p: "PatchLabels api (mo_labels m) ?desired (m\<lparr>mo_labels := ?desired\<rparr>) = (m1, e)"
    by (metis surj_pair)
  then have obj: "mo_object m1 = mo_object m"
    using PatchLabels_object [of api "mo_labels m" ?desired "m\<lparr>mo_labels := ?desired\<rparr>"] by simp
  show ?thesis
  proof (cases e)
    case None
    then show ?thesis using Inr p by (intro that(2) [OF obj]) (simp add: applyLabels_def Let_def)
  next
    case (Some err)
    then show ?thesis using Inr p obj by (intro that(1)) (simp add: applyLabels_def Let_def)
  qed
qed

section \<open>Properties\<close>




text \<open>
  \<^verbatim>\<open>PatchLabels\<close> is a three-way merge: a label that changed from base to desired gets its
  desired value on the server, every other label keeps the value the server has by now.
\<close>
lemma label_patch_is_a_three_way_merge:
  assumes "merge_labels_law api" "distinct (map fst base)" "distinct (map fst desired)"
    and "distinct (map fst (mo_server_labels m))" "PatchLabels api base desired m = (m', None)"
  shows "go_entry (mo_server_labels m') key =
    (if go_entry base key \<noteq> go_entry desired key \<or> map_of base key \<noteq> None \<and> map_of desired key = None
     then go_entry desired key else go_entry (mo_server_labels m) key)"
proof (cases "labelPatch base desired = []")
  case True
  then have "mo_server_labels m' = mo_server_labels m" using assms(5) by (simp add: PatchLabels_def)
  moreover have "\<not> (go_entry base key \<noteq> go_entry desired key \<or> map_of base key \<noteq> None \<and> map_of desired key = None)"
    using labelPatch_lookup [OF assms(2,3), of key] unfolding True
    by (auto simp: go_entry_def split: option.splits if_splits)
  ultimately show ?thesis by (simp only: if_False)
next
  case False
  then have "mo_server_labels m' = ka_merge_labels api (mo_server_labels m) (labelPatch base desired)"
    using assms(5) by (auto simp: PatchLabels_def Let_def split: option.splits)
  then show ?thesis by (simp add: merged_labels [OF assms(1-4)])
qed


text \<open>
  C34. Finalizers: a normal pass puts every finalizer of the box on the server, behind those that
  are there; a later pass with \<^verbatim>\<open>removeFinalizers\<close> takes them off again and leaves exactly the
  foreign ones, in their order.
\<close>
theorem finalizers_round_trip:
  assumes "ka_finalizer_error api = None"
    and "\<not> EffectiveRemoveFinalizers (mc_runtime crd)" "\<not> EffectiveRemoveFinalizers rt"
    and "EffectiveRemoveFinalizers rt'" "EffectiveFinalizers rt' = EffectiveFinalizers rt"
    and "m1 = fst (applyFinalizers api crd rt (refresh m))"
  shows "prefix (mo_server_finalizers m) (mo_server_finalizers m1) \<and>
    set (mo_server_finalizers m1) = set (mo_server_finalizers m) \<union> set (EffectiveFinalizers rt) \<and>
    mo_server_finalizers (fst (applyFinalizers api crd' rt' (refresh m1))) =
      filter (\<lambda>f. f \<notin> set (EffectiveFinalizers rt)) (mo_server_finalizers m)"
proof -
  let ?want = "EffectiveFinalizers rt"
  have m1: "mo_server_finalizers m1 = fst (EnsureFinalizers (mo_server_finalizers m) ?want)"
    using assms(1-3,6) EnsureFinalizers_unchanged [of "mo_server_finalizers m" ?want]
    by (auto simp: applyFinalizers_def ensureFinalizers_def PatchFinalizers_def EffectiveRemoveFinalizers_def
        case_prod_beta Let_def refresh_def split: option.splits)
  obtain added where added: "mo_server_finalizers m1 = mo_server_finalizers m @ added"
    "set added = set ?want - set (mo_server_finalizers m)"
    using EnsureFinalizers_keeps m1 by metis
  have "mo_server_finalizers (fst (applyFinalizers api crd' rt' (refresh m1))) =
      filter (\<lambda>f. f \<notin> set ?want) (mo_server_finalizers m1)"
    using assms(1,4,5) StripFinalizers_unchanged [of "mo_server_finalizers m1" ?want]
    by (auto simp: applyFinalizers_def stripFinalizers_def PatchFinalizers_def EffectiveRemoveFinalizers_def
        case_prod_beta Let_def refresh_def split: option.splits)
  moreover have "filter (\<lambda>f. f \<notin> set ?want) added = []"
    using added(2) by (auto simp: filter_empty_conv)
  ultimately show ?thesis using added by (auto simp: prefix_def)
qed

text \<open>
  The passes on the object of the informer cache, which stays in memory from one pass to the next
  until a watch event brings a new one.
\<close>

definition pass_on ::
  "maintained_crd \<Rightarrow> runtime_config option \<Rightarrow> maintained \<Rightarrow>
   kube_api \<times> catalog_protection \<times> bool \<times> resolver \<times> string \<Rightarrow> maintained" where
  "pass_on crd rt m p = (case p of (api, k, forCleanup, r, now) \<Rightarrow> fst (Apply api crd k forCleanup rt r now m))"

lemma settled_passes:
  "finalizers_settled crd rt m \<Longrightarrow>
   mo_server_finalizers (foldl (pass_on crd rt) m passes) = mo_server_finalizers m"
  by (induction passes arbitrary: m) (auto simp: pass_on_def settled_pass split: prod.splits)


section \<open>The resource of the witnesses\<close>

text \<open>A server that merges as JSON merge patches do, and takes what the webhook admits.\<close>

definition merge_entry :: "string \<times> string option \<Rightarrow> label_map \<Rightarrow> label_map" where
  "merge_entry e ls = (case snd e of None \<Rightarrow> AList.delete (fst e) ls | Some v \<Rightarrow> AList.update (fst e) v ls)"

definition sample_kube :: kube_api where
  "sample_kube =
     \<lparr>ka_annotations = \<lparr>api_merge = (++), api_patch_error = None, api_delete_error = None\<rparr>,
      ka_merge_labels = (\<lambda>s p. fold merge_entry p s), ka_admit = strict_webhook True, ka_finalizer_error = None\<rparr>"

lemma sample_kube_law: "webhook_api True sample_kube"
proof -
  have "distinct (map fst (fold merge_entry p s)) \<and>
    map_of (fold merge_entry p s) k = (case map_of p k of Some v \<Rightarrow> v | None \<Rightarrow> map_of s k)"
    if "distinct (map fst s)" "distinct (map fst p)" for s k and p :: "(string \<times> string option) list"
    using that
  proof (induction p arbitrary: s)
    case (Cons e p)
    have "distinct (map fst (merge_entry e s))"
      using Cons.prems(1) by (simp add: merge_entry_def distinct_update distinct_delete split: option.splits)
    moreover have "map_of (merge_entry e s) j = (if j = fst e then snd e else map_of s j)" for j
      by (simp add: merge_entry_def update_conv' delete_conv' split: option.splits)
    moreover have "map_of p (fst e) = None"
      using Cons.prems(2) by (simp add: map_of_eq_None_iff)
    ultimately show ?case
      using Cons.IH [of "merge_entry e s"] Cons.prems(2) by (simp split: option.splits prod.splits)
  qed simp
  then show ?thesis by (simp add: webhook_api_def merge_labels_law_def sample_kube_def)
qed

definition sample_runtime :: "bool \<Rightarrow> bool \<Rightarrow> runtime_config" where
  "sample_runtime protect remove =
     \<lparr>rt_finalizers = [''inrun.dev/cleanup''], rt_remove_finalizers = remove,
      rt_protection = Some \<lparr>dp_protect_crd = None, dp_protect_crs = Some protect, dp_strict_mode = None\<rparr>\<rparr>"

definition sample_maintained_crd :: "bool \<Rightarrow> maintained_crd" where
  "sample_maintained_crd protect =
     \<lparr>mc_name = ''db'', mc_catalog_name = ''shop'', mc_runtime = Some (sample_runtime protect False),
      mc_labels = [(''team'', ''core'')], mc_annotations = [(''tier'', ''gold'')]\<rparr>"

definition strict_catalog :: catalog_protection where
  "strict_catalog = \<lparr>cp_block = Some (None, True), cp_env_enabled = False\<rparr>"

definition text_resolver :: resolver where
  "text_resolver = \<lparr>rs_data = Map.empty, rs_exec = (\<lambda>_ _. None)\<rparr>"

definition protected_labels :: label_map where
  "protected_labels = [(''app'', ''db''), (DeletionProtectionLabel, ''true'')]"

definition sample_maintained :: maintained where
  "sample_maintained =
     \<lparr>mo_object = \<lparr>cr_key = ''shop/db'', cr_annotations = None, cr_deleting = False,
        cr_server = [AnnotationManagedBy \<mapsto> ''shop'', AnnotationManagedSince \<mapsto> ''2024''], cr_deleted = False\<rparr>,
      mo_finalizers = [], mo_labels = [], mo_server_finalizers = [''other''], mo_server_labels = protected_labels\<rparr>"

lemma sample_well_declared: "well_declared text_resolver (sample_maintained_crd protect) [(''team'', ''core'')]"
  by (simp add: well_declared_def sample_maintained_crd_def Resolve_def resolve_def IsTemplate_def text_resolver_def
      system_keys_def ManagedKey_def DeletionProtectionLabel_def StrictModeExemptKey_def str_contains_def)

lemma sample_labels [simp]: "distinct (map fst (mo_server_labels sample_maintained))"
  "go_entry protected_labels DeletionProtectionLabel = ''true''"
  "go_entry protected_labels StrictModeExemptKey = []" "mo_server_labels sample_maintained = protected_labels"
  by (simp_all add: sample_maintained_def protected_labels_def go_entry_def DeletionProtectionLabel_def
      StrictModeExemptKey_def)

lemma strict_catalog_simps [simp]: "IsDeletionProtectionEnabled strict_catalog"
  "IsStrictDeletionProtection (sample_maintained_crd b) (IsStrictModeEnabled strict_catalog)"
  "ShouldProtectCRs (sample_maintained_crd b) = b"
  by (simp_all add: IsDeletionProtectionEnabled_def IsStrictModeEnabled_def strict_catalog_def
      IsStrictDeletionProtection_def ShouldProtectCRs_def deletionProtection_def sample_maintained_crd_def sample_runtime_def)






theorem finalizers_round_trip_witness:
  "mo_server_finalizers (fst (applyFinalizers sample_kube (sample_maintained_crd True) (Some (sample_runtime True True))
     (refresh (fst (applyFinalizers sample_kube (sample_maintained_crd True) (Some (sample_runtime True False))
        (refresh sample_maintained)))))) = [''other'']"
  using finalizers_round_trip [of sample_kube "sample_maintained_crd True" "Some (sample_runtime True False)"
      "Some (sample_runtime True True)" _ sample_maintained "sample_maintained_crd True"]
  by (simp add: sample_kube_def sample_maintained_crd_def sample_runtime_def EffectiveRemoveFinalizers_def
      EffectiveFinalizers_def sample_maintained_def)

end
