(* ===== verification/Deletion.thy ===== *)
theory Deletion
  imports Maintain Namespaces
begin

text \<open>
  The end of a custom resource in the generic reconciler (\<^verbatim>\<open>reconcilers/generic/generic.go\<close>,
  \<^verbatim>\<open>run_delete_ordered.go\<close>, \<^verbatim>\<open>run_template_reconcile.go\<close>, \<^verbatim>\<open>helper.go\<close>) with the deletion of
  cluster-scoped resources it owns (\<^verbatim>\<open>runners/cluster_scoped_deletion.go\<close>).  The API server is
  asked at points in time; \<open>del_run\<close> carries the clock and a log of what was done and seen.
  Parameters: the Go hooks, the jobs of an unordered deletion, the rendering of templates.
\<close>

section \<open>The API server over time\<close>

record del_entry =
  oe_gvr :: string
  oe_namespace :: string
  oe_name :: string

datatype lookup = Found label_map | NotThere | LookupFailed string

datatype delete_reply = Accepted | Missing | Refused string

record cluster =
  ck_get :: "int \<Rightarrow> del_entry \<Rightarrow> lookup"
  ck_delete :: "int \<Rightarrow> del_entry \<Rightarrow> delete_reply"
  ck_latency :: "int \<Rightarrow> nat"
  ck_cancelled :: "int \<Rightarrow> bool"     \<comment> \<open>the context is done\<close>

datatype del_event = DeleteSent del_entry | SeenGone del_entry | Hook string

record del_run =
  dl_now :: int
  dl_log :: "del_event list"

text \<open>A call takes its latency and is answered at its end.\<close>

definition after_call :: "cluster \<Rightarrow> del_run \<Rightarrow> del_run" where
  "after_call ck s = s\<lparr>dl_now := dl_now s + int (ck_latency ck (dl_now s))\<rparr>"

definition logged :: "del_event \<Rightarrow> del_run \<Rightarrow> del_run" where
  "logged e s = s\<lparr>dl_log := dl_log s @ [e]\<rparr>"

section \<open>Hook templates\<close>

text \<open>
  \<^verbatim>\<open>HookTemplates\<close>: the sources per kind, by the plural resource name.  \<open>so_namespaced\<close> is read
  for custom resources only.  The groups of an \<^verbatim>\<open>onDelete\<close> block are stages; groups inside a group
  are never read.
\<close>

record hook_source =
  so_name :: string
  so_namespace :: string
  so_for_each :: "string option"
  so_namespaced :: bool

record hook_stage =
  hs_when :: "condition list"
  hs_or :: "condition list"
  hs_sources :: "string \<Rightarrow> hook_source list"

record hook_templates = hook_stage +
  ht_ordered :: bool
  ht_groups :: "hook_stage list"
  ht_timeout :: "int option"

record deletion_box =
  bx_on_create :: "hook_templates option"
  bx_on_reconcile :: "hook_templates option"
  bx_on_delete :: "hook_templates option"
  bx_runtime :: "runtime_config option"

definition allHooks :: "deletion_box \<Rightarrow> hook_templates option list" where
  "allHooks box = [bx_on_create box, bx_on_reconcile box, bx_on_delete box]"

text \<open>The kinds of \<^verbatim>\<open>expandAllForDelete\<close> in its order, and whether they are namespaced.\<close>

definition delete_kinds :: "(string \<times> bool) list" where
  "delete_kinds =
     [(''deployments'', True), (''statefulsets'', True), (''replicasets'', True), (''pods'', True),
      (''services'', True), (''secrets'', True), (''configmaps'', True), (''serviceaccounts'', True),
      (''roles'', True), (''rolebindings'', True), (''clusterroles'', False), (''clusterrolebindings'', False),
      (''networkpolicies'', True), (''limitranges'', True), (''resourcequotas'', True), (''jobs'', True),
      (''cronjobs'', True), (''ingresses'', True), (''persistentvolumeclaims'', True),
      (''persistentvolumes'', False), (''horizontalpodautoscalers'', True), (''poddisruptionbudgets'', True),
      (''namespaces'', False)]"

record expanded_def =
  ed_gvr :: string
  ed_namespaced :: bool
  ed_names :: "(string \<times> string) list"

definition resolveNames :: "resolver \<Rightarrow> string \<Rightarrow> bool \<Rightarrow> hook_source list \<Rightarrow> expanded_def list" where
  "resolveNames r gvr namespaced sources =
     (let items = filter (\<lambda>(name, _). name \<noteq> [])
        (map (\<lambda>src. (resolved_or_empty r (so_name src),
                     if namespaced then resolved_or_empty r (so_namespace src) else [])) sources)
      in if length items = 0 then []
         else [\<lparr>ed_gvr = gvr, ed_namespaced = namespaced, ed_names = items\<rparr>])"

definition expandAllForDelete :: "resolver \<Rightarrow> ('a hook_stage_scheme) \<Rightarrow> expanded_def list" where
  "expandAllForDelete r t =
     concat (map (\<lambda>(gvr, namespaced). resolveNames r gvr namespaced (hs_sources t gvr)) delete_kinds)"

section \<open>Ordered deletion\<close>

definition orderedDeletePollInterval :: int where "orderedDeletePollInterval = 3 * 1000000000"

definition defaultOrderedDeleteTimeout :: int where "defaultOrderedDeleteTimeout = 300 * 1000000000"

fun submit_items ::
  "cluster \<Rightarrow> string \<Rightarrow> string \<Rightarrow> (string \<times> string) list \<Rightarrow> del_run \<Rightarrow> del_run \<times> (string + del_entry list)" where
  "submit_items ck gvr targetNS [] s = (s, Inr [])"
| "submit_items ck gvr targetNS ((name, ns) # items) s =
     (let itemNS = (if ns \<noteq> [] then ns else targetNS);
          e = \<lparr>oe_gvr = gvr, oe_namespace = itemNS, oe_name = name\<rparr>;
          s1 = after_call ck s
      in case ck_delete ck (dl_now s1) e of
           Refused err \<Rightarrow> (s1, Inl err)
         | _ \<Rightarrow> (case submit_items ck gvr targetNS items (logged (DeleteSent e) s1) of
                   (s2, Inl err) \<Rightarrow> (s2, Inl err)
                 | (s2, Inr pending) \<Rightarrow> (s2, Inr (e # pending))))"

text \<open>\<open>guard\<close> is the namespace guard of the CRD, nil when it has no namespace rules.\<close>

fun submit_defs ::
  "cluster \<Rightarrow> (string \<Rightarrow> bool) option \<Rightarrow> string \<Rightarrow> expanded_def list \<Rightarrow> del_run \<Rightarrow>
   del_run \<times> (string + del_entry list)" where
  "submit_defs ck guard ns [] s = (s, Inr [])"
| "submit_defs ck guard ns (rd # rds) s =
     (let targetNS = (if \<not> ed_namespaced rd then [] else ns) in
      if targetNS \<noteq> [] \<and> (case guard of None \<Rightarrow> False | Some g \<Rightarrow> \<not> g targetNS) then submit_defs ck guard ns rds s
      else case submit_items ck (ed_gvr rd) targetNS (ed_names rd) s of
             (s1, Inl err) \<Rightarrow> (s1, Inl err)
           | (s1, Inr pending) \<Rightarrow>
               (case submit_defs ck guard ns rds s1 of
                  (s2, Inl err) \<Rightarrow> (s2, Inl err)
                | (s2, Inr rest) \<Rightarrow> (s2, Inr (pending @ rest))))"

definition submitGroupDeletion ::
  "cluster \<Rightarrow> resolver \<Rightarrow> (string \<Rightarrow> bool) option \<Rightarrow> string \<Rightarrow> ('a hook_stage_scheme) \<Rightarrow> del_run \<Rightarrow>
   del_run \<times> (string + del_entry list)" where
  "submitGroupDeletion ck r guard ns t s = submit_defs ck guard ns (expandAllForDelete r t) s"

text \<open>One round of \<^verbatim>\<open>Get\<close> calls: the entries that are still there.\<close>

fun poll_round :: "cluster \<Rightarrow> del_entry list \<Rightarrow> del_run \<Rightarrow> del_run \<times> (string + del_entry list)" where
  "poll_round ck [] s = (s, Inr [])"
| "poll_round ck (e # es) s =
     (let s1 = after_call ck s in
      case ck_get ck (dl_now s1) e of
        Found _ \<Rightarrow> (case poll_round ck es s1 of
                      (s2, Inl err) \<Rightarrow> (s2, Inl err) | (s2, Inr rest) \<Rightarrow> (s2, Inr (e # rest)))
      | NotThere \<Rightarrow> poll_round ck es (logged (SeenGone e) s1)
      | LookupFailed err \<Rightarrow> (s1, Inl err))"

datatype wait_error = PollFailed string | ContextDone | TimedOut "del_entry list"

lemma poll_round_time: "dl_now s \<le> dl_now (fst (poll_round ck es s))"
proof (induction es arbitrary: s)
  case (Cons e es)
  from Cons [of "after_call ck s"] Cons [of "logged (SeenGone e) (after_call ck s)"] show ?case
    by (auto simp: after_call_def logged_def Let_def split: lookup.splits prod.splits sum.splits)
qed simp

lemma poll_round_later: "(s1, x) = poll_round ck es s \<Longrightarrow> dl_now s \<le> dl_now s1"
  using poll_round_time [of s ck es] by (metis fst_conv)

text \<open>
  The select of the poll loop: the context wins when it is done before the interval has passed.
\<close>

function waitForDeletionUntil ::
  "cluster \<Rightarrow> del_entry list \<Rightarrow> int \<Rightarrow> del_run \<Rightarrow> del_run \<times> wait_error option" where
  "waitForDeletionUntil ck pending deadline s =
     (if dl_now s < deadline then
        (case poll_round ck pending s of
           (s1, Inl err) \<Rightarrow> (s1, Some (PollFailed err))
         | (s1, Inr remaining) \<Rightarrow>
             (if length remaining = 0 then (s1, None)
              else (let s2 = s1\<lparr>dl_now := dl_now s1 + orderedDeletePollInterval\<rparr> in
                    if ck_cancelled ck (dl_now s2) then (s2, Some ContextDone)
                    else waitForDeletionUntil ck remaining deadline s2)))
      else (s, Some (TimedOut pending)))"
  by pat_completeness auto
termination
  by (relation "measure (\<lambda>(ck, pending, deadline, s). nat (deadline - dl_now s))")
    (auto simp: orderedDeletePollInterval_def dest!: poll_round_later)

datatype delete_error =
    SubmitFailed nat string | WaitFailed nat wait_error | HookFailed string | JobFailed string
  | OwnedFailed string | FinalizerFailed string

text \<open>The conditions of a stage on the data of the resource.\<close>

definition stage_holds :: "goenv \<Rightarrow> gotime \<Rightarrow> resolver \<Rightarrow> ('a hook_stage_scheme) \<Rightarrow> bool" where
  "stage_holds E now r t = EvaluateConditions E now (rs_data r) (hs_when t) (hs_or t) (TemplateEvaluator (Some r))"

fun run_stages ::
  "cluster \<Rightarrow> goenv \<Rightarrow> gotime \<Rightarrow> resolver \<Rightarrow> (string \<Rightarrow> bool) option \<Rightarrow> string \<Rightarrow> int \<Rightarrow> nat \<Rightarrow> hook_stage list \<Rightarrow>
   del_run \<Rightarrow> del_run \<times> delete_error option" where
  "run_stages ck E now r guard ns deadline i [] s = (s, None)"
| "run_stages ck E now r guard ns deadline i (stage # stages) s =
     (if \<not> stage_holds E now r stage then run_stages ck E now r guard ns deadline (i + 1) stages s
      else case submitGroupDeletion ck r guard ns stage s of
             (s1, Inl err) \<Rightarrow> (s1, Some (SubmitFailed (i + 1) err))
           | (s1, Inr pending) \<Rightarrow>
               (if length pending = 0 then run_stages ck E now r guard ns deadline (i + 1) stages s1
                else case waitForDeletionUntil ck pending deadline s1 of
                       (s2, Some err) \<Rightarrow> (s2, Some (WaitFailed (i + 1) err))
                     | (s2, None) \<Rightarrow> run_stages ck E now r guard ns deadline (i + 1) stages s2))"

definition stages_of :: "hook_templates \<Rightarrow> hook_stage list" where
  "stages_of t = (if length (ht_groups t) = 0 then [hook_stage.truncate t] else ht_groups t)"

definition ordered_timeout :: "hook_templates \<Rightarrow> int" where
  "ordered_timeout t =
     (case ht_timeout t of
        None \<Rightarrow> defaultOrderedDeleteTimeout
      | Some d \<Rightarrow> (if d > 0 then d else defaultOrderedDeleteTimeout))"

definition runOrderedDelete ::
  "cluster \<Rightarrow> goenv \<Rightarrow> gotime \<Rightarrow> resolver \<Rightarrow> (string \<Rightarrow> bool) option \<Rightarrow> string \<Rightarrow> hook_templates \<Rightarrow>
   del_run \<Rightarrow> del_run \<times> delete_error option" where
  "runOrderedDelete ck E now r guard ns t s =
     run_stages ck E now r guard ns (dl_now s + ordered_timeout t) 0 (stages_of t) s"

section \<open>Cluster-scoped resources\<close>

definition InrunOwner :: string where "InrunOwner = ''inrun-owner''"

definition EffectiveOwnerKey :: "string \<Rightarrow> annotations option \<Rightarrow> string" where
  "EffectiveOwnerKey ownerName annotations =
     (case annotations of
        None \<Rightarrow> ownerName
      | Some ann \<Rightarrow>
          (if ann_entry ann ''inrun.dev/serve-alias'' \<noteq> [] then ownerName @ ''.'' @ ann_entry ann ''inrun.dev/serve-alias''
           else if ann_entry ann ''inrun.dev/serve-target'' \<noteq> []
           then ownerName @ ''.'' @ ann_entry ann ''inrun.dev/serve-target''
           else ownerName))"

text \<open>\<^verbatim>\<open>DeleteIfOwned\<close>, which every resource package has in this form.\<close>

definition DeleteIfOwned ::
  "cluster \<Rightarrow> string \<Rightarrow> string \<Rightarrow> string \<Rightarrow> del_run \<Rightarrow> del_run \<times> string option" where
  "DeleteIfOwned ck owner kind name s =
     (let e = \<lparr>oe_gvr = kind, oe_namespace = [], oe_name = name\<rparr>; s1 = after_call ck s in
      case ck_get ck (dl_now s1) e of
        NotThere \<Rightarrow> (s1, None)
      | LookupFailed err \<Rightarrow> (s1, Some err)
      | Found ls \<Rightarrow>
          (if go_entry ls InrunOwner \<noteq> owner then (s1, None)
           else (let s2 = after_call ck s1 in
                 case ck_delete ck (dl_now s2) e of
                   Accepted \<Rightarrow> (logged (DeleteSent e) s2, None)
                 | Missing \<Rightarrow> (s2, Some ''not found'')
                 | Refused err \<Rightarrow> (s2, Some err))))"

text \<open>
  \<^verbatim>\<open>expandForEach\<close> on the fields that matter here; \<open>items\<close> gives the resolver of each item of a
  list field.
\<close>

definition expandForEach ::
  "(resolver \<Rightarrow> string \<Rightarrow> resolver list) \<Rightarrow> resolver \<Rightarrow> hook_source list \<Rightarrow> hook_source list" where
  "expandForEach items r srcs =
     (if \<not> list_ex (\<lambda>src. so_for_each src \<noteq> None) srcs then srcs
      else concat (map (\<lambda>src. case so_for_each src of
          None \<Rightarrow> [src]
        | Some f \<Rightarrow> map (\<lambda>ir. src\<lparr>so_for_each := None, so_name := resolved_or_empty ir (so_name src)\<rparr>) (items r f)) srcs))"

fun delete_owned_loop ::
  "cluster \<Rightarrow> string \<Rightarrow> string \<Rightarrow> resolver \<Rightarrow> hook_source list \<Rightarrow> del_run \<Rightarrow> del_run \<times> string option" where
  "delete_owned_loop ck owner kind r [] s = (s, None)"
| "delete_owned_loop ck owner kind r (src # srcs) s =
     (if kind = ''customresources'' \<and> so_namespaced src then delete_owned_loop ck owner kind r srcs s
      else (let name = resolved_or_empty r (so_name src) in
            if name = [] then delete_owned_loop ck owner kind r srcs s
            else case DeleteIfOwned ck owner kind name s of
                   (s1, Some err) \<Rightarrow> (s1, Some err)
                 | (s1, None) \<Rightarrow> delete_owned_loop ck owner kind r srcs s1))"

definition owned_sources ::
  "(resolver \<Rightarrow> string \<Rightarrow> resolver list) \<Rightarrow> resolver \<Rightarrow> deletion_box \<Rightarrow> string \<Rightarrow> hook_source list" where
  "owned_sources items r box kind =
     expandForEach items r
       (concat (map (\<lambda>h. case h of None \<Rightarrow> [] | Some t \<Rightarrow> hs_sources t kind) (allHooks box)))"

definition owned_kinds :: "string list" where
  "owned_kinds = [''namespaces'', ''clusterroles'', ''clusterrolebindings'', ''persistentvolumes'', ''customresources'']"

fun delete_owned_kinds ::
  "cluster \<Rightarrow> string \<Rightarrow> (resolver \<Rightarrow> string \<Rightarrow> resolver list) \<Rightarrow> resolver \<Rightarrow> deletion_box \<Rightarrow> string list \<Rightarrow>
   del_run \<Rightarrow> del_run \<times> string option" where
  "delete_owned_kinds ck owner items r box [] s = (s, None)"
| "delete_owned_kinds ck owner items r box (kind # kinds) s =
     (case delete_owned_loop ck owner kind r (owned_sources items r box kind) s of
        (s1, Some err) \<Rightarrow> (s1, Some err)
      | (s1, None) \<Rightarrow> delete_owned_kinds ck owner items r box kinds s1)"

definition DeleteOwnedClusterScopedResources ::
  "cluster \<Rightarrow> string \<Rightarrow> (resolver \<Rightarrow> string \<Rightarrow> resolver list) \<Rightarrow> resolver \<Rightarrow> deletion_box \<Rightarrow>
   del_run \<Rightarrow> del_run \<times> string option" where
  "DeleteOwnedClusterScopedResources ck owner items r box s = delete_owned_kinds ck owner items r box owned_kinds s"

section \<open>The generic reconciler\<close>

type_synonym action = "del_run \<Rightarrow> del_run \<times> string option"

record object_hooks =
  oh_on_reconcile :: "action option"
  oh_on_delete :: "action option"

text \<open>
  The reconciler of one CRD.  \<open>gr_jobs\<close> runs the jobs of an unordered deletion, \<open>gr_templates\<close>
  the \<^verbatim>\<open>onCreate\<close> and \<^verbatim>\<open>onReconcile\<close> templates, \<open>gr_surface\<close> the clean-up of a previous serve surface.
\<close>

record generic_reconciler =
  gr_hooks :: object_hooks
  gr_target_hooks :: "string \<Rightarrow> object_hooks option"
  gr_hooks_first :: bool
  gr_guard :: "(string \<Rightarrow> bool) option"
  gr_items :: "resolver \<Rightarrow> string \<Rightarrow> resolver list"
  gr_jobs :: "hook_templates \<Rightarrow> action"
  gr_templates :: action
  gr_surface :: action

definition hooksFor :: "generic_reconciler \<Rightarrow> string \<Rightarrow> object_hooks" where
  "hooksFor r target =
     (if target \<noteq> [] then (case gr_target_hooks r target of Some h \<Rightarrow> h | None \<Rightarrow> gr_hooks r)
      else gr_hooks r)"

definition namespaceGuardFunc :: "string list \<Rightarrow> string list \<Rightarrow> (string \<Rightarrow> bool) option" where
  "namespaceGuardFunc restricted allowed =
     (if length restricted = 0 \<and> length allowed = 0 then None
      else Some (\<lambda>ns. ng_allowed (CheckNamespace ns restricted allowed)))"

text \<open>The resource that is reconciled: name and namespace beside what maintenance sees of it.\<close>

record subject =
  sj_name :: string
  sj_namespace :: string
  sj_object :: maintained
  sj_box :: deletion_box
  sj_resolver :: resolver
  sj_target :: string

definition owner_key :: "subject \<Rightarrow> string" where
  "owner_key o' = EffectiveOwnerKey (sj_name o') (cr_annotations (mo_object (sj_object o')))"

definition runTemplateOnDelete ::
  "generic_reconciler \<Rightarrow> cluster \<Rightarrow> goenv \<Rightarrow> gotime \<Rightarrow> subject \<Rightarrow> del_run \<Rightarrow> del_run \<times> delete_error option" where
  "runTemplateOnDelete rec ck E now o' s =
     (let r = sj_resolver o'; box = sj_box o';
          (s1, err) =
            (case bx_on_delete box of
               None \<Rightarrow> (s, None)
             | Some t \<Rightarrow>
                 (if stage_holds E now r t
                  then (if ht_ordered t then runOrderedDelete ck E now r (gr_guard rec) (sj_namespace o') t s
                        else (case gr_jobs rec t s of (s1, e) \<Rightarrow> (s1, map_option JobFailed e)))
                  else (s, None)))
      in if err \<noteq> None then (s1, err)
         else (case DeleteOwnedClusterScopedResources ck (owner_key o') (gr_items rec) r box s1 of
                 (s2, e) \<Rightarrow> (s2, map_option OwnedFailed e)))"

definition patchStripFinalizers ::
  "kube_api \<Rightarrow> runtime_config option \<Rightarrow> maintained \<Rightarrow> maintained \<times> string option" where
  "patchStripFinalizers api rt m =
     (if length (mo_finalizers m) = 0 then (m, None)
      else (let (fs, updated) = StripFinalizers (mo_finalizers m) (EffectiveFinalizers rt);
                m1 = m\<lparr>mo_finalizers := fs\<rparr>
            in if \<not> updated then (m1, None) else PatchFinalizers api fs m1))"

text \<open>\<^verbatim>\<open>handleDeletion\<close>: the resource afterwards, the run and the error.\<close>

definition handleDeletion ::
  "generic_reconciler \<Rightarrow> kube_api \<Rightarrow> cluster \<Rightarrow> goenv \<Rightarrow> gotime \<Rightarrow> object_hooks \<Rightarrow> subject \<Rightarrow> del_run \<Rightarrow>
   maintained \<times> del_run \<times> delete_error option" where
  "handleDeletion rec api ck E now hooks o' s =
     (let (s1, err) =
            (case oh_on_delete hooks of
               Some hook \<Rightarrow> (case hook s of (s1, e) \<Rightarrow> (s1, map_option HookFailed e))
             | None \<Rightarrow>
                 (if bx_on_delete (sj_box o') \<noteq> None then runTemplateOnDelete rec ck E now o' s else (s, None)))
      in if err \<noteq> None then (sj_object o', s1, err)
         else
           (let (s2, err2) =
                  (if bx_on_delete (sj_box o') = None
                   then (case DeleteOwnedClusterScopedResources ck (owner_key o') (gr_items rec)
                                (sj_resolver o') (sj_box o') s1 of
                           (s2, e) \<Rightarrow> (s2, map_option OwnedFailed e))
                   else (s1, None))
            in if err2 \<noteq> None then (sj_object o', s2, err2)
               else (case patchStripFinalizers api (bx_runtime (sj_box o')) (sj_object o') of
                       (m, e) \<Rightarrow> (m, s2, map_option FinalizerFailed e))))"

definition reconcileImpl ::
  "generic_reconciler \<Rightarrow> object_hooks \<Rightarrow> deletion_box \<Rightarrow> del_run \<Rightarrow> del_run \<times> string option" where
  "reconcileImpl rec hooks box s =
     (let hasTemplates = (bx_on_create box \<noteq> None \<or> bx_on_reconcile box \<noteq> None) in
      case oh_on_reconcile hooks of
        Some hook \<Rightarrow>
          (let (s1, e1) = (if \<not> gr_hooks_first rec \<and> hasTemplates then gr_templates rec s else (s, None));
               (s2, e2) = (if e1 = None then hook s1 else (s1, e1))
           in if e2 = None \<and> gr_hooks_first rec \<and> hasTemplates then gr_templates rec s2 else (s2, e2))
      | None \<Rightarrow> (if hasTemplates then gr_templates rec s else (s, None)))"

datatype reconcile_error =
    ContextError | NotPrepared | NotConverted string | ReconcileFailed string | DeletionFailed delete_error

text \<open>\<open>prepared\<close> is \<^verbatim>\<open>req.Prepared\<close> after the conversion to the typed object, which may fail.\<close>

definition Reconcile ::
  "generic_reconciler \<Rightarrow> kube_api \<Rightarrow> cluster \<Rightarrow> goenv \<Rightarrow> gotime \<Rightarrow> (string + subject) option \<Rightarrow> del_run \<Rightarrow>
   maintained option \<times> del_run \<times> reconcile_error option" where
  "Reconcile rec api ck E now prepared s =
     (if ck_cancelled ck (dl_now s) then (None, s, Some ContextError)
      else case prepared of
        None \<Rightarrow> (None, s, Some NotPrepared)
      | Some (Inl e) \<Rightarrow> (None, s, Some (NotConverted e))
      | Some (Inr o') \<Rightarrow>
          (let hooks = hooksFor rec (sj_target o') in
           if cr_deleting (mo_object (sj_object o')) then
             (case handleDeletion rec api ck E now hooks o' s of
                (m, s1, err) \<Rightarrow> (Some m, s1, map_option DeletionFailed err))
           else (case reconcileImpl rec hooks (sj_box o') s of
                   (s1, Some err) \<Rightarrow> (Some (sj_object o'), s1, Some (ReconcileFailed err))
                 | (s1, None) \<Rightarrow>
                     (case gr_surface rec s1 of
                        (s2, err) \<Rightarrow> (Some (sj_object o'), s2, map_option ReconcileFailed err)))))"

section \<open>Lemmas: what a run logs and how long it takes\<close>

declare waitForDeletionUntil.simps [simp del]

lemma after_call_simps [simp]:
  "dl_log (after_call ck s) = dl_log s" "dl_now (after_call ck s) = dl_now s + int (ck_latency ck (dl_now s))"
  by (simp_all add: after_call_def)

lemma logged_simps [simp]: "dl_log (logged e s) = dl_log s @ [e]" "dl_now (logged e s) = dl_now s"
  by (simp_all add: logged_def)

definition item_entry :: "string \<Rightarrow> string \<Rightarrow> string \<times> string \<Rightarrow> del_entry" where
  "item_entry gvr targetNS = (\<lambda>(name, ns).
     \<lparr>oe_gvr = gvr, oe_namespace = (if ns \<noteq> [] then ns else targetNS), oe_name = name\<rparr>)"

definition def_entries :: "(string \<Rightarrow> bool) option \<Rightarrow> string \<Rightarrow> expanded_def \<Rightarrow> del_entry list" where
  "def_entries guard ns rd =
     (let targetNS = (if \<not> ed_namespaced rd then [] else ns) in
      if targetNS \<noteq> [] \<and> (case guard of None \<Rightarrow> False | Some g \<Rightarrow> \<not> g targetNS) then []
      else map (item_entry (ed_gvr rd) targetNS) (ed_names rd))"

text \<open>The resources of a stage.\<close>

definition stage_entries ::
  "resolver \<Rightarrow> (string \<Rightarrow> bool) option \<Rightarrow> string \<Rightarrow> ('a hook_stage_scheme) \<Rightarrow> del_entry list" where
  "stage_entries r guard ns t = concat (map (def_entries guard ns) (expandAllForDelete r t))"

text \<open>Whatever happens, the deletes that were sent are the first ones that were due.\<close>

definition sent_log :: "del_entry list \<Rightarrow> del_run \<Rightarrow> del_run \<times> (string + del_entry list) \<Rightarrow> bool" where
  "sent_log es s res \<longleftrightarrow>
     (case res of
        (s', Inr pending) \<Rightarrow> pending = es \<and> dl_log s' = dl_log s @ map DeleteSent es
      | (s', Inl _) \<Rightarrow> \<exists>sent. prefix sent es \<and> dl_log s' = dl_log s @ map DeleteSent sent)"

lemma submit_items_log: "sent_log (map (item_entry gvr tns) items) s (submit_items ck gvr tns items s)"
proof (induction items arbitrary: s)
  case (Cons item items)
  obtain name ns where item: "item = (name, ns)" by force
  let ?e = "item_entry gvr tns item" and ?s1 = "after_call ck s"
  show ?case
  proof (cases "ck_delete ck (dl_now ?s1) ?e")
    case (Refused err)
    then have "submit_items ck gvr tns (item # items) s = (?s1, Inl err)"
      by (simp add: item item_entry_def Let_def)
    then show ?thesis by (auto simp: sent_log_def intro: exI [of _ "[]"])
  next
    case Accepted
    show ?thesis
      using Cons [of "logged (DeleteSent ?e) ?s1"] Accepted
      by (fastforce simp: sent_log_def item item_entry_def Let_def split: prod.splits sum.splits intro: exI [of _ "?e # _"])
  next
    case Missing
    show ?thesis
      using Cons [of "logged (DeleteSent ?e) ?s1"] Missing
      by (fastforce simp: sent_log_def item item_entry_def Let_def split: prod.splits sum.splits intro: exI [of _ "?e # _"])
  qed
qed (simp add: sent_log_def)

lemma submit_defs_log: "sent_log (concat (map (def_entries guard ns) rds)) s (submit_defs ck guard ns rds s)"
proof (induction rds arbitrary: s)
  case (Cons rd rds)
  let ?tns = "if \<not> ed_namespaced rd then [] else ns" and ?rest = "concat (map (def_entries guard ns) rds)"
  show ?case
  proof (cases "?tns \<noteq> [] \<and> (case guard of None \<Rightarrow> False | Some g \<Rightarrow> \<not> g ?tns)")
    case True
    then have "def_entries guard ns rd = []" unfolding def_entries_def Let_def by (rule if_P)
    moreover have "submit_defs ck guard ns (rd # rds) s = submit_defs ck guard ns rds s"
      using True unfolding submit_defs.simps Let_def by (rule if_P)
    ultimately show ?thesis using Cons [of s] by simp
  next
    case False
    then have skip: "submit_defs ck guard ns (rd # rds) s =
        (case submit_items ck (ed_gvr rd) ?tns (ed_names rd) s of
           (s1, Inl err) \<Rightarrow> (s1, Inl err)
         | (s1, Inr pending) \<Rightarrow> (case submit_defs ck guard ns rds s1 of
              (s2, Inl err) \<Rightarrow> (s2, Inl err) | (s2, Inr rest) \<Rightarrow> (s2, Inr (pending @ rest))))"
      by (simp only: submit_defs.simps Let_def if_False)
    have es: "def_entries guard ns rd = map (item_entry (ed_gvr rd) ?tns) (ed_names rd)"
      using False by (simp only: def_entries_def Let_def if_False)
    obtain s1 x where sub: "submit_items ck (ed_gvr rd) ?tns (ed_names rd) s = (s1, x)" by (metis surj_pair)
    have first: "sent_log (def_entries guard ns rd) s (s1, x)"
      unfolding es sub [symmetric] by (rule submit_items_log)
    obtain s2 y where rest: "submit_defs ck guard ns rds s1 = (s2, y)" by (metis surj_pair)
    have second: "sent_log ?rest s1 (s2, y)" using Cons [of s1] by (simp add: rest)
    show ?thesis
    proof (cases x)
      case (Inl err)
      with first show ?thesis
        unfolding skip sub by (auto simp: sent_log_def intro: prefix_prefix)
    next
      case (Inr pending)
      then have p: "pending = def_entries guard ns rd" "dl_log s1 = dl_log s @ map DeleteSent pending"
        using first by (auto simp: sent_log_def)
      show ?thesis
      proof (cases y)
        case (Inl err)
        with second obtain sent where "prefix sent ?rest" "dl_log s2 = dl_log s1 @ map DeleteSent sent"
          by (auto simp: sent_log_def)
        then show ?thesis
          unfolding skip sub by (auto simp: Inr Inl rest p sent_log_def intro!: exI [of _ "def_entries guard ns rd @ sent"])
      next
        case (Inr rest')
        with second show ?thesis
          unfolding skip sub by (auto simp: \<open>x = Inr pending\<close> rest p sent_log_def)
      qed
    qed
  qed
qed (simp add: sent_log_def)

lemma submit_group_log: "sent_log (stage_entries r guard ns t) s (submitGroupDeletion ck r guard ns t s)"
  by (simp add: submitGroupDeletion_def stage_entries_def submit_defs_log)

lemma poll_round_log:
  "case poll_round ck es s of (s', x) \<Rightarrow> \<exists>gone. set gone \<subseteq> set es \<and> dl_log s' = dl_log s @ map SeenGone gone \<and>
     (case x of Inl _ \<Rightarrow> True | Inr rest \<Rightarrow> set gone \<union> set rest = set es \<and> length rest \<le> length es)"
proof (induction es arbitrary: s)
  case (Cons e es)
  let ?s1 = "after_call ck s"
  show ?case
  proof (cases "ck_get ck (dl_now ?s1) e")
    case (LookupFailed err)
    then show ?thesis by (simp add: Let_def)
  next
    case (Found ls)
    obtain s2 x where p: "poll_round ck es ?s1 = (s2, x)" by (metis surj_pair)
    obtain gone where "set gone \<subseteq> set es" "dl_log s2 = dl_log s @ map SeenGone gone"
      "case x of Inl _ \<Rightarrow> True | Inr rest \<Rightarrow> set gone \<union> set rest = set es \<and> length rest \<le> length es"
      using Cons [of ?s1] by (auto simp: p)
    then show ?thesis
      using Found p by (auto simp: Let_def split: sum.splits intro!: exI [of _ gone])
  next
    case NotThere
    obtain s2 x where p: "poll_round ck es (logged (SeenGone e) ?s1) = (s2, x)" by (metis surj_pair)
    obtain gone where "set gone \<subseteq> set es" "dl_log s2 = dl_log s @ SeenGone e # map SeenGone gone"
      "case x of Inl _ \<Rightarrow> True | Inr rest \<Rightarrow> set gone \<union> set rest = set es \<and> length rest \<le> length es"
      using Cons [of "logged (SeenGone e) ?s1"] by (auto simp: p)
    then show ?thesis
      using NotThere p by (auto simp: Let_def split: sum.splits intro!: exI [of _ "e # gone"])
  qed
qed simp

lemma wait_log:
  "case waitForDeletionUntil ck es deadline s of (s', err) \<Rightarrow> \<exists>gone. set gone \<subseteq> set es \<and>
     dl_log s' = dl_log s @ map SeenGone gone \<and> (err = None \<longrightarrow> set gone = set es)"
proof (induction ck es deadline s rule: waitForDeletionUntil.induct)
  case (1 ck es deadline s)
  note IH = 1
  show ?case
  proof (cases "dl_now s < deadline")
    case False
    then show ?thesis by (simp add: waitForDeletionUntil.simps [of ck es deadline s])
  next
    case True
    obtain s1 x where round: "poll_round ck es s = (s1, x)" by (metis surj_pair)
    obtain gone where gone: "set gone \<subseteq> set es" "dl_log s1 = dl_log s @ map SeenGone gone"
      "case x of Inl _ \<Rightarrow> True | Inr rest \<Rightarrow> set gone \<union> set rest = set es \<and> length rest \<le> length es"
      using poll_round_log [where ck = ck and es = es and s = s] by (auto simp: round)
    show ?thesis
    proof (cases x)
      case (Inl err)
      then show ?thesis using True round gone by (auto simp: waitForDeletionUntil.simps [of ck es deadline s])
    next
      case (Inr rest)
      let ?s2 = "s1\<lparr>dl_now := dl_now s1 + orderedDeletePollInterval\<rparr>"
      consider "rest = []" | "rest \<noteq> []" "ck_cancelled ck (dl_now ?s2)" | "rest \<noteq> []" "\<not> ck_cancelled ck (dl_now ?s2)"
        by blast
      then show ?thesis
      proof cases
        case 3
        obtain s3 err where w: "waitForDeletionUntil ck rest deadline ?s2 = (s3, err)" by (metis surj_pair)
        obtain more where more: "set more \<subseteq> set rest" "dl_log s3 = dl_log s1 @ map SeenGone more"
          "err = None \<longrightarrow> set more = set rest"
          using IH [OF True round [symmetric] Inr _ refl] 3 w by auto
        have sets: "set (gone @ more) \<subseteq> set es" "err = None \<longrightarrow> set (gone @ more) = set es"
          using gone(1,3) more(1,3) Inr by (simp; blast)+
        have "waitForDeletionUntil ck es deadline s = (s3, err)"
          using True round Inr 3 w by (simp add: waitForDeletionUntil.simps [of ck es deadline s] Let_def)
        then show ?thesis
          using sets gone(2) more(2) by (auto intro!: exI [of _ "gone @ more"] simp del: set_append)
      qed (use True round gone Inr in \<open>auto simp: waitForDeletionUntil.simps [of ck es deadline s] Let_def\<close>)
    qed
  qed
qed

text \<open>Time: a call takes at most \<open>L\<close>, a round a call per entry, a wait a round after its deadline.\<close>

definition latency_bound :: "cluster \<Rightarrow> nat \<Rightarrow> bool" where
  "latency_bound ck L \<longleftrightarrow> (\<forall>t. ck_latency ck t \<le> L)"

lemma after_call_time: "latency_bound ck L \<Longrightarrow> dl_now (after_call ck s) \<le> dl_now s + int L"
  by (simp add: latency_bound_def)

lemma poll_round_bound:
  "latency_bound ck L \<Longrightarrow> dl_now (fst (poll_round ck es s)) \<le> dl_now s + int L * int (length es)"
proof (induction es arbitrary: s)
  case (Cons e es)
  have call: "dl_now (after_call ck s) \<le> dl_now s + int L" by (rule after_call_time [OF Cons.prems])
  define b where "b = int L * int (length es)"
  have "0 \<le> b" by (simp add: b_def)
  moreover have "dl_now (fst (poll_round ck es (after_call ck s))) \<le> dl_now s + int L + b"
    "dl_now (fst (poll_round ck es (logged (SeenGone e) (after_call ck s)))) \<le> dl_now s + int L + b"
    using Cons.IH [OF Cons.prems, of "after_call ck s"] call
      Cons.IH [OF Cons.prems, of "logged (SeenGone e) (after_call ck s)"] by (simp_all add: b_def)
  ultimately have "dl_now (fst (poll_round ck (e # es) s)) \<le> dl_now s + int L + b"
    using call by (auto simp: Let_def simp del: after_call_simps split: lookup.splits prod.splits sum.splits)
  then show ?case by (simp add: b_def algebra_simps)
qed simp

lemma wait_bound:
  "latency_bound ck L \<Longrightarrow> dl_now (fst (waitForDeletionUntil ck es deadline s)) \<le>
     max (dl_now s) (deadline + orderedDeletePollInterval + int L * int (length es))"
proof (induction ck es deadline s rule: waitForDeletionUntil.induct)
  case (1 ck es deadline s)
  let ?bound = "deadline + orderedDeletePollInterval + int L * int (length es)"
  have pos: "0 < orderedDeletePollInterval" by (simp add: orderedDeletePollInterval_def)
  show ?case
  proof (cases "dl_now s < deadline")
    case False
    then show ?thesis by (simp add: waitForDeletionUntil.simps [of ck es deadline s])
  next
    case True
    obtain s1 x where round: "poll_round ck es s = (s1, x)" by (metis surj_pair)
    have time: "dl_now s1 + orderedDeletePollInterval \<le> ?bound"
      using poll_round_bound [OF 1(2), of es s] True by (simp add: round)
    show ?thesis
    proof (cases x)
      case (Inl err)
      then show ?thesis using True round time pos by (simp add: waitForDeletionUntil.simps [of ck es deadline s])
    next
      case (Inr rest)
      let ?s2 = "s1\<lparr>dl_now := dl_now s1 + orderedDeletePollInterval\<rparr>"
      have "length rest \<le> length es"
        using poll_round_log [where ck = ck and es = es and s = s] by (auto simp: round Inr)
      then have "int L * int (length rest) \<le> int L * int (length es)" by (intro mult_left_mono) simp_all
      moreover have "dl_now (fst (waitForDeletionUntil ck rest deadline ?s2)) \<le>
          max (dl_now ?s2) (deadline + orderedDeletePollInterval + int L * int (length rest))"
        if "rest \<noteq> []" "\<not> ck_cancelled ck (dl_now ?s2)"
        using 1(1) [OF True round [symmetric] Inr _ refl] 1(2) that by simp
      ultimately show ?thesis
        using True round Inr time pos
        by (auto simp: waitForDeletionUntil.simps [of ck es deadline s] Let_def)
    qed
  qed
qed

lemma submit_items_bound:
  "latency_bound ck L \<Longrightarrow> dl_now (fst (submit_items ck gvr tns items s)) \<le> dl_now s + int L * int (length items)"
proof (induction items arbitrary: s)
  case (Cons item items)
  obtain name ns where item: "item = (name, ns)" by force
  let ?s1 = "logged (DeleteSent (item_entry gvr tns item)) (after_call ck s)"
  have call: "dl_now (after_call ck s) \<le> dl_now s + int L" by (rule after_call_time [OF Cons.prems])
  define b where "b = int L * int (length items)"
  have "0 \<le> b" by (simp add: b_def)
  moreover have "dl_now (fst (submit_items ck gvr tns items ?s1)) \<le> dl_now s + int L + b"
    using Cons.IH [OF Cons.prems, of ?s1] call by (simp add: b_def)
  moreover have "fst (submit_items ck gvr tns (item # items) s) = after_call ck s \<or>
      fst (submit_items ck gvr tns (item # items) s) = fst (submit_items ck gvr tns items ?s1)"
    by (cases "ck_delete ck (dl_now (after_call ck s)) (item_entry gvr tns item)")
      (simp_all add: item item_entry_def Let_def split: prod.splits sum.splits)
  ultimately have "dl_now (fst (submit_items ck gvr tns (item # items) s)) \<le> dl_now s + int L + b"
    using call by auto
  then show ?case by (simp add: b_def algebra_simps)
qed simp

lemma submit_defs_bound:
  "latency_bound ck L \<Longrightarrow> dl_now (fst (submit_defs ck guard ns rds s)) \<le>
     dl_now s + int L * int (length (concat (map (def_entries guard ns) rds)))"
proof (induction rds arbitrary: s)
  case (Cons rd rds)
  let ?tns = "if \<not> ed_namespaced rd then [] else ns"
  let ?rest = "int L * int (length (concat (map (def_entries guard ns) rds)))"
  have pos: "0 \<le> ?rest" by simp
  show ?case
  proof (cases "?tns \<noteq> [] \<and> (case guard of None \<Rightarrow> False | Some g \<Rightarrow> \<not> g ?tns)")
    case True
    then have "def_entries guard ns rd = []" unfolding def_entries_def Let_def by (rule if_P)
    moreover have "submit_defs ck guard ns (rd # rds) s = submit_defs ck guard ns rds s"
      using True unfolding submit_defs.simps Let_def by (rule if_P)
    ultimately show ?thesis using Cons.IH [OF Cons.prems, of s] by simp
  next
    case False
    then have es: "def_entries guard ns rd = map (item_entry (ed_gvr rd) ?tns) (ed_names rd)"
      unfolding def_entries_def Let_def by (rule if_not_P)
    obtain s1 x where sub: "submit_items ck (ed_gvr rd) ?tns (ed_names rd) s = (s1, x)" by (metis surj_pair)
    have first: "dl_now s1 \<le> dl_now s + int L * int (length (def_entries guard ns rd))"
      using submit_items_bound [OF Cons.prems, of "ed_gvr rd" ?tns "ed_names rd" s] by (simp add: sub es)
    have "submit_defs ck guard ns (rd # rds) s =
        (case (s1, x) of
           (s1, Inl err) \<Rightarrow> (s1, Inl err)
         | (s1, Inr pending) \<Rightarrow> (case submit_defs ck guard ns rds s1 of
              (s2, Inl err) \<Rightarrow> (s2, Inl err) | (s2, Inr rest) \<Rightarrow> (s2, Inr (pending @ rest))))"
      using False unfolding submit_defs.simps Let_def sub by (rule if_not_P)
    then have "dl_now (fst (submit_defs ck guard ns (rd # rds) s)) \<le> dl_now s1 + ?rest"
      using Cons.IH [OF Cons.prems, of s1] pos by (auto split: sum.splits prod.splits)
    with first show ?thesis by (simp add: algebra_simps)
  qed
qed simp

section \<open>Lemmas: the stages\<close>

text \<open>
  The log of stages that are worked off in order: each sends its deletes and sees all its
  resources gone before the next begins; the run may stop in the middle of one.
\<close>

inductive staged :: "del_entry list list \<Rightarrow> del_event list \<Rightarrow> bool \<Rightarrow> bool" where
  finished: "staged [] [] True"
| complete: "set gone = set es \<Longrightarrow> staged ess evs fin \<Longrightarrow>
    staged (es # ess) (map DeleteSent es @ map SeenGone gone @ evs) fin"
| stopped: "prefix sent es \<Longrightarrow> set gone \<subseteq> set es \<Longrightarrow>
    staged (es # ess) (map DeleteSent sent @ map SeenGone gone) False"

lemma staged_completeI:
  "staged ess evs fin \<Longrightarrow> set gone = set es \<Longrightarrow> l = map DeleteSent es @ map SeenGone gone @ evs \<Longrightarrow>
   staged (es # ess) l fin"
  by (simp add: staged.complete)

lemma staged_stoppedI:
  "prefix sent es \<Longrightarrow> set gone \<subseteq> set es \<Longrightarrow> l = map DeleteSent sent @ map SeenGone gone \<Longrightarrow>
   staged (es # ess) l False"
  by (simp add: staged.stopped)

definition live_entries ::
  "goenv \<Rightarrow> gotime \<Rightarrow> resolver \<Rightarrow> (string \<Rightarrow> bool) option \<Rightarrow> string \<Rightarrow> hook_stage list \<Rightarrow> del_entry list list" where
  "live_entries E now r guard ns stages = map (stage_entries r guard ns) (filter (stage_holds E now r) stages)"

lemma run_stages_log:
  "case run_stages ck E now r guard ns deadline i stages s of (s', err) \<Rightarrow>
     \<exists>evs. dl_log s' = dl_log s @ evs \<and> staged (live_entries E now r guard ns stages) evs (err = None)"
proof (induction stages arbitrary: i s)
  case Nil
  then show ?case by (simp add: live_entries_def staged.finished)
next
  case (Cons stage stages)
  let ?es = "stage_entries r guard ns stage" and ?rest = "live_entries E now r guard ns stages"
  let ?go = "\<lambda>s. run_stages ck E now r guard ns deadline (i + 1) stages s"
  show ?case
  proof (cases "stage_holds E now r stage")
    case False
    then show ?thesis using Cons [of s "i + 1"] by (simp add: live_entries_def)
  next
    case True
    then have live: "live_entries E now r guard ns (stage # stages) = ?es # ?rest" by (simp add: live_entries_def)
    obtain s1 x where sub: "submitGroupDeletion ck r guard ns stage s = (s1, x)" by (metis surj_pair)
    have sent: "sent_log ?es s (s1, x)" using submit_group_log [of r guard ns stage s ck] by (simp add: sub)
    show ?thesis
    proof (cases x)
      case (Inl err)
      then show ?thesis
        using sent True sub by (auto simp: live sent_log_def intro!: staged_stoppedI [where gone = "[]"])
    next
      case (Inr pending)
      then have p: "pending = ?es" "dl_log s1 = dl_log s @ map DeleteSent ?es"
        using sent by (auto simp: sent_log_def)
      show ?thesis
      proof (cases "?es = []")
        case empty: True
        obtain s2 err evs where rest: "?go s1 = (s2, err)" "dl_log s2 = dl_log s1 @ evs" "staged ?rest evs (err = None)"
          using Cons [of s1 "i + 1"] by auto
        have "staged (?es # ?rest) evs (err = None)"
          by (rule staged_completeI [OF rest(3), where gone = "[]"]) (simp_all add: empty)
        then show ?thesis using True sub Inr p rest(1,2) empty by (simp add: live)
      next
        case False
        obtain s2 werr where wait: "waitForDeletionUntil ck ?es deadline s1 = (s2, werr)" by (metis surj_pair)
        obtain gone where gone: "set gone \<subseteq> set ?es" "dl_log s2 = dl_log s1 @ map SeenGone gone"
          "werr = None \<longrightarrow> set gone = set ?es"
          using wait_log [where ck = ck and es = ?es and deadline = deadline and s = s1] by (auto simp: wait)
        show ?thesis
        proof (cases werr)
          case (Some err)
          have "staged (?es # ?rest) (map DeleteSent ?es @ map SeenGone gone) False"
            by (rule staged_stoppedI [OF _ gone(1) refl]) simp
          then show ?thesis using True sub Inr p False wait Some gone(2) by (simp add: live)
        next
          case None
          obtain s3 err evs where rest: "?go s2 = (s3, err)" "dl_log s3 = dl_log s2 @ evs" "staged ?rest evs (err = None)"
            using Cons [of s2 "i + 1"] by auto
          have "staged (?es # ?rest) (map DeleteSent ?es @ map SeenGone gone @ evs) (err = None)"
            using gone(3) None rest(3) by (intro staged.complete) simp_all
          then show ?thesis using True sub Inr p False wait None gone(2) rest(1,2) by (simp add: live)
        qed
      qed
    qed
  qed
qed

lemma run_stages_bound:
  assumes "latency_bound ck L"
  shows "dl_now (fst (run_stages ck E now r guard ns deadline i stages s)) \<le>
    max (dl_now s) (deadline + orderedDeletePollInterval) +
    int L * int (length (concat (live_entries E now r guard ns stages)))"
proof (induction stages arbitrary: i s)
  case (Cons stage stages)
  let ?es = "stage_entries r guard ns stage" and ?D = "deadline + orderedDeletePollInterval"
  define a where "a = int L * int (length ?es)"
  define b where "b = int L * int (length (concat (live_entries E now r guard ns stages)))"
  have pos: "0 \<le> a" "0 \<le> b" by (simp_all add: a_def b_def)
  have IH: "dl_now (fst (run_stages ck E now r guard ns deadline (i + 1) stages s)) \<le> max (dl_now s) ?D + b" for s
    using Cons by (simp add: b_def)
  show ?case
  proof (cases "stage_holds E now r stage")
    case False
    then show ?thesis using IH [of s] by (simp add: live_entries_def b_def)
  next
    case True
    obtain s1 x where sub: "submitGroupDeletion ck r guard ns stage s = (s1, x)" by (metis surj_pair)
    have s1: "dl_now s1 \<le> dl_now s + a"
      using submit_defs_bound [OF assms, of guard ns "expandAllForDelete r stage" s] sub
      by (simp add: submitGroupDeletion_def stage_entries_def a_def)
    have "dl_now (fst (run_stages ck E now r guard ns deadline i (stage # stages) s)) \<le> max (dl_now s) ?D + (a + b)"
    proof (cases x)
      case (Inl err)
      then show ?thesis using True sub s1 pos by simp
    next
      case (Inr pending)
      then have p: "pending = ?es"
        using submit_group_log [of r guard ns stage s ck] by (simp add: sub sent_log_def)
      obtain s2 werr where wait: "waitForDeletionUntil ck ?es deadline s1 = (s2, werr)" by (metis surj_pair)
      have s2: "dl_now s2 \<le> max (dl_now s1) (?D + a)"
        using wait_bound [OF assms, of ?es deadline s1] by (simp add: wait a_def)
      show ?thesis
        using True sub Inr p wait s1 s2 pos IH [of s1] IH [of s2] by (auto split: option.splits)
    qed
    then show ?thesis using True by (simp add: live_entries_def a_def b_def algebra_simps)
  qed
qed (simp add: live_entries_def)

section \<open>Lemmas: owned resources\<close>

text \<open>What the cluster-scoped clean-up deletes on an API server that does not change meanwhile.\<close>

definition static_cluster :: "(del_entry \<Rightarrow> lookup) \<Rightarrow> cluster \<Rightarrow> bool" where
  "static_cluster G ck \<longleftrightarrow> (\<forall>t e. ck_get ck t e = G e \<and> ck_delete ck t e = Accepted)"

definition cluster_entry :: "string \<Rightarrow> string \<Rightarrow> del_entry" where
  "cluster_entry kind name = \<lparr>oe_gvr = kind, oe_namespace = [], oe_name = name\<rparr>"

definition named_entries :: "resolver \<Rightarrow> string \<Rightarrow> hook_source list \<Rightarrow> del_entry list" where
  "named_entries r kind srcs =
     map (\<lambda>src. cluster_entry kind (resolved_or_empty r (so_name src)))
       (filter (\<lambda>src. \<not> (kind = ''customresources'' \<and> so_namespaced src) \<and> resolved_or_empty r (so_name src) \<noteq> []) srcs)"

definition is_owned :: "(del_entry \<Rightarrow> lookup) \<Rightarrow> string \<Rightarrow> del_entry \<Rightarrow> bool" where
  "is_owned G owner e = (case G e of Found ls \<Rightarrow> go_entry ls InrunOwner = owner | _ \<Rightarrow> False)"

lemma DeleteIfOwned_static:
  assumes "static_cluster G ck" "\<And>err. G (cluster_entry kind name) \<noteq> LookupFailed err"
  shows "snd (DeleteIfOwned ck owner kind name s) = None \<and>
    dl_log (fst (DeleteIfOwned ck owner kind name s)) =
      dl_log s @ map DeleteSent (filter (is_owned G owner) [cluster_entry kind name])"
  using assms
  by (cases "G (cluster_entry kind name)")
    (auto simp: DeleteIfOwned_def static_cluster_def cluster_entry_def is_owned_def Let_def)

lemma delete_owned_loop_static:
  assumes "static_cluster G ck" "\<And>e err. G e \<noteq> LookupFailed err"
  shows "snd (delete_owned_loop ck owner kind r srcs s) = None \<and>
    dl_log (fst (delete_owned_loop ck owner kind r srcs s)) =
      dl_log s @ map DeleteSent (filter (is_owned G owner) (named_entries r kind srcs))"
proof (induction srcs arbitrary: s)
  case (Cons src srcs)
  let ?name = "resolved_or_empty r (so_name src)"
  obtain s1 x where del: "DeleteIfOwned ck owner kind ?name s = (s1, x)" by (metis surj_pair)
  then have "x = None" "dl_log s1 = dl_log s @ map DeleteSent (filter (is_owned G owner) [cluster_entry kind ?name])"
    using DeleteIfOwned_static [OF assms, of owner kind ?name s] by simp_all
  moreover have "named_entries r kind (src # srcs) =
    (if kind = ''customresources'' \<and> so_namespaced src \<or> ?name = [] then named_entries r kind srcs
     else cluster_entry kind ?name # named_entries r kind srcs)"
    by (auto simp: named_entries_def)
  moreover have "delete_owned_loop ck owner kind r (src # srcs) s =
    (if kind = ''customresources'' \<and> so_namespaced src \<or> ?name = [] then delete_owned_loop ck owner kind r srcs s
     else case (s1, x) of (s1, Some err) \<Rightarrow> (s1, Some err) | (s1, None) \<Rightarrow> delete_owned_loop ck owner kind r srcs s1)"
    using del by (simp add: Let_def)
  ultimately show ?case
    using Cons [of s] Cons [of s1] by (simp del: delete_owned_loop.simps)
qed (simp add: named_entries_def)

lemma delete_owned_kinds_static:
  assumes "static_cluster G ck" "\<And>e err. G e \<noteq> LookupFailed err"
  shows "snd (delete_owned_kinds ck owner items r box kinds s) = None \<and>
    dl_log (fst (delete_owned_kinds ck owner items r box kinds s)) =
      dl_log s @ map DeleteSent (filter (is_owned G owner)
        (concat (map (\<lambda>kind. named_entries r kind (owned_sources items r box kind)) kinds)))"
proof (induction kinds arbitrary: s)
  case (Cons kind kinds)
  obtain s1 x where del: "delete_owned_loop ck owner kind r (owned_sources items r box kind) s = (s1, x)"
    by (metis surj_pair)
  then show ?case
    using delete_owned_loop_static [OF assms, of owner kind r "owned_sources items r box kind" s] Cons [of s1] by simp
qed simp

section \<open>Properties\<close>

text \<open>
  C16. An ordered deletion works off the stages whose conditions hold one after the other: the
  deletes of a stage are sent only after every resource of the stages before it was seen gone,
  and it ends without an error only when all resources of all stages were.
\<close>
theorem ordered_delete_finishes_each_stage:
  "case runOrderedDelete ck E now r guard ns t s of (s', err) \<Rightarrow>
     \<exists>evs. dl_log s' = dl_log s @ evs \<and>
       staged (live_entries E now r guard ns (stages_of t)) evs (err = None)"
  unfolding runOrderedDelete_def by (rule run_stages_log)

text \<open>
  C17. An ordered deletion ends: when no call takes longer than \<open>L\<close>, it returns at most a poll
  interval and one call per resource after its timeout.
\<close>
theorem ordered_delete_ends:
  assumes "latency_bound ck L"
  shows "dl_now (fst (runOrderedDelete ck E now r guard ns t s)) \<le>
    dl_now s + ordered_timeout t + orderedDeletePollInterval +
    int L * int (length (concat (live_entries E now r guard ns (stages_of t))))"
proof -
  have "0 < ordered_timeout t"
    by (simp add: ordered_timeout_def defaultOrderedDeleteTimeout_def split: option.splits)
  moreover have "0 < orderedDeletePollInterval" by (simp add: orderedDeletePollInterval_def)
  ultimately show ?thesis
    using run_stages_bound [OF assms, of E now r guard ns "dl_now s + ordered_timeout t" 0 "stages_of t" s]
    by (simp add: runOrderedDelete_def)
qed





section \<open>The cluster of the witnesses\<close>

text \<open>Calls take a second; a resource is gone ten seconds into the run.\<close>

definition sample_cluster :: cluster where
  "sample_cluster =
     \<lparr>ck_get = (\<lambda>t e. if t < 10 * 1000000000 then Found [(InrunOwner, ''db'')] else NotThere),
      ck_delete = (\<lambda>_ _. Accepted), ck_latency = (\<lambda>_. 1000000000), ck_cancelled = (\<lambda>_. False)\<rparr>"

definition quiet_cluster :: cluster where
  "quiet_cluster = sample_cluster\<lparr>ck_get := (\<lambda>_ _. Found [(InrunOwner, ''db'')])\<rparr>"

definition web_source :: hook_source where
  "web_source = \<lparr>so_name = ''web'', so_namespace = ''kube-system'', so_for_each = None, so_namespaced = True\<rparr>"

definition sample_hook :: hook_templates where
  "sample_hook =
     \<lparr>hs_when = [], hs_or = [], hs_sources = (\<lambda>kind. if kind = ''deployments'' \<or> kind = ''namespaces'' then [web_source] else []),
      ht_ordered = True, ht_groups = [], ht_timeout = None\<rparr>"

definition sample_box_del :: deletion_box where
  "sample_box_del =
     \<lparr>bx_on_create = None, bx_on_reconcile = None, bx_on_delete = Some sample_hook,
      bx_runtime = Some (sample_runtime True False)\<rparr>"

definition sample_subject :: subject where
  "sample_subject =
     \<lparr>sj_name = ''db'', sj_namespace = ''shop'',
      sj_object = sample_maintained\<lparr>mo_finalizers := [''inrun.dev/cleanup'', ''other''],
        mo_server_finalizers := [''inrun.dev/cleanup'', ''other'']\<rparr>,
      sj_box = sample_box_del, sj_resolver = text_resolver, sj_target = []\<rparr>"

definition sample_hooks :: object_hooks where
  "sample_hooks = \<lparr>oh_on_reconcile = None, oh_on_delete = Some (\<lambda>s. (logged (Hook ''bye'') s, None))\<rparr>"

definition sample_reconciler :: generic_reconciler where
  "sample_reconciler =
     \<lparr>gr_hooks = sample_hooks, gr_target_hooks = (\<lambda>_. None), gr_hooks_first = False, gr_guard = None,
      gr_items = (\<lambda>_ _. []), gr_jobs = (\<lambda>_ s. (s, None)), gr_templates = (\<lambda>s. (s, None)),
      gr_surface = (\<lambda>s. (s, None))\<rparr>"

definition run_start :: del_run where "run_start = \<lparr>dl_now = 0, dl_log = []\<rparr>"

lemma resolved_static [simp]: "\<not> IsTemplate v \<Longrightarrow> v \<noteq> [] \<Longrightarrow> resolved_or_empty r v = v"
  by (simp add: resolved_or_empty_def Resolve_def resolve_def)

lemma sample_names [simp]: "\<not> IsTemplate ''web''" "\<not> IsTemplate ''kube-system''"
  by (simp_all add: IsTemplate_def str_contains_def)

theorem ordered_delete_ends_witness:
  "dl_now (fst (runOrderedDelete sample_cluster sample_env (sample_time 9 0) text_resolver None ''shop'' sample_hook run_start)) \<le>
     (303 + int (length (concat (live_entries sample_env (sample_time 9 0) text_resolver None ''shop'' (stages_of sample_hook))))) * 1000000000"
  using ordered_delete_ends [of sample_cluster 1000000000 sample_env "sample_time 9 0" text_resolver None "''shop''" sample_hook run_start]
  by (simp add: latency_bound_def sample_cluster_def run_start_def ordered_timeout_def sample_hook_def
      defaultOrderedDeleteTimeout_def orderedDeletePollInterval_def algebra_simps)





end
