(* ===== verification/Cross.thy ===== *)
theory Cross
  imports Autoscaler Validation "HOL-Library.AList"
begin

text \<open>
  Observation of other custom resources in the prepare stage (\<^verbatim>\<open>coordinator/prepare/cross.go\<close>,
  \<^verbatim>\<open>types/cross.go\<close>, \<^verbatim>\<open>types/cross_oncop.go\<close>, \<^verbatim>\<open>utils/common/cross.go\<close>) over the registry of
  running CRDs (\<^verbatim>\<open>coordinator/registry.go\<close>).  A Go map that is iterated is an association list in
  the order of the iteration.
\<close>

section \<open>Declarations\<close>

text \<open>\<^verbatim>\<open>CrossCRDDeclaration\<close> with the fields the prepare stage reads beside those of the autoscaler.\<close>

record observe_decl = cross_decl +
  od_label_selector :: "(string \<times> string) list option"
  od_name :: string
  od_namespace :: string
  od_match_labels :: "(string \<times> string) list"

definition IsLabelBased :: "observe_decl \<Rightarrow> bool" where
  "IsLabelBased d \<longleftrightarrow> od_label_selector d \<noteq> None"

definition IsCRDBased :: "observe_decl \<Rightarrow> bool" where
  "IsCRDBased d \<longleftrightarrow> cd_crd d \<noteq> []"

definition IsNameBased :: "observe_decl \<Rightarrow> bool" where
  "IsNameBased d = (if length (od_match_labels d) \<noteq> 0 then False else od_name d \<noteq> [])"

definition HasEndpoint :: "cross_source \<Rightarrow> bool" where
  "HasEndpoint s \<longleftrightarrow> cs_host s \<noteq> []"

definition HasHost :: "cross_source \<Rightarrow> bool" where
  "HasHost s \<longleftrightarrow> cs_host s \<noteq> []"

definition BuildONCOPURL :: "observe_decl \<Rightarrow> cross_source \<Rightarrow> string" where
  "BuildONCOPURL d src =
     (let crd = cd_crd d; name = od_name d; ns = od_namespace d;
          base = trim_suffix (cs_host src) ''/'' @ ''/catalog/'' @ crd
      in if cs_protocol src = ''metrics'' \<or> cs_protocol src = ''info'' \<or> cs_protocol src = [] then base
         else if cs_protocol src = ''health'' then base @ ''/health''
         else if cs_protocol src = ''events'' then
           (if ns = [] then base @ ''/cr/'' @ name @ ''/events''
            else base @ ''/cr/'' @ ns @ ''/'' @ name @ ''/events'')
         else if cs_protocol src = ''cr'' then
           (if ns = [] then base @ ''/cr/'' @ name else base @ ''/cr/'' @ ns @ ''/'' @ name)
         else base)"

section \<open>The registry of running CRDs\<close>

text \<open>
  The informer of an entry by its index: keys and the objects as maps; \<open>None\<close> is an object that
  cannot be converted.
\<close>

type_synonym informer_index = "(string \<times> gmap option) list"

record running_crd =
  rg_name :: string
  rg_label_selector :: "(string \<times> string) list option"
  rg_informer :: "informer_index option"
  rg_cross_access :: "bool option"

fun GetInformerByName :: "running_crd list \<Rightarrow> string \<Rightarrow> informer_index option option" where
  "GetInformerByName [] name = None"
| "GetInformerByName (entry # entries) name =
     (if to_lower (rg_name entry) = to_lower name then Some (rg_informer entry)
      else GetInformerByName entries name)"

fun GetInformerByLabelSelector :: "running_crd list \<Rightarrow> string \<Rightarrow> string \<Rightarrow> informer_index option option" where
  "GetInformerByLabelSelector [] key val = None"
| "GetInformerByLabelSelector (entry # entries) key val =
     (case rg_label_selector entry of
        None \<Rightarrow> GetInformerByLabelSelector entries key val
      | Some labels \<Rightarrow>
          (if list_ex (\<lambda>(k, v). to_lower k = to_lower key \<and> to_lower v = to_lower val) labels
           then Some (rg_informer entry)
           else GetInformerByLabelSelector entries key val))"

fun GetCrossAccessByName :: "running_crd list \<Rightarrow> string \<Rightarrow> bool option" where
  "GetCrossAccessByName [] name = None"
| "GetCrossAccessByName (entry # entries) name =
     (if to_lower (rg_name entry) = to_lower name then rg_cross_access entry
      else GetCrossAccessByName entries name)"

section \<open>Reading an informer\<close>

definition meta_map :: "gmap \<Rightarrow> gmap option" where
  "meta_map m = (case m ''metadata'' of Some v \<Rightarrow> as_map v | None \<Rightarrow> None)"

definition sub_object :: "gmap option \<Rightarrow> string \<Rightarrow> gmap option" where
  "sub_object m k = (case m of None \<Rightarrow> None | Some n \<Rightarrow> (case n k of Some v \<Rightarrow> as_map v | None \<Rightarrow> None))"

definition MetaField :: "gmap \<Rightarrow> string \<Rightarrow> string" where
  "MetaField m field =
     (case meta_map m of None \<Rightarrow> []
      | Some meta \<Rightarrow> (case meta field of Some (VStr s) \<Rightarrow> s | _ \<Rightarrow> []))"

definition or_empty_map :: "gmap option \<Rightarrow> gval" where
  "or_empty_map m = VMap (case m of None \<Rightarrow> Map.empty | Some n \<Rightarrow> n)"

definition buildCrossResultFromMap :: "gmap \<Rightarrow> gmap" where
  "buildCrossResultFromMap m =
     (let result = [''found'' \<mapsto> VStr ''true'', ''name'' \<mapsto> VStr (MetaField m ''name''),
                    ''namespace'' \<mapsto> VStr (MetaField m ''namespace''),
                    ''spec'' \<mapsto> or_empty_map (sub_object (Some m) ''spec''),
                    ''status'' \<mapsto> or_empty_map (sub_object (Some m) ''status'')];
          result1 = (case sub_object (meta_map m) ''labels'' of
                       None \<Rightarrow> result
                     | Some ls \<Rightarrow> (if ls \<noteq> Map.empty then result(''labels'' \<mapsto> VMap ls) else result))
      in (case sub_object (meta_map m) ''annotations'' of
            None \<Rightarrow> result1
          | Some an \<Rightarrow> (if an \<noteq> Map.empty then result1(''annotations'' \<mapsto> VMap an) else result1)))"

definition notFoundCrossResult :: gmap where
  "notFoundCrossResult =
     [''found'' \<mapsto> VStr ''false'', ''spec'' \<mapsto> VMap Map.empty, ''status'' \<mapsto> VMap Map.empty]"

definition crossKey :: "string \<Rightarrow> string \<Rightarrow> string" where
  "crossKey namespace name = (if namespace = [] then name else namespace @ ''/'' @ name)"

definition readCrossFromInformerByName :: "informer_index \<Rightarrow> string \<Rightarrow> bool option \<Rightarrow> gmap" where
  "readCrossFromInformerByName idx key crossAccess =
     (if crossAccess = Some False then notFoundCrossResult
      else case map_of idx key of
          None \<Rightarrow> notFoundCrossResult
        | Some None \<Rightarrow> notFoundCrossResult
        | Some (Some m) \<Rightarrow> buildCrossResultFromMap m)"

text \<open>\<open>None\<close> is a panic: the type assertion on \<^verbatim>\<open>metadata\<close> is unchecked.\<close>

fun readCrossFromInformerByLabel :: "goenv \<Rightarrow> informer_index \<Rightarrow> string \<Rightarrow> string \<Rightarrow> gmap option" where
  "readCrossFromInformerByLabel E [] labelKey labelValue = Some notFoundCrossResult"
| "readCrossFromInformerByLabel E ((key, raw) # rest) labelKey labelValue =
     (case raw of
        None \<Rightarrow> readCrossFromInformerByLabel E rest labelKey labelValue
      | Some m \<Rightarrow>
          (case meta_map m of
             None \<Rightarrow> None
           | Some meta \<Rightarrow>
               (let v = (case sub_object (Some meta) ''labels'' of
                           None \<Rightarrow> VNil
                         | Some ls \<Rightarrow> (case ls labelKey of None \<Rightarrow> VNil | Some x \<Rightarrow> x))
                in if sprintf_v E v = labelValue then Some (buildCrossResultFromMap m)
                   else readCrossFromInformerByLabel E rest labelKey labelValue)))"

section \<open>Reading over HTTP\<close>

text \<open>
  \<open>http\<close> is the request with its authorization: \<open>None\<close> when it fails, otherwise the status code
  and the decoded body, \<open>None\<close> when it is no JSON object.
\<close>

type_synonym cross_http = "string \<Rightarrow> (int \<times> gmap option) option"

definition FetchCrossViaHTTP :: "cross_http \<Rightarrow> cross_source \<Rightarrow> gmap option" where
  "FetchCrossViaHTTP http src =
     (case http (cs_endpoint src) of
        None \<Rightarrow> None
      | Some (code, body) \<Rightarrow>
          (if code = 404 then Some [''found'' \<mapsto> VStr ''false'']
           else if code \<noteq> 200 then None
           else case body of
               None \<Rightarrow> None
             | Some result \<Rightarrow>
                 (if result ''found'' \<noteq> None then Some result
                  else Some (result(''found'' \<mapsto>
                    VStr (if result ''name'' \<noteq> None \<and> result ''name'' \<noteq> Some VNil then ''true'' else ''false''))))))"

definition http_fallback :: "resolver \<Rightarrow> cross_http \<Rightarrow> observe_decl \<Rightarrow> gmap option" where
  "http_fallback r http d =
     (case cd_source d of
        None \<Rightarrow> None
      | Some src \<Rightarrow>
          (case (if HasEndpoint src
                 then FetchCrossViaHTTP http (src\<lparr>cs_endpoint := resolved_or_empty r (cs_endpoint src)\<rparr>) else None) of
             Some m \<Rightarrow> Some m
           | None \<Rightarrow>
               (if HasHost src then FetchCrossViaHTTP http (src\<lparr>cs_endpoint := BuildONCOPURL d src\<rparr>) else None)))"

section \<open>All declarations\<close>

fun first_labelled :: "running_crd list \<Rightarrow> (string \<times> string) list \<Rightarrow> informer_index option" where
  "first_labelled reg [] = None"
| "first_labelled reg ((k, v) # ls) =
     (case GetInformerByLabelSelector reg k v of Some i \<Rightarrow> i | None \<Rightarrow> first_labelled reg ls)"

definition find_informer :: "running_crd list \<Rightarrow> observe_decl \<Rightarrow> informer_index option" where
  "find_informer reg d =
     (if IsCRDBased d then (case GetInformerByName reg (cd_crd d) of Some i \<Rightarrow> i | None \<Rightarrow> None)
      else case od_label_selector d of Some ls \<Rightarrow> first_labelled reg ls | None \<Rightarrow> None)"

text \<open>The data read from an informer: \<open>None\<close> is a panic, \<open>Some None\<close> no data.\<close>

definition informer_data ::
  "goenv \<Rightarrow> running_crd list \<Rightarrow> informer_index \<Rightarrow> observe_decl \<Rightarrow> string \<Rightarrow> string \<Rightarrow> gmap option option" where
  "informer_data E reg idx d namespace name =
     (let crossAccess = (if IsCRDBased d then GetCrossAccessByName reg (cd_crd d) else None) in
      case od_match_labels d of
        (k, v) # _ \<Rightarrow> map_option Some (readCrossFromInformerByLabel E idx k v)
      | [] \<Rightarrow>
          (case od_label_selector d of
             Some ((k, v) # _) \<Rightarrow> map_option Some (readCrossFromInformerByLabel E idx k v)
           | Some [] \<Rightarrow> Some None
           | None \<Rightarrow>
               (if IsNameBased d
                then Some (Some (readCrossFromInformerByName idx (crossKey namespace name) crossAccess))
                else Some None)))"

definition alias_of :: "observe_decl \<Rightarrow> string" where
  "alias_of d = (if cd_as d = [] then cd_crd d else cd_as d)"

text \<open>The round of \<^verbatim>\<open>readCross\<close> for one declaration; \<open>own\<close> is the namespace of the resource.\<close>

definition read_declaration ::
  "goenv \<Rightarrow> running_crd list \<Rightarrow> cross_http \<Rightarrow> resolver \<Rightarrow> string \<Rightarrow> observe_decl \<Rightarrow> gmap option" where
  "read_declaration E reg http r own d =
     (let name = resolved_or_empty r (od_name d);
          ns0 = resolved_or_empty r (od_namespace d);
          namespace = (if ns0 = [] then own else ns0)
      in case (case find_informer reg d of None \<Rightarrow> Some None
               | Some idx \<Rightarrow> informer_data E reg idx d namespace name) of
           None \<Rightarrow> None
         | Some (Some m) \<Rightarrow> Some m
         | Some None \<Rightarrow>
             (case http_fallback r http d of
                Some m \<Rightarrow> Some m
              | None \<Rightarrow> Some [''found'' \<mapsto> VStr ''false'', ''name'' \<mapsto> VStr name, ''namespace'' \<mapsto> VStr namespace,
                              ''status'' \<mapsto> VMap Map.empty, ''spec'' \<mapsto> VMap Map.empty]))"

fun readCross ::
  "goenv \<Rightarrow> running_crd list \<Rightarrow> cross_http \<Rightarrow> resolver \<Rightarrow> string \<Rightarrow> observe_decl list \<Rightarrow>
   (string \<times> gval) list \<Rightarrow> (string \<times> gval) list option" where
  "readCross E reg http r own [] result = Some result"
| "readCross E reg http r own (d # decls) result =
     (case read_declaration E reg http r own d of
        None \<Rightarrow> None
      | Some m \<Rightarrow> readCross E reg http r own decls (AList.update (alias_of d) (VMap m) result))"

section \<open>Lemmas: what a read returns\<close>

text \<open>The shape templates rely on: \<^verbatim>\<open>found\<close> is a text, \<^verbatim>\<open>spec\<close> and \<^verbatim>\<open>status\<close> are maps.\<close>

definition cross_result :: "gmap \<Rightarrow> bool" where
  "cross_result m \<longleftrightarrow> (m ''found'' = Some (VStr ''true'') \<or> m ''found'' = Some (VStr ''false'')) \<and>
     (case m ''spec'' of Some (VMap _) \<Rightarrow> True | _ \<Rightarrow> False) \<and> (case m ''status'' of Some (VMap _) \<Rightarrow> True | _ \<Rightarrow> False)"

lemma built_result [simp]: "cross_result (buildCrossResultFromMap m)"
  by (simp add: cross_result_def buildCrossResultFromMap_def or_empty_map_def Let_def split: option.split)

lemma not_found_result [simp]: "cross_result notFoundCrossResult"
  by (simp add: cross_result_def notFoundCrossResult_def)

lemma missing_result [simp]:
  "cross_result [''found'' \<mapsto> VStr ''false'', ''name'' \<mapsto> VStr n, ''namespace'' \<mapsto> VStr ns,
     ''status'' \<mapsto> VMap Map.empty, ''spec'' \<mapsto> VMap Map.empty]"
  by (simp add: cross_result_def)

lemma read_by_name_result [simp]: "cross_result (readCrossFromInformerByName idx key access)"
  by (simp add: readCrossFromInformerByName_def split: option.split)

lemma read_by_label_result: "readCrossFromInformerByLabel E idx k v = Some m \<Longrightarrow> cross_result m"
  by (induction E idx k v rule: readCrossFromInformerByLabel.induct)
    (auto simp: Let_def split: option.splits if_splits)

lemma informer_data_result:
  "informer_data E reg idx d namespace name = Some (Some m) \<Longrightarrow> cross_result m"
  by (auto simp: informer_data_def Let_def dest: read_by_label_result split: list.splits option.splits if_splits)

lemma fetched_found: "FetchCrossViaHTTP http src = Some m \<Longrightarrow> m ''found'' \<noteq> None"
  by (auto simp: FetchCrossViaHTTP_def split: option.splits if_splits prod.splits)

lemma http_fallback_found:
  assumes "http_fallback r http d = Some m"
  shows "m ''found'' \<noteq> None"
  using assms fetched_found unfolding http_fallback_def by (auto split: option.splits if_splits)

lemma read_declaration_result:
  assumes "read_declaration E reg http r own d = Some m"
  shows "m ''found'' \<noteq> None" "cd_source d = None \<Longrightarrow> cross_result m"
proof -
  have "cross_result m \<or> http_fallback r http d = Some m"
    using assms informer_data_result
    by (auto simp: read_declaration_def Let_def split: option.splits)
  moreover have "cross_result m \<Longrightarrow> m ''found'' \<noteq> None" by (auto simp: cross_result_def)
  ultimately show "m ''found'' \<noteq> None" "cd_source d = None \<Longrightarrow> cross_result m"
    using http_fallback_found by (auto simp: http_fallback_def)
qed

lemma readCross_entries:
  assumes "readCross E reg http r own decls result = Some res"
    and "\<And>d. d \<in> set decls \<Longrightarrow> alias_of d = as \<Longrightarrow> \<forall>m. read_declaration E reg http r own d = Some m \<longrightarrow> P m"
    and "as \<in> alias_of ` set decls \<or> (\<exists>m. map_of result as = Some (VMap m) \<and> P m)"
  shows "\<exists>m. map_of res as = Some (VMap m) \<and> P m"
  using assms
proof (induction decls arbitrary: result)
  case (Cons d decls)
  then obtain m where m: "read_declaration E reg http r own d = Some m"
    and rest: "readCross E reg http r own decls (AList.update (alias_of d) (VMap m) result) = Some res"
    by (auto split: option.splits)
  have "as \<in> alias_of ` set decls \<or>
      (\<exists>m'. map_of (AList.update (alias_of d) (VMap m) result) as = Some (VMap m') \<and> P m')"
    using Cons.prems(2) [of d] Cons.prems(3) m by (auto simp: update_conv')
  then show ?case
    using Cons.IH [OF rest] Cons.prems(2) by (meson list.set_intros(2))
qed simp

section \<open>Properties\<close>



text \<open>
  The HTTP fallback is out of reach: a source that gives an endpoint and no host is never
  asked, and neither is any source when the CRD has an informer that the declaration selects from
  by name or by label, whether or not that finds the resource.
\<close>
lemma http_fallback_is_not_asked:
  assumes "(\<exists>src. cd_source d = Some src \<and> cs_host src = []) \<or>
    (find_informer reg d \<noteq> None \<and> (od_match_labels d \<noteq> [] \<or> (od_label_selector d = None \<and> od_name d \<noteq> [])))"
  shows "read_declaration E reg http r own d = read_declaration E reg http' r own d"
  using assms
proof
  assume "\<exists>src. cd_source d = Some src \<and> cs_host src = []"
  then have "http_fallback r http d = http_fallback r http' d"
    by (auto simp: http_fallback_def HasEndpoint_def HasHost_def)
  then show ?thesis by (simp only: read_declaration_def)
next
  assume "find_informer reg d \<noteq> None \<and> (od_match_labels d \<noteq> [] \<or> (od_label_selector d = None \<and> od_name d \<noteq> []))"
  then show ?thesis
    by (auto simp: read_declaration_def informer_data_def IsNameBased_def Let_def map_option_case
        split: option.splits list.splits)
qed

text \<open>Of several \<^verbatim>\<open>matchLabels\<close> only the one the map iteration gives first selects.\<close>

lemma match_labels_reads_one:
  "od_match_labels d = (k, v) # ls \<Longrightarrow>
   informer_data E reg idx d namespace name = informer_data E reg idx (d\<lparr>od_match_labels := [(k, v)]\<rparr>) namespace name"
  by (simp add: informer_data_def IsCRDBased_def Let_def)

text \<open>The URL of a resource takes the selector's name as it is declared, template or not.\<close>

lemma oncop_url_is_not_resolved:
  "cs_protocol src = ''cr'' \<Longrightarrow> od_namespace d = [] \<Longrightarrow>
   BuildONCOPURL d src = trim_suffix (cs_host src) ''/'' @ ''/catalog/'' @ cd_crd d @ ''/cr/'' @ od_name d"
  by (simp add: BuildONCOPURL_def Let_def)

section \<open>The registry of the witnesses\<close>

definition stored_db :: gmap where
  "stored_db = [''metadata'' \<mapsto> VMap [''name'' \<mapsto> VStr ''main'', ''labels'' \<mapsto> VMap [''tier'' \<mapsto> VStr ''gold'']]]"

definition closed_registry :: "running_crd list" where
  "closed_registry = [\<lparr>rg_name = ''database'', rg_label_selector = None, rg_informer = Some [(''ns/main'', Some stored_db)],
     rg_cross_access = Some False\<rparr>]"

definition label_decl :: observe_decl where
  "label_decl = \<lparr>cd_crd = ''database'', cd_as = ''db'', cd_source = None, od_label_selector = None, od_name = [],
     od_namespace = [], od_match_labels = [(''tier'', ''gold'')]\<rparr>"

definition endpoint_decl :: observe_decl where
  "endpoint_decl = label_decl\<lparr>cd_crd := ''queue'', od_match_labels := [], od_name := ''q'',
     cd_source := Some \<lparr>cs_endpoint = ''http://q/cr'', cs_host = [], cs_protocol = [], cs_namespace = []\<rparr>\<rparr>"

lemma closed_lookup [simp]:
  "find_informer closed_registry label_decl = Some [(''ns/main'', Some stored_db)]"
  "GetCrossAccessByName closed_registry ''database'' = Some False"
  by (simp_all add: find_informer_def closed_registry_def label_decl_def IsCRDBased_def)

lemma closed_read [simp]:
  "readCrossFromInformerByLabel E [(''ns/main'', Some stored_db)] ''tier'' ''gold'' = Some (buildCrossResultFromMap stored_db)"
  by (simp add: stored_db_def meta_map_def sub_object_def)

lemma label_fields: "cd_crd label_decl = ''database''" "od_match_labels label_decl = [(''tier'', ''gold'')]"
  by (simp_all add: label_decl_def)

lemma closed_declaration:
  "read_declaration E closed_registry http r own label_decl = Some (buildCrossResultFromMap stored_db)"
  by (simp add: read_declaration_def informer_data_def label_fields Let_def del: readCrossFromInformerByLabel.simps)



end
