(* ===== verification/Post.thy ===== *)
theory Post
  imports Worker Mutation "HOL-Library.AList"
begin

text \<open>
  The post stage of a pass (\<^verbatim>\<open>pkg/runtime/coordinator/post\<close>, \<^verbatim>\<open>kubeclient/patch_status.go\<close>,
  \<^verbatim>\<open>template/resolver_status.go\<close>): the standard conditions, the declared status fields, the
  patch and the test whether it is needed, the declared events and the runtime annotations.
  A Go map that is iterated is an association list in the order of the iteration.
\<close>

section \<open>Standard conditions\<close>

definition truncateMessage :: "string \<Rightarrow> string" where
  "truncateMessage msg = (if length msg > 256 then take 253 msg @ ''...'' else msg)"

definition condition_map :: "string \<Rightarrow> string \<Rightarrow> string \<Rightarrow> string \<Rightarrow> string \<Rightarrow> gmap" where
  "condition_map type status reason message clock =
     [''type'' \<mapsto> VStr type, ''status'' \<mapsto> VStr status, ''reason'' \<mapsto> VStr reason,
      ''message'' \<mapsto> VStr message, ''lastTransitionTime'' \<mapsto> VStr clock]"

definition buildReadyCondition :: "string \<Rightarrow> string option \<Rightarrow> int \<Rightarrow> bool \<Rightarrow> gmap" where
  "buildReadyCondition clock reconcileErr generation skipObservedGeneration =
     (let cond = (case reconcileErr of
            None \<Rightarrow> condition_map ''Ready'' ''True'' ''ReconcileSucceeded'' [] clock
          | Some msg \<Rightarrow> condition_map ''Ready'' ''False'' ''ReconcileError'' (truncateMessage msg) clock)
      in if \<not> skipObservedGeneration then cond(''observedGeneration'' \<mapsto> VInt KInt64 generation) else cond)"

definition buildValidationCondition :: "goenv \<Rightarrow> string \<Rightarrow> validation_result option \<Rightarrow> gmap" where
  "buildValidationCondition E clock valResult =
     (let passed = condition_map ''ValidationFailed'' ''False'' ''ValidationPassed'' [] clock in
      case valResult of
        None \<Rightarrow> passed
      | Some r \<Rightarrow>
          (if vr_deny r then condition_map ''ValidationFailed'' ''True'' ''DenyRuleViolation''
             (truncateMessage (join_str ''; '' (map (violation_text E) (vr_violations r)))) clock
           else passed))"

definition buildValidationWarningCondition :: "goenv \<Rightarrow> string \<Rightarrow> validation_result option \<Rightarrow> gmap" where
  "buildValidationWarningCondition E clock valResult =
     (let none = condition_map ''ValidationWarning'' ''False'' ''NoWarnings'' [] clock in
      case valResult of
        None \<Rightarrow> none
      | Some r \<Rightarrow>
          (if length (vr_warnings r) > 0 then condition_map ''ValidationWarning'' ''True'' ''WarnRuleViolation''
             (truncateMessage (join_str ''; ''
               (map (\<lambda>w. ''field '' @ ge_quote E (vv_field w) @ '': '' @ vv_message w) (vr_warnings r)))) clock
           else none))"

section \<open>Declared status fields\<close>

record status_field =
  sf_path :: string
  sf_value :: string
  sf_type :: string
  sf_when :: "condition list"
  sf_or :: "condition list"
  sf_clear_on_false :: bool

type_synonym status_entries = "(string \<times> gval) list"

datatype status_error = EmptyStatusPath | StatusTemplate string | StatusCast string

text \<open>
  Below the first segment of the path a scalar in the way is replaced by a map, as
  \<^verbatim>\<open>setNestedPatch\<close> does.
\<close>

definition setNestedStatusField :: "status_entries \<Rightarrow> string \<Rightarrow> gval \<Rightarrow> status_entries" where
  "setNestedStatusField dst path v =
     (case split_dot path of
        [] \<Rightarrow> dst
      | [k] \<Rightarrow> AList.update k v dst
      | k # rest \<Rightarrow>
          (let child = (case map_of dst k of Some (VMap m) \<Rightarrow> m | _ \<Rightarrow> Map.empty)
           in AList.update k (VMap (set_patch_parts child rest v)) dst))"

definition castStatusValue :: "goenv \<Rightarrow> string \<Rightarrow> string \<Rightarrow> gval option" where
  "castStatusValue E raw typ =
     (let t = to_lower typ in
      if t = [] \<or> t = ''string'' \<or> t = ''str'' \<or> t = ''default'' then Some (VStr raw)
      else if t = ''int'' \<or> t = ''integer'' then map_option (VInt KInt64) (parse_int64 raw)
      else if t = ''float'' then map_option (VFloat KF64) (ge_parse_float E raw)
      else if t = ''bool'' \<or> t = ''boolean'' then map_option VBool (parse_bool raw)
      else if t = ''auto'' then
        (case parse_int64 raw of
           Some i \<Rightarrow> Some (VInt KInt64 i)
         | None \<Rightarrow>
             (case ge_parse_float E raw of
                Some f \<Rightarrow> Some (VFloat KF64 f)
              | None \<Rightarrow> (case parse_bool raw of Some b \<Rightarrow> Some (VBool b) | None \<Rightarrow> Some (VStr raw))))
      else None)"

text \<open>One round of the loop of \<^verbatim>\<open>ResolveStatusFields\<close>.\<close>

definition resolve_status_field ::
  "goenv \<Rightarrow> gotime \<Rightarrow> resolver \<Rightarrow> status_field \<Rightarrow> status_entries \<Rightarrow> status_entries \<times> status_error list" where
  "resolve_status_field E now r f result =
     (if sf_path f = [] then (result, [EmptyStatusPath])
      else if (length (sf_when f) > 0 \<or> length (sf_or f) > 0) \<and>
        \<not> EvaluateConditions E now (rs_data r) (sf_when f) (sf_or f) (TemplateEvaluator (Some r)) then
        (if sf_clear_on_false f then (setNestedStatusField result (sf_path f) (VStr []), []) else (result, []))
      else (case Resolve r (sf_value f) of
          None \<Rightarrow> (result, [StatusTemplate (sf_path f)])
        | Some raw \<Rightarrow>
            (case castStatusValue E raw (sf_type f) of
               None \<Rightarrow> (result, [StatusCast (sf_path f)])
             | Some v \<Rightarrow> (setNestedStatusField result (sf_path f) v, []))))"

fun ResolveStatusFields ::
  "goenv \<Rightarrow> gotime \<Rightarrow> resolver \<Rightarrow> status_field list \<Rightarrow> status_entries \<Rightarrow> status_entries \<times> status_error list" where
  "ResolveStatusFields E now r [] result = (result, [])"
| "ResolveStatusFields E now r (f # declared) result =
     (let (result', errs) = resolve_status_field E now r f result;
          (result'', errs') = ResolveStatusFields E now r declared result'
      in (result'', errs @ errs'))"

section \<open>The status patch\<close>

definition put_all :: "status_entries \<Rightarrow> status_entries \<Rightarrow> status_entries" where
  "put_all entries patch = fold (\<lambda>(k, v) p. AList.update k v p) entries patch"

text \<open>
  The patch of \<^verbatim>\<open>applyStatus\<close>.  \<open>clock\<close> is the text of one reading of the clock for the three
  conditions, \<open>resolved\<close> the declared fields, \<open>remote\<close> the patch of the reconciler.
\<close>

definition status_patch ::
  "goenv \<Rightarrow> string \<Rightarrow> string option \<Rightarrow> int \<Rightarrow> bool \<Rightarrow> validation_result option \<Rightarrow> status_entries \<Rightarrow> status_entries \<Rightarrow>
   status_entries" where
  "status_patch E clock reconcileErr generation skipObservedGen valResult resolved remote =
     (let conditions = [buildReadyCondition clock reconcileErr generation skipObservedGen,
                        buildValidationCondition E clock valResult,
                        buildValidationWarningCondition E clock valResult];
          patch = [(''conditions'', VList (map VMap conditions))];
          patch1 = (if \<not> skipObservedGen then patch @ [(''observedGeneration'', VInt KInt64 generation)] else patch)
      in put_all remote (put_all resolved patch1))"

text \<open>\<^verbatim>\<open>unstructured.NestedFieldNoCopy(u.Object, "status", k)\<close>.\<close>

definition nested_status :: "gmap \<Rightarrow> string \<Rightarrow> gval option" where
  "nested_status obj k = (case obj ''status'' of Some (VMap m) \<Rightarrow> m k | _ \<Rightarrow> None)"

fun conditions_by_type :: "gval list \<Rightarrow> (string \<times> gmap) list \<Rightarrow> (string \<times> gmap) list" where
  "conditions_by_type [] byType = byType"
| "conditions_by_type (c # cs) byType =
     (case c of
        VMap cm \<Rightarrow>
          (case cm ''type'' of
             Some (VStr t) \<Rightarrow> conditions_by_type cs (if t \<noteq> [] then AList.update t cm byType else byType)
           | _ \<Rightarrow> conditions_by_type cs byType)
      | _ \<Rightarrow> conditions_by_type cs byType)"

text \<open>Comparison of two interface values; two maps or two slices panic.\<close>

fun interface_eq :: "gval \<Rightarrow> gval \<Rightarrow> bool option" where
  "interface_eq (VMap _) (VMap _) = None"
| "interface_eq (VList _) (VList _) = None"
| "interface_eq (VFloat k x) (VFloat k' y) = Some (k = k' \<and> f_eq x y)"
| "interface_eq a b = Some (a = b)"

definition field_or_nil :: "gmap \<Rightarrow> string \<Rightarrow> gval" where
  "field_or_nil m k = (case m k of None \<Rightarrow> VNil | Some v \<Rightarrow> v)"

fun differs_in :: "string list \<Rightarrow> gmap \<Rightarrow> gmap \<Rightarrow> bool option" where
  "differs_in [] ex dm = Some False"
| "differs_in (k # ks) ex dm =
     (case interface_eq (field_or_nil ex k) (field_or_nil dm k) of
        None \<Rightarrow> None
      | Some False \<Rightarrow> Some True
      | Some True \<Rightarrow> differs_in ks ex dm)"

fun conditions_differ :: "(string \<times> gmap) list \<Rightarrow> gval list \<Rightarrow> bool option" where
  "conditions_differ byType [] = Some False"
| "conditions_differ byType (d # desired) =
     (case d of
        VMap dm \<Rightarrow>
          (case map_of byType (case dm ''type'' of Some (VStr t) \<Rightarrow> t | _ \<Rightarrow> []) of
             None \<Rightarrow> Some True
           | Some ex \<Rightarrow>
               (case differs_in [''status'', ''reason'', ''message''] ex dm of
                  None \<Rightarrow> None
                | Some True \<Rightarrow> Some True
                | Some False \<Rightarrow> conditions_differ byType desired))
      | _ \<Rightarrow> Some True)"

text \<open>\<^verbatim>\<open>reflect.DeepEqual\<close>: the types agree and NaN differs from itself.\<close>

primrec DeepEqual :: "gval \<Rightarrow> gval \<Rightarrow> bool" where
  "DeepEqual VNil = (\<lambda>b. b = VNil)"
| "DeepEqual (VStr s) = (\<lambda>b. b = VStr s)"
| "DeepEqual (VBool x) = (\<lambda>b. b = VBool x)"
| "DeepEqual (VInt k i) = (\<lambda>b. b = VInt k i)"
| "DeepEqual (VFloat k x) = (\<lambda>b. case b of VFloat k' y \<Rightarrow> k = k' \<and> f_eq x y | _ \<Rightarrow> False)"
| "DeepEqual (VList xs) = (\<lambda>b. case b of VList ys \<Rightarrow> list_all2 (\<lambda>f y. f y) (map DeepEqual xs) ys | _ \<Rightarrow> False)"
| "DeepEqual (VMap m) = (\<lambda>b. case b of
     VMap n \<Rightarrow> (\<forall>k. case map_option DeepEqual (m k) of
                     None \<Rightarrow> n k = None
                   | Some f \<Rightarrow> (case n k of None \<Rightarrow> False | Some y \<Rightarrow> f y))
   | _ \<Rightarrow> False)"
| "DeepEqual VChecker = (\<lambda>b. b = VChecker)"

definition statusPatchNeeded :: "bool \<Rightarrow> gmap \<Rightarrow> status_entries \<Rightarrow> bool option" where
  "statusPatchNeeded unstructured obj patch =
     (if \<not> unstructured then Some True
      else if (case map_of patch ''observedGeneration'' of
          Some (VInt KInt64 desiredGen) \<Rightarrow>
            (case nested_status obj ''observedGeneration'' of Some (VInt KInt64 g) \<Rightarrow> g | _ \<Rightarrow> 0) \<noteq> desiredGen
        | _ \<Rightarrow> False) then Some True
      else
        (let existing = (case nested_status obj ''conditions'' of Some (VList cs) \<Rightarrow> cs | _ \<Rightarrow> []);
             byType = conditions_by_type existing [];
             desired = (case map_of patch ''conditions'' of Some (VList ds) \<Rightarrow> ds | _ \<Rightarrow> [])
         in if length desired \<noteq> length byType then Some True
            else case conditions_differ byType desired of
                None \<Rightarrow> None
              | Some True \<Rightarrow> Some True
              | Some False \<Rightarrow> Some (list_ex (\<lambda>(k, v). k \<noteq> ''conditions'' \<and> k \<noteq> ''observedGeneration'' \<and>
                    (case nested_status obj k of None \<Rightarrow> True | Some ex \<Rightarrow> \<not> DeepEqual ex v)) patch)))"

text \<open>
  The status subresource: what the API server makes of a merge patch on the status it has;
  \<open>None\<close> is any error.
\<close>

type_synonym status_api = "gmap \<Rightarrow> status_entries \<Rightarrow> gmap option"

definition PatchStatus :: "status_api \<Rightarrow> status_entries \<Rightarrow> gmap \<Rightarrow> gmap \<times> bool" where
  "PatchStatus api statusFields server =
     (if length statusFields = 0 then (server, True)
      else case api server statusFields of None \<Rightarrow> (server, False) | Some s \<Rightarrow> (s, True))"

section \<open>The stage\<close>

datatype emit_trigger = TriggerAlways | TriggerSuccess | TriggerFailure | TriggerOther string

record emit_entry =
  ee_type :: string
  ee_reason :: string
  ee_message :: string
  ee_on :: "emit_trigger list"
  ee_when :: "condition list"
  ee_or :: "condition list"

record post_box =
  pb_templates :: bool     \<comment> \<open>an \<^verbatim>\<open>onCreate\<close> or \<^verbatim>\<open>onReconcile\<close> block is declared\<close>
  pb_status :: "status_field list option"
  pb_emit :: "(string \<times> emit_entry option) list option"   \<comment> \<open>the events, in a declared \<^verbatim>\<open>emit\<close> block\<close>

record post_input =
  pi_skip_status :: bool
  pi_skip_generation :: bool
  pi_cross_access :: bool
  pi_health_enabled :: bool
  pi_recorder :: bool
  pi_metrics :: gmap
  pi_health :: gmap
  pi_status_patch :: status_entries

text \<open>
  The resource: its content as the pass read it, its annotations, the status on the server and
  the events recorded for it.
\<close>

record post_state =
  pt_content :: gmap
  pt_generation :: int
  pt_object :: cr_object
  pt_status :: gmap
  pt_events :: "(string \<times> string \<times> string) list"

definition status_fields_of :: "post_box \<Rightarrow> string option \<Rightarrow> status_field list" where
  "status_fields_of box reconcileErr =
     (case pb_status box of
        None \<Rightarrow> []
      | Some fs \<Rightarrow>
          (if reconcileErr \<noteq> None then filter (\<lambda>f. length (sf_when f) > 0 \<or> length (sf_or f) > 0) fs else fs))"

text \<open>\<open>None\<close> is a panic.\<close>

definition applyStatus ::
  "status_api \<Rightarrow> goenv \<Rightarrow> gotime \<Rightarrow> string \<Rightarrow> post_input \<Rightarrow> resolver \<Rightarrow> string option \<Rightarrow> validation_result option \<Rightarrow>
   post_box \<Rightarrow> post_state \<Rightarrow> post_state option" where
  "applyStatus api E now clock inp r reconcileErr valResult box st =
     (if pi_skip_status inp then Some st
      else
        (let resolved = fst (ResolveStatusFields E now r (status_fields_of box reconcileErr) []);
             patch = status_patch E clock reconcileErr (pt_generation st) (pi_skip_generation inp) valResult
                       resolved (pi_status_patch inp)
         in case statusPatchNeeded True (pt_content st) patch of
              None \<Rightarrow> None
            | Some False \<Rightarrow> Some st
            | Some True \<Rightarrow> Some (st\<lparr>pt_status := fst (PatchStatus api patch (pt_status st))\<rparr>)))"

fun emit_on_loop :: "emit_trigger list \<Rightarrow> string option \<Rightarrow> bool" where
  "emit_on_loop [] err = False"
| "emit_on_loop (trigger # triggers) err =
     (if trigger = TriggerAlways then True
      else if trigger = TriggerSuccess \<and> err = None then True
      else if trigger = TriggerFailure \<and> err \<noteq> None then True
      else emit_on_loop triggers err)"

definition EmitOn :: "emit_entry \<Rightarrow> string option \<Rightarrow> bool" where
  "EmitOn e err = (if length (ee_on e) = 0 then True else emit_on_loop (ee_on e) err)"

definition emitted :: "goenv \<Rightarrow> gotime \<Rightarrow> resolver \<Rightarrow> string option \<Rightarrow> emit_entry option \<Rightarrow> (string \<times> string \<times> string) list" where
  "emitted E now r err entry =
     (case entry of
        None \<Rightarrow> []
      | Some e \<Rightarrow>
          (if \<not> EmitOn e err then []
           else if \<not> EvaluateConditions E now (rs_data r) (ee_when e) (ee_or e) (TemplateEvaluator (Some r)) then []
           else case Resolve r (ee_reason e) of
               None \<Rightarrow> []
             | Some reason \<Rightarrow>
                 (case Resolve r (ee_message e) of
                    None \<Rightarrow> []
                  | Some message \<Rightarrow> [(ee_type e, reason, message)])))"

definition applyEmit ::
  "goenv \<Rightarrow> gotime \<Rightarrow> post_input \<Rightarrow> resolver \<Rightarrow> post_box \<Rightarrow> string option \<Rightarrow> post_state \<Rightarrow> post_state" where
  "applyEmit E now inp r box err st =
     (case pb_emit box of
        None \<Rightarrow> st
      | Some entries \<Rightarrow>
          (if \<not> pi_recorder inp then st
           else st\<lparr>pt_events := pt_events st @ concat (map (\<lambda>(name, e). emitted E now r err e) entries)\<rparr>))"

definition AnnotationCrossMetrics :: string where "AnnotationCrossMetrics = ''inrun.dev/cross-metrics''"

definition AnnotationHealth :: string where "AnnotationHealth = ''inrun.dev/health''"

text \<open>\<open>marshal\<close> is \<^verbatim>\<open>json.Marshal\<close>.\<close>

definition InjectAnnotationToObject ::
  "(gmap \<Rightarrow> string option) \<Rightarrow> gmap \<Rightarrow> string \<Rightarrow> annotations option \<Rightarrow> annotations option" where
  "InjectAnnotationToObject marshal raw annotation ann =
     (case marshal raw of
        None \<Rightarrow> ann
      | Some b \<Rightarrow> Some ((case ann of None \<Rightarrow> Map.empty | Some a \<Rightarrow> a)(annotation \<mapsto> b)))"

definition annotation_text :: "annotations option \<Rightarrow> string \<Rightarrow> string" where
  "annotation_text ann k = (case ann of None \<Rightarrow> [] | Some a \<Rightarrow> (case a k of None \<Rightarrow> [] | Some v \<Rightarrow> v))"

definition injectRuntimeAnnotations ::
  "api_server \<Rightarrow> (gmap \<Rightarrow> string option) \<Rightarrow> post_input \<Rightarrow> cr_object \<Rightarrow> cr_object" where
  "injectRuntimeAnnotations api marshal inp obj =
     (let existing = cr_annotations obj;
          ann1 = (if pi_cross_access inp \<and> pi_metrics inp \<noteq> Map.empty
                  then InjectAnnotationToObject marshal (pi_metrics inp) AnnotationCrossMetrics existing else existing);
          ann2 = (if pi_health_enabled inp \<and> pi_health inp \<noteq> Map.empty
                  then InjectAnnotationToObject marshal (pi_health inp) AnnotationHealth ann1 else ann1);
          obj' = obj\<lparr>cr_annotations := ann2\<rparr>
      in if annotation_text ann2 AnnotationCrossMetrics = annotation_text existing AnnotationCrossMetrics \<and>
            annotation_text ann2 AnnotationHealth = annotation_text existing AnnotationHealth then obj'
         else fst (PatchAnnotations api (case ann2 of None \<Rightarrow> Map.empty | Some a \<Rightarrow> a) obj'))"

text \<open>\<open>kids\<close> is \<^verbatim>\<open>children.ReadChildren\<close>.\<close>

definition post_Apply ::
  "status_api \<Rightarrow> api_server \<Rightarrow> (gmap \<Rightarrow> string option) \<Rightarrow> (resolver \<Rightarrow> gmap) \<Rightarrow> goenv \<Rightarrow> gotime \<Rightarrow> string \<Rightarrow>
   post_input \<Rightarrow> resolver \<Rightarrow> post_box \<Rightarrow> string option \<Rightarrow> validation_result option \<Rightarrow> post_state \<Rightarrow> post_state option" where
  "post_Apply sapi api marshal kids E now clock inp r box reconcileErr valResult st =
     (let r1 = (if reconcileErr = None \<and> pb_templates box then with_key ''children'' (kids r) r else r);
          r2 = with_key ''metrics'' (pi_metrics inp) r1;
          r3 = with_key ''health'' (pi_health inp) r2;
          st1 = st\<lparr>pt_object := injectRuntimeAnnotations api marshal inp (pt_object st)\<rparr>
      in case applyStatus sapi E now clock inp r3 reconcileErr valResult box st1 of
           None \<Rightarrow> None
         | Some st2 \<Rightarrow> Some (applyEmit E now inp r3 box reconcileErr st2))"

section \<open>The API server's side of a status patch\<close>

text \<open>
  What a value is after JSON and the decoder of the API machinery: every number that is a 64-bit
  integer comes back as an int64.  \<open>merged\<close> is a JSON merge patch (RFC 7386).
\<close>

primrec stored :: "gval \<Rightarrow> gval" where
  "stored VNil = VNil"
| "stored (VStr s) = VStr s"
| "stored (VBool b) = VBool b"
| "stored (VInt k i) = VInt KInt64 i"
| "stored (VFloat k f) = (if is_int64_f f then (case f of FFin q \<Rightarrow> VInt KInt64 \<lfloor>q\<rfloor> | _ \<Rightarrow> VFloat KF64 f) else VFloat KF64 f)"
| "stored (VList xs) = VList (map stored xs)"
| "stored (VMap m) = VMap (\<lambda>k. map_option stored (m k))"
| "stored VChecker = VNil"

definition map_entries :: "gval option \<Rightarrow> gmap" where
  "map_entries t = (case t of Some (VMap m) \<Rightarrow> m | _ \<Rightarrow> Map.empty)"

lemma map_entries_map [simp]: "map_entries (Some (VMap m)) = m"
  by (simp add: map_entries_def)

primrec merged :: "gval \<Rightarrow> gval option \<Rightarrow> gval" where
  "merged VNil = (\<lambda>_. VNil)"
| "merged (VStr s) = (\<lambda>_. VStr s)"
| "merged (VBool b) = (\<lambda>_. VBool b)"
| "merged (VInt k i) = (\<lambda>_. VInt k i)"
| "merged (VFloat k f) = (\<lambda>_. VFloat k f)"
| "merged (VList xs) = (\<lambda>_. VList xs)"
| "merged (VMap p) = (\<lambda>target. VMap (\<lambda>k. case map_option merged (p k) of
       None \<Rightarrow> map_entries target k
     | Some f \<Rightarrow> (if p k = Some VNil then None else Some (f (map_entries target k)))))"
| "merged VChecker = (\<lambda>_. VChecker)"

definition merges_status :: "status_api \<Rightarrow> bool" where
  "merges_status api \<longleftrightarrow> (\<forall>old patch new. api old patch = Some new \<longrightarrow>
     VMap new = merged (stored (VMap (map_of patch))) (Some (VMap old)))"

lemma merges_statusD:
  assumes "merges_status api" "api old patch = Some new"
  shows "new k = (case map_of patch k of None \<Rightarrow> old k
     | Some v \<Rightarrow> if stored v = VNil then None else Some (merged (stored v) (old k)))"
proof -
  have "VMap new = merged (stored (VMap (map_of patch))) (Some (VMap old))"
    using assms by (simp add: merges_status_def)
  then show ?thesis
    by (cases "map_of patch k") (simp_all add: fun_eq_iff cong: option.case_cong)
qed

lemma merged_flat [simp]: "(\<And>m. v \<noteq> VMap m) \<Longrightarrow> merged v t = v"
  by (cases v) auto

lemma stored_map_iff: "stored v = VMap m \<longleftrightarrow> (\<exists>n. v = VMap n \<and> m = (\<lambda>k. map_option stored (n k)))"
  by (cases v) (auto split: f64.splits)

section \<open>Lemmas: the patch\<close>

lemma put_all_simps [simp]:
  "put_all [] p = p" "put_all ((k, v) # es) p = put_all es (AList.update k v p)"
  by (simp_all add: put_all_def)

lemma put_all_other [simp]: "k \<notin> fst ` set es \<Longrightarrow> map_of (put_all es p) k = map_of p k"
  by (induction es arbitrary: p) (auto simp: update_conv')

lemma put_all_distinct: "distinct (map fst p) \<Longrightarrow> distinct (map fst (put_all es p))"
  by (induction es arbitrary: p) (auto simp: distinct_update)

lemma update_set: "set (AList.update k v p) \<subseteq> insert (k, v) (set p)"
  by (induction p) auto

lemma put_all_set: "set (put_all es p) \<subseteq> set es \<union> set p"
  by (induction es arbitrary: p) (use update_set in fastforce)+

definition pass_conditions :: "goenv \<Rightarrow> string \<Rightarrow> string option \<Rightarrow> int \<Rightarrow> bool \<Rightarrow> validation_result option \<Rightarrow> gmap list" where
  "pass_conditions E clock err gen skip vr =
     [buildReadyCondition clock err gen skip, buildValidationCondition E clock vr,
      buildValidationWarningCondition E clock vr]"

definition standard_types :: "string list" where
  "standard_types = [''Ready'', ''ValidationFailed'', ''ValidationWarning'']"

lemma standard_lengths [simp]: "length (pass_conditions E c err gen skip vr) = 3" "length standard_types = 3"
  by (simp_all add: pass_conditions_def standard_types_def)

lemma condition_map_simps [simp]:
  "condition_map t s r m c ''type'' = Some (VStr t)" "condition_map t s r m c ''status'' = Some (VStr s)"
  "condition_map t s r m c ''reason'' = Some (VStr r)" "condition_map t s r m c ''message'' = Some (VStr m)"
  "condition_map t s r m c ''observedGeneration'' = None"
  by (simp_all add: condition_map_def)

lemma condition_type:
  "buildReadyCondition c err gen skip ''type'' = Some (VStr ''Ready'')"
  "buildValidationCondition E c vr ''type'' = Some (VStr ''ValidationFailed'')"
  "buildValidationWarningCondition E c vr ''type'' = Some (VStr ''ValidationWarning'')"
  by (simp_all add: buildReadyCondition_def buildValidationCondition_def buildValidationWarningCondition_def
      Let_def split: option.splits)

lemma condition_text:
  assumes "k \<in> {''status'', ''reason'', ''message''}"
  shows "\<exists>s. buildReadyCondition c err gen skip k = Some (VStr s)"
    and "\<exists>s. buildValidationCondition E c vr k = Some (VStr s)"
    and "\<exists>s. buildValidationWarningCondition E c vr k = Some (VStr s)"
  using assms
  by (auto simp: buildReadyCondition_def buildValidationCondition_def buildValidationWarningCondition_def
      Let_def split: option.splits)

lemma condition_clock:
  assumes "k \<in> {''status'', ''reason'', ''message''}"
  shows "buildReadyCondition c err gen skip k = buildReadyCondition c' err gen skip k"
    and "buildValidationCondition E c vr k = buildValidationCondition E c' vr k"
    and "buildValidationWarningCondition E c vr k = buildValidationWarningCondition E c' vr k"
  using assms
  by (auto simp: buildReadyCondition_def buildValidationCondition_def buildValidationWarningCondition_def
      Let_def split: option.splits)

lemma stored_condition_map: "stored (VMap (condition_map t s r m c)) = VMap (condition_map t s r m c)"
  by (auto simp: condition_map_def fun_eq_iff)

lemma stored_ready: "stored (VMap (buildReadyCondition c err gen skip)) = VMap (buildReadyCondition c err gen skip)"
  using stored_condition_map
  by (auto simp: buildReadyCondition_def Let_def fun_eq_iff simp del: not_None_eq split: option.splits)

lemma stored_conditions: "map stored (map VMap (pass_conditions E c err gen skip vr)) = map VMap (pass_conditions E c err gen skip vr)"
  using stored_condition_map stored_ready
  by (simp add: pass_conditions_def buildValidationCondition_def buildValidationWarningCondition_def Let_def
      del: stored.simps split: option.splits)

definition plain_entries :: "status_entries \<Rightarrow> bool" where
  "plain_entries es \<longleftrightarrow> ''conditions'' \<notin> fst ` set es \<and> ''observedGeneration'' \<notin> fst ` set es"

lemma status_patch_eq:
  "status_patch E c err gen skip vr resolved remote =
     put_all remote (put_all resolved ((''conditions'', VList (map VMap (pass_conditions E c err gen skip vr))) #
       (if skip then [] else [(''observedGeneration'', VInt KInt64 gen)])))"
  by (simp add: status_patch_def pass_conditions_def)

lemma patch_conditions:
  assumes "plain_entries resolved" "plain_entries remote"
  shows "map_of (status_patch E c err gen skip vr resolved remote) ''conditions'' =
      Some (VList (map VMap (pass_conditions E c err gen skip vr)))"
    and "map_of (status_patch E c err gen skip vr resolved remote) ''observedGeneration'' =
      (if skip then None else Some (VInt KInt64 gen))"
  using assms by (simp_all add: status_patch_eq plain_entries_def)

lemma patch_distinct: "distinct (map fst (status_patch E c err gen skip vr resolved remote))"
  unfolding status_patch_eq by (intro put_all_distinct) simp

lemma patch_entry:
  assumes "(k, v) \<in> set (status_patch E c err gen skip vr resolved remote)"
    "k \<noteq> ''conditions''" "k \<noteq> ''observedGeneration''"
  shows "(k, v) \<in> set resolved \<union> set remote"
proof -
  let ?base = "(''conditions'', VList (map VMap (pass_conditions E c err gen skip vr))) #
    (if skip then [] else [(''observedGeneration'', VInt KInt64 gen)])"
  have "set (put_all remote (put_all resolved ?base)) \<subseteq> set remote \<union> (set resolved \<union> set ?base)"
    using put_all_set [of remote "put_all resolved ?base"] put_all_set [of resolved ?base] by blast
  then show ?thesis using assms unfolding status_patch_eq by (auto split: if_splits)
qed

lemma by_type_standard:
  "conditions_by_type (map VMap (pass_conditions E c err gen skip vr)) [] =
     zip standard_types (pass_conditions E c err gen skip vr)"
  by (simp add: pass_conditions_def standard_types_def condition_type)

lemma differs_in_same:
  "(\<And>k. k \<in> set ks \<Longrightarrow> \<exists>s. dm k = Some (VStr s) \<and> ex k = Some (VStr s)) \<Longrightarrow> differs_in ks ex dm = Some False"
  by (induction ks) (force simp: field_or_nil_def)+

lemma differs_in_no_panic:
  "(\<And>k. k \<in> set ks \<Longrightarrow> \<exists>s. dm k = Some (VStr s)) \<Longrightarrow> differs_in ks ex dm \<noteq> None"
proof (induction ks)
  case (Cons k ks)
  then obtain s where s: "dm k = Some (VStr s)" by auto
  have "interface_eq v (VStr s) \<noteq> None" for v by (cases v) auto
  with s Cons show ?case by (auto simp: field_or_nil_def split: option.splits bool.splits)
qed simp

lemma standard_conditions_agree:
  "conditions_differ (zip standard_types (pass_conditions E c err gen skip vr))
     (map VMap (pass_conditions E c' err gen skip vr)) = Some False"
proof -
  have "differs_in [''status'', ''reason'', ''message''] (buildReadyCondition c err gen skip)
      (buildReadyCondition c' err gen skip) = Some False"
    by (rule differs_in_same) (metis condition_clock(1) condition_text(1) list.set(1,2))
  moreover have "differs_in [''status'', ''reason'', ''message''] (buildValidationCondition E c vr)
      (buildValidationCondition E c' vr) = Some False"
    by (rule differs_in_same) (metis condition_clock(2) condition_text(2) list.set(1,2))
  moreover have "differs_in [''status'', ''reason'', ''message''] (buildValidationWarningCondition E c vr)
      (buildValidationWarningCondition E c' vr) = Some False"
    by (rule differs_in_same) (metis condition_clock(3) condition_text(3) list.set(1,2))
  ultimately show ?thesis
    by (simp add: pass_conditions_def standard_types_def condition_type del: differs_in.simps)
qed

lemma standard_conditions_no_panic:
  "conditions_differ byType (map VMap (pass_conditions E c err gen skip vr)) \<noteq> None"
proof -
  have "differs_in [''status'', ''reason'', ''message''] ex d \<noteq> None"
    if "d \<in> set (pass_conditions E c err gen skip vr)" for ex d
    using that condition_text by (intro differs_in_no_panic) (auto simp: pass_conditions_def)
  then have "conditions_differ byType (map VMap ds) \<noteq> None"
    if "set ds \<subseteq> set (pass_conditions E c err gen skip vr)" for ds
    using that
  proof (induction ds)
    case (Cons d ds)
    then have "differs_in [''status'', ''reason'', ''message''] ex d \<noteq> None" for ex by simp
    with Cons show ?case
      by (simp del: differs_in.simps split: option.split bool.split) (metis not_None_eq)
  qed simp
  then show ?thesis by simp
qed

lemma standard_conditions_present:
  assumes "conditions_differ byType (map VMap (pass_conditions E c err gen skip vr)) = Some False"
  shows "set standard_types \<subseteq> fst ` set byType"
  using assms
  by (auto simp: pass_conditions_def standard_types_def condition_type simp del: differs_in.simps
      split: option.splits bool.splits dest!: map_of_SomeD intro: rev_image_eqI)

lemma conditions_by_type_keys:
  "fst ` set (conditions_by_type cs acc) = fst ` set acc \<union>
     {t. t \<noteq> [] \<and> (\<exists>m. VMap m \<in> set cs \<and> m ''type'' = Some (VStr t))}"
  by (induction cs acc rule: conditions_by_type.induct)
    (auto split: gval.splits option.splits simp: dom_update)

lemma conditions_by_type_distinct:
  "distinct (map fst acc) \<Longrightarrow> distinct (map fst (conditions_by_type cs acc))"
  by (induction cs acc rule: conditions_by_type.induct)
    (auto split: gval.splits option.splits simp: distinct_update)

section \<open>Lemmas: the next pass\<close>

text \<open>The status after an accepted patch, as the next pass reads it.\<close>

lemma next_status:
  assumes "merges_status api" "api old (status_patch E c err gen skip vr resolved remote) = Some new"
    and "plain_entries resolved" "plain_entries remote"
  shows "new ''conditions'' = Some (VList (map VMap (pass_conditions E c err gen skip vr)))"
    and "\<not> skip \<Longrightarrow> new ''observedGeneration'' = Some (VInt KInt64 gen)"
  using merges_statusD [OF assms(1,2)] patch_conditions [OF assms(3,4)] stored_conditions
  by simp_all

lemma next_pass_needs_patch:
  assumes "merges_status api" "api old (status_patch E c err gen skip vr resolved remote) = Some new"
    and "plain_entries resolved" "plain_entries remote"
  shows "statusPatchNeeded True (obj(''status'' \<mapsto> VMap new)) (status_patch E c' err gen skip vr resolved remote) =
    Some (list_ex (\<lambda>(k, v). k \<noteq> ''conditions'' \<and> k \<noteq> ''observedGeneration'' \<and>
      (case new k of None \<Rightarrow> True | Some ex \<Rightarrow> \<not> DeepEqual ex v))
      (status_patch E c' err gen skip vr resolved remote))"
proof -
  have "nested_status (obj(''status'' \<mapsto> VMap new)) k = new k" for k by (simp add: nested_status_def)
  then show ?thesis
    using next_status [OF assms] patch_conditions [OF assms(3,4)]
    by (simp add: statusPatchNeeded_def by_type_standard standard_conditions_agree Let_def cong: option.case_cong)
qed

text \<open>A value that comes back from the server as it was sent: no map, no whole-number float, no NaN.\<close>

definition settled_value :: "gval \<Rightarrow> bool" where
  "settled_value v \<longleftrightarrow> v \<noteq> VNil \<and> stored v = v \<and> DeepEqual v v \<and> (case v of VMap _ \<Rightarrow> False | _ \<Rightarrow> True)"

lemma put_all_cong: "map_of p k = map_of q k \<Longrightarrow> map_of (put_all es p) k = map_of (put_all es q) k"
  by (induction es arbitrary: p q) (auto simp: update_conv')

lemma patch_field:
  assumes "k \<noteq> ''conditions''" "k \<noteq> ''observedGeneration''"
  shows "map_of (status_patch E c err gen skip vr resolved remote) k = map_of (put_all remote (put_all resolved [])) k"
  unfolding status_patch_eq using assms by (intro put_all_cong) simp

text \<open>The entry of the patch under \<open>k\<close> decides whether the next pass patches on behalf of \<open>k\<close>.\<close>

lemma next_pass_field:
  assumes "merges_status api" "api old (status_patch E c err gen skip vr resolved remote) = Some new"
    and "k \<noteq> ''conditions''" "k \<noteq> ''observedGeneration''"
    and "map_of (put_all remote (put_all resolved [])) k = Some v"
  shows "new k = (if stored v = VNil then None else Some (merged (stored v) (old k)))"
  using merges_statusD [OF assms(1,2), of k] patch_field [OF assms(3,4)] assms(5) by simp

section \<open>Properties\<close>



lemma foreign_condition_needs_patch:
  assumes "nested_status obj ''conditions'' = Some (VList cs)" "VMap fc \<in> set cs" "fc ''type'' = Some (VStr t)"
    and "t \<noteq> []" "t \<notin> set standard_types" "plain_entries resolved" "plain_entries remote"
  shows "statusPatchNeeded True obj (status_patch E c err gen skip vr resolved remote) = Some True"
proof -
  let ?by = "conditions_by_type cs []" and ?three = "map VMap (pass_conditions E c err gen skip vr)"
  have keys: "t \<in> fst ` set ?by" using assms(2-4) by (auto simp: conditions_by_type_keys)
  have "conditions_differ ?by ?three \<noteq> Some False" if "length ?by = 3"
  proof
    assume "conditions_differ ?by ?three = Some False"
    then have "insert t (set standard_types) \<subseteq> fst ` set ?by"
      using standard_conditions_present keys by (metis insert_subset)
    then have "card (insert t (set standard_types)) \<le> card (fst ` set ?by)" by (intro card_mono) auto
    also have "card (fst ` set ?by) \<le> length ?by" by (metis card_length length_map set_map)
    finally show False using that assms(5) by (simp add: standard_types_def)
  qed
  then have "length ?by = 3 \<Longrightarrow> conditions_differ ?by ?three = Some True"
    using standard_conditions_no_panic [of ?by E c err gen skip vr] by (metis (full_types) not_None_eq)
  then show ?thesis
    by (cases "length ?by = 3")
      (simp_all add: statusPatchNeeded_def Let_def assms(1) patch_conditions [OF assms(6,7)])
qed

text \<open>
  C36. A condition that another writer put into the status does not survive a pass: the merge
  patch carries the whole list, so after the pass the list holds the three standard conditions
  and nothing else.
\<close>
theorem foreign_conditions_are_removed:
  assumes "merges_status api" "\<forall>p. api (pt_status st) p \<noteq> None" "\<not> pi_skip_status inp"
    and "nested_status (pt_content st) ''conditions'' = Some (VList cs)" "VMap fc \<in> set cs"
    and "fc ''type'' = Some (VStr t)" "t \<noteq> []" "t \<notin> set standard_types"
    and "plain_entries (fst (ResolveStatusFields E now r (status_fields_of box err) []))"
    and "plain_entries (pi_status_patch inp)"
  shows "\<exists>st'. applyStatus api E now clock inp r err vr box st = Some st' \<and>
    pt_status st' ''conditions'' =
      Some (VList (map VMap (pass_conditions E clock err (pt_generation st) (pi_skip_generation inp) vr)))"
proof -
  let ?p = "status_patch E clock err (pt_generation st) (pi_skip_generation inp) vr
    (fst (ResolveStatusFields E now r (status_fields_of box err) [])) (pi_status_patch inp)"
  obtain new where new: "api (pt_status st) ?p = Some new" using assms(2) by blast
  have "?p \<noteq> []" using patch_conditions(1) [OF assms(9,10)] by (metis map_of.simps(1) option.distinct(1))
  then have "PatchStatus api ?p (pt_status st) = (new, True)" by (simp add: PatchStatus_def new)
  then show ?thesis
    using assms(3) foreign_condition_needs_patch [OF assms(4-10), of E clock err "pt_generation st"
        "pi_skip_generation inp" vr] next_status(1) [OF assms(1) new assms(9,10)]
    by (simp add: applyStatus_def Let_def)
qed

lemma truncateMessage_bound: "length (truncateMessage msg) \<le> 256"
  by (simp add: truncateMessage_def)

lemma setNestedStatusField_keys:
  "fst ` set (setNestedStatusField dst path v) \<subseteq> insert (hd (split_dot path)) (fst ` set dst)"
  by (auto simp: setNestedStatusField_def dom_update Let_def split: list.splits)

lemma resolve_field_keys:
  "fst ` set (fst (resolve_status_field E now r f dst)) \<subseteq> insert (hd (split_dot (sf_path f))) (fst ` set dst)"
  using setNestedStatusField_keys [of dst "sf_path f"]
  by (auto simp: resolve_status_field_def split: option.splits)

lemma resolved_keys:
  "fst ` set (fst (ResolveStatusFields E now r fs dst)) \<subseteq> fst ` set dst \<union> (\<lambda>f. hd (split_dot (sf_path f))) ` set fs"
proof (induction fs arbitrary: dst)
  case (Cons f fs)
  show ?case
    using resolve_field_keys [of E now r f dst] Cons [of "fst (resolve_status_field E now r f dst)"]
    by (simp add: Let_def case_prod_beta) blast
qed simp


text \<open>
  Of two entries for the same path the later one wins also when its conditions do not hold: with
  \<^verbatim>\<open>clearOnFalse\<close> it clears the value the earlier entry wrote in the same pass.
\<close>

lemma later_entry_clears_field:
  assumes "sf_path f = k" "sf_path g = k" "split_dot k = [k]" "k \<noteq> []" "sf_clear_on_false g" "sf_when g \<noteq> []"
    and "\<not> EvaluateConditions E now (rs_data r) (sf_when g) (sf_or g) (TemplateEvaluator (Some r))"
  shows "map_of (fst (ResolveStatusFields E now r [f, g] dst)) k = Some (VStr [])"
  using assms by (simp add: resolve_status_field_def setNestedStatusField_def Let_def case_prod_beta update_conv')

section \<open>The server of the witnesses\<close>

definition sample_status_api :: status_api where
  "sample_status_api old patch = Some (map_entries (Some (merged (stored (VMap (map_of patch))) (Some (VMap old)))))"

lemma sample_merges: "merges_status sample_status_api"
  by (simp add: merges_status_def sample_status_api_def)

definition phase_field :: status_entries where "phase_field = [(''phase'', VStr ''Running'')]"

definition sample_post_input :: post_input where
  "sample_post_input =
     \<lparr>pi_skip_status = False, pi_skip_generation = False, pi_cross_access = True, pi_health_enabled = True,
      pi_recorder = True, pi_metrics = Map.empty, pi_health = Map.empty, pi_status_patch = []\<rparr>"

definition other_condition :: gmap where
  "other_condition = [''type'' \<mapsto> VStr ''BackupDone'', ''status'' \<mapsto> VStr ''True'']"

definition sample_post_state :: post_state where
  "sample_post_state =
     \<lparr>pt_content = [''status'' \<mapsto> VMap [''conditions'' \<mapsto> VList [VMap other_condition]]], pt_generation = 3,
      pt_object = pr_object (sample_prepared []),
      pt_status = [''conditions'' \<mapsto> VList [VMap other_condition]], pt_events = []\<rparr>"

definition sample_post_box :: post_box where
  "sample_post_box = \<lparr>pb_templates = False, pb_status = None, pb_emit = None\<rparr>"



theorem foreign_conditions_are_removed_witness:
  "\<exists>st'. applyStatus sample_status_api sample_env (sample_time 9 0) ''t1'' sample_post_input (plain_resolver Map.empty)
      None None sample_post_box sample_post_state = Some st' \<and>
    pt_status st' ''conditions'' = Some (VList (map VMap (pass_conditions sample_env ''t1'' None 3 False None)))"
  using foreign_conditions_are_removed [OF sample_merges, of sample_post_state sample_post_input "[VMap other_condition]"
      other_condition "''BackupDone''" sample_env "sample_time 9 0" "plain_resolver Map.empty" sample_post_box None
      "''t1''" None]
  by (simp add: sample_status_api_def sample_post_state_def sample_post_input_def sample_post_box_def
      nested_status_def other_condition_def standard_types_def status_fields_of_def plain_entries_def)

end
