(* ===== verification/Prepare.thy ===== *)
theory Prepare
  imports Cross Mutation Namespaces Gates Worker
begin

text \<open>
  The prepare stage (\<^verbatim>\<open>coordinator/prepare/prepare.go\<close>): the resource from the cache, the
  namespace guard, normalization, the enrichment of the resolver, mutation and validation, in the
  order of the code.
\<close>

section \<open>Surroundings\<close>

text \<open>
  What a CRD declares for the stage.  \<open>px_box\<close> is \<^verbatim>\<open>EffectiveOperatorBox\<close> of a target.
\<close>

record prepare_box =
  px_cross :: "observe_decl list"
  px_cleanup :: "cleanup_config option"

record prepare_crd =
  px_api_version :: string
  px_kind :: string
  px_restricted :: "string list"
  px_allowed :: "string list"
  px_normalize :: "normalize_config option"
  px_hooks_external :: "external_call list"
  px_mutation :: "mutation_config option"
  px_mutate_first_flag :: bool
  px_validation :: "validation_config option"
  px_box :: "string \<Rightarrow> prepare_box"

text \<open>
  The cached resource: its content, name and namespace, and the object the later stages use.
\<close>

record cached_object =
  ca_content :: gmap
  ca_name :: string
  ca_namespace :: string
  ca_object :: cr_object

datatype cache_reply = NoInformer | NotCached | NotAnObject | Cached cached_object

text \<open>
  The surroundings: run-time, YAML, template execution, JSON, API server, external calls, the
  registry of running CRDs and HTTP, and what profiles and user notes make of a resolver.
\<close>

record prepare_env =
  pe_env :: goenv
  pe_now :: gotime
  pe_yaml :: "string \<Rightarrow> gval option"
  pe_exec :: "string \<Rightarrow> gmap \<Rightarrow> string option"
  pe_inrun :: gval
  pe_decode :: "string \<Rightarrow> gmap option"
  pe_marshal_ok :: "gmap \<Rightarrow> bool"
  pe_patch :: "gmap \<Rightarrow> patch_reply"
  pe_run_ext :: external_runner
  pe_registry :: "running_crd list option"
  pe_http :: cross_http
  pe_enrich :: "resolver \<Rightarrow> resolver"

section \<open>Steps\<close>

definition HasNamespaceRules :: "prepare_crd \<Rightarrow> bool" where
  "HasNamespaceRules crd \<longleftrightarrow> length (px_allowed crd) > 0 \<or> length (px_restricted crd) > 0"

definition HasMutationRules :: "prepare_crd \<Rightarrow> bool" where
  "HasMutationRules crd = (case px_mutation crd of None \<Rightarrow> False | Some m \<Rightarrow> length (mc_rules m) > 0)"

definition HasValidationRules :: "prepare_crd \<Rightarrow> bool" where
  "HasValidationRules crd = (case px_validation crd of None \<Rightarrow> False | Some v \<Rightarrow> length (vc_rules v) > 0)"

definition ShouldMutateFirst :: "prepare_crd \<Rightarrow> bool" where
  "ShouldMutateFirst crd = (if px_mutation crd \<noteq> None then px_mutate_first_flag crd else True)"

text \<open>Watch events sometimes come without their type.\<close>

definition fix_gvk :: "prepare_crd \<Rightarrow> gmap \<Rightarrow> gmap" where
  "fix_gvk crd content =
     (if (case content ''kind'' of Some (VStr s) \<Rightarrow> s | _ \<Rightarrow> []) = [] \<and>
         (case content ''apiVersion'' of Some (VStr s) \<Rightarrow> s | _ \<Rightarrow> []) = []
      then content(''apiVersion'' \<mapsto> VStr (px_api_version crd), ''kind'' \<mapsto> VStr (px_kind crd))
      else content)"

definition effectiveBoxAndTarget :: "prepare_crd \<Rightarrow> cr_object \<Rightarrow> prepare_box \<times> string" where
  "effectiveBoxAndTarget crd obj =
     (let target = (case cr_annotations obj of None \<Rightarrow> [] | Some ann \<Rightarrow> Target ann)
      in (px_box crd target, target))"

text \<open>\<^verbatim>\<open>ResolveAnnotationFromObject\<close> and the intent it reads.\<close>

definition ResolveAnnotationFromObject :: "(string \<Rightarrow> gmap option) \<Rightarrow> gmap \<Rightarrow> string \<Rightarrow> gmap option" where
  "ResolveAnnotationFromObject decode obj annotation =
     (case sub_object (meta_map obj) ''annotations'' of
        None \<Rightarrow> None
      | Some an \<Rightarrow>
          (case an annotation of
             Some (VStr s) \<Rightarrow> (if s = [] then None else decode s)
           | _ \<Rightarrow> None))"

definition FromObject :: "(string \<Rightarrow> gmap option) \<Rightarrow> gmap \<Rightarrow> gmap option" where
  "FromObject decode obj = ResolveAnnotationFromObject decode obj ''inrun.dev/serve-intent''"

definition WithNormalizeChanges :: "normalize_change list \<Rightarrow> resolver \<Rightarrow> resolver" where
  "WithNormalizeChanges changes r =
     (if length changes = 0 then r
      else r\<lparr>rs_data := (rs_data r)(''_normalizeChanges'' \<mapsto> VList (map (\<lambda>c.
        VMap [''field'' \<mapsto> VStr (nch_field c), ''from'' \<mapsto> nch_from c, ''to'' \<mapsto> nch_to c]) changes))\<rparr>)"

definition WithUniquenessChecker :: "resolver \<Rightarrow> resolver" where
  "WithUniquenessChecker r = r\<lparr>rs_data := (rs_data r)(uniquenessCheckerKey \<mapsto> VChecker)\<rparr>"

text \<open>
  \<^verbatim>\<open>liveUniquenessChecker\<close>: the resources of the CRD in all namespaces as (namespace, name,
  content), or \<open>None\<close> when they cannot be listed.
\<close>

fun unique_loop :: "goenv \<Rightarrow> string \<Rightarrow> string \<Rightarrow> string \<Rightarrow> string \<Rightarrow> (string \<times> string \<times> gmap) list \<Rightarrow> bool" where
  "unique_loop E field v selfNamespace selfName [] = True"
| "unique_loop E field v selfNamespace selfName ((ns, name, content) # items) =
     (if ns = selfNamespace \<and> name = selfName then unique_loop E field v selfNamespace selfName items
      else case ResolveScalarField E content field of
             (val, found) \<Rightarrow>
               (if found \<and> val = v then False else unique_loop E field v selfNamespace selfName items))"

definition IsUnique ::
  "goenv \<Rightarrow> (string \<times> string \<times> gmap) list option \<Rightarrow> string \<Rightarrow> string \<Rightarrow> string \<Rightarrow> string \<Rightarrow> bool option" where
  "IsUnique E items field v selfNamespace selfName =
     map_option (unique_loop E field v selfNamespace selfName) items"

section \<open>The stage\<close>

datatype prepare_error =
    UnexpectedType | NormalizeFailed normalize_error | HooksExternalFailed string | Denied string

record prepared_object =
  pd_content :: gmap
  pd_resolver :: resolver
  pd_target :: string
  pd_box :: prepare_box
  pd_object :: cr_object
  pd_shares_cache :: bool      \<comment> \<open>it is the object of the informer cache, not a copy\<close>

datatype prepare_result =
    Skipped | Failed prepare_error "validation_result option" | PreparePanicked
  | Prepared prepared_object "validation_result option"

text \<open>The patch of a mutation is sent whatever comes after it; its error is dropped.\<close>

definition mutate_if ::
  "prepare_env \<Rightarrow> prepare_crd \<Rightarrow> bool \<Rightarrow> resolver \<Rightarrow> resolver \<times> gmap list" where
  "mutate_if pe crd b r =
     (if HasMutationRules crd \<and> b then
        (case applyMutation (pe_env pe) (pe_now pe) (pe_marshal_ok pe) (pe_patch pe) (pe_run_ext pe) r (px_mutation crd) of
           (r', sent, _) \<Rightarrow> (r', case sent of None \<Rightarrow> [] | Some p \<Rightarrow> [p]))
      else (r, []))"

definition validate_if ::
  "prepare_env \<Rightarrow> prepare_crd \<Rightarrow> resolver \<Rightarrow> resolver \<times> validation_result option \<times> string option" where
  "validate_if pe crd r =
     (if HasValidationRules crd then applyValidation (pe_env pe) (pe_now pe) (pe_run_ext pe) r (px_validation crd)
      else (r, None, None))"

text \<open>Steps 8 to 10: the result and the patches sent.\<close>

definition admit_resource ::
  "prepare_env \<Rightarrow> prepare_crd \<Rightarrow> (resolver \<Rightarrow> prepared_object) \<Rightarrow> resolver \<Rightarrow> prepare_result \<times> gmap list" where
  "admit_resource pe crd mk r =
     (case mutate_if pe crd (ShouldMutateFirst crd) r of
        (r1, sent1) \<Rightarrow>
          (case validate_if pe crd r1 of
             (r2, valResult, Some e) \<Rightarrow> (Failed (Denied e) valResult, sent1)
           | (r2, valResult, None) \<Rightarrow>
               (case mutate_if pe crd (\<not> ShouldMutateFirst crd) r2 of
                  (r3, sent2) \<Rightarrow> (Prepared (mk r3) valResult, sent1 @ sent2))))"

definition Prepare :: "prepare_env \<Rightarrow> prepare_crd \<Rightarrow> cache_reply \<Rightarrow> prepare_result \<times> gmap list" where
  "Prepare pe crd reply =
     (case reply of
        NoInformer \<Rightarrow> (Skipped, [])
      | NotCached \<Rightarrow> (Skipped, [])
      | NotAnObject \<Rightarrow> (Failed UnexpectedType None, [])
      | Cached c \<Rightarrow>
          (let content = fix_gvk crd (ca_content c) in
           if HasNamespaceRules crd \<and> \<not> cr_deleting (ca_object c) \<and>
              \<not> ng_allowed (CheckNamespace (ca_namespace c) (px_restricted crd) (px_allowed crd))
           then (Skipped, [])
           else case effectiveBoxAndTarget crd (ca_object c) of (box, target) \<Rightarrow>
             (case applyNormalize (pe_env pe) (pe_yaml pe) (pe_exec pe) (pe_inrun pe) True (px_normalize crd) content of
                Inl e \<Rightarrow> (Failed (NormalizeFailed e) None, [])
              | Inr (normalized, r0, changes) \<Rightarrow>
                  (let r1 = pe_enrich pe (WithNormalizeChanges changes r0);
                       r2 = (case FromObject (pe_decode pe) (rs_data r1) of None \<Rightarrow> r1 | Some req \<Rightarrow> with_key ''request'' req r1);
                       r3 = WithUniquenessChecker r2
                   in case (if length (px_hooks_external crd) > 0 then pe_run_ext pe r3 (px_hooks_external crd) else (r3, None)) of
                        (r4, Some e) \<Rightarrow> (Failed (HooksExternalFailed e) None, [])
                      | (r4, None) \<Rightarrow>
                          (case (case pe_registry pe of
                                   None \<Rightarrow> Some []
                                 | Some reg \<Rightarrow> readCross (pe_env pe) reg (pe_http pe) r4 (ca_namespace c) (px_cross box) []) of
                             None \<Rightarrow> (PreparePanicked, [])
                           | Some cross \<Rightarrow>
                               admit_resource pe crd
                                 (\<lambda>r. \<lparr>pd_content = normalized, pd_resolver = r, pd_target = target, pd_box = box,
                                       pd_object = ca_object c,
                                       pd_shares_cache = (case px_normalize crd of None \<Rightarrow> True | Some nc \<Rightarrow> nc_spec nc = [])\<rparr>)
                                 (with_key ''cross'' (map_of cross) r4))))))"

text \<open>What the worker sees of the stage; \<open>txt\<close> is the text of an error.\<close>

definition prepare_outcome :: "(prepare_error \<Rightarrow> string) \<Rightarrow> prepare_result \<Rightarrow> (string + prepared_request option) option" where
  "prepare_outcome txt res =
     (case res of
        Skipped \<Rightarrow> Some (Inr None)
      | Failed e _ \<Rightarrow> Some (Inl (txt e))
      | PreparePanicked \<Rightarrow> None
      | Prepared p _ \<Rightarrow>
          Some (Inr (Some \<lparr>pr_object = pd_object p, pr_cleanup = px_cleanup (pd_box p), pr_data = rs_data (pd_resolver p),
                           pr_eval = TemplateEvaluator (Some (pd_resolver p))\<rparr>)))"

section \<open>Lemmas: uniqueness\<close>

lemma unique_loop_iff:
  "unique_loop E field v selfNamespace selfName items \<longleftrightarrow>
     (\<forall>(ns, name, content) \<in> set items. (ns, name) \<noteq> (selfNamespace, selfName) \<longrightarrow>
        ResolveScalarField E content field \<noteq> (v, True))"
  by (induction items) (auto split: prod.splits)

section \<open>Lemmas: mutation and the verdict\<close>

definition without_calls :: "prepare_crd \<Rightarrow> bool" where
  "without_calls crd \<longleftrightarrow> (case px_mutation crd of None \<Rightarrow> True | Some m \<Rightarrow> mutation_reconcile_external m = [])"

lemma mutate_if_resolver: "without_calls crd \<Longrightarrow> fst (mutate_if pe crd b r) = r"
  by (auto simp: mutate_if_def applyMutation_def without_calls_def HasMutationRules_def Let_def
      split: option.splits sum.splits prod.splits)

lemma mutate_if_none [simp]: "px_mutation crd = None \<Longrightarrow> mutate_if pe crd b r = (r, [])"
  by (simp add: mutate_if_def HasMutationRules_def)

lemma admit_resource_verdict:
  "without_calls crd \<Longrightarrow>
   fst (admit_resource pe crd mk r) =
     (case validate_if pe crd r of
        (r2, valResult, Some e) \<Rightarrow> Failed (Denied e) valResult
      | (r2, valResult, None) \<Rightarrow> Prepared (mk r2) valResult)"
  using mutate_if_resolver [of crd pe]
  by (auto simp: admit_resource_def case_prod_beta Let_def split: option.split)

lemma without_mutation [simp]:
  "without_calls (crd\<lparr>px_mutation := None\<rparr>)"
  "HasNamespaceRules (crd\<lparr>px_mutation := None\<rparr>) = HasNamespaceRules crd"
  "fix_gvk (crd\<lparr>px_mutation := None\<rparr>) = fix_gvk crd"
  "effectiveBoxAndTarget (crd\<lparr>px_mutation := None\<rparr>) = effectiveBoxAndTarget crd"
  "validate_if pe (crd\<lparr>px_mutation := None\<rparr>) = validate_if pe crd"
  by (simp_all add: without_calls_def HasNamespaceRules_def fix_gvk_def effectiveBoxAndTarget_def
      validate_if_def HasValidationRules_def fun_eq_iff)

text \<open>What the stage hands on is the object of the cache itself unless a normalize block copies it.\<close>

lemma admit_prepared:
  "fst (admit_resource pe crd mk r) = Prepared p v \<Longrightarrow> \<exists>r'. p = mk r'"
  by (auto simp: admit_resource_def case_prod_beta Let_def split: option.splits)

lemma Prepare_shares_cache:
  assumes "fst (Prepare pe crd (Cached c)) = Prepared p v"
  shows "pd_object p = ca_object c \<and> (px_normalize crd = None \<longrightarrow> pd_shares_cache p)"
  using assms by (auto simp: Prepare_def Let_def case_prod_beta dest!: admit_prepared
      split: if_splits sum.splits option.splits)

lemma admit_not_skipped: "fst (admit_resource pe crd mk r) \<noteq> Skipped"
  by (auto simp: admit_resource_def case_prod_beta Let_def split: option.splits)

lemma validation_verdict_without_mutation:
  assumes "without_calls crd"
  shows "fst (Prepare pe crd reply) = fst (Prepare pe (crd\<lparr>px_mutation := None\<rparr>) reply)"
  by (simp add: Prepare_def Let_def case_prod_beta admit_resource_verdict assms
      split: cache_reply.split sum.split option.split)

text \<open>A result that is handed on never denies: a denial ends the stage with its error.\<close>

lemma admit_prepared_result:
  "fst (admit_resource pe crd mk r) = Prepared p (Some v) \<Longrightarrow> \<not> vr_deny v"
  by (auto simp: admit_resource_def validate_if_def applyValidation_def DenialError_def case_prod_beta Let_def
      split: option.splits if_splits)

lemma Prepare_prepared_result:
  "fst (Prepare pe crd reply) = Prepared p (Some v) \<Longrightarrow> \<not> vr_deny v"
  by (auto simp: Prepare_def Let_def case_prod_beta dest!: admit_prepared_result
      split: cache_reply.splits if_splits sum.splits option.splits)

section \<open>Lemmas: a resource in deletion\<close>

definition in_deletion :: "cached_object \<Rightarrow> cached_object" where
  "in_deletion c = c\<lparr>ca_object := (ca_object c)\<lparr>cr_deleting := True\<rparr>\<rparr>"

lemma in_deletion_simps [simp]:
  "ca_content (in_deletion c) = ca_content c" "ca_namespace (in_deletion c) = ca_namespace c"
  "cr_deleting (ca_object (in_deletion c))"
  "effectiveBoxAndTarget crd (ca_object (in_deletion c)) = effectiveBoxAndTarget crd (ca_object c)"
  by (simp_all add: in_deletion_def effectiveBoxAndTarget_def)

text \<open>A result up to the object that it hands on, which is replaced by \<open>ob\<close>.\<close>

definition without_object :: "cr_object \<Rightarrow> prepare_result \<Rightarrow> prepare_result" where
  "without_object ob res =
     (case res of Prepared p v \<Rightarrow> Prepared (p\<lparr>pd_object := ob\<rparr>) v | _ \<Rightarrow> res)"

lemma admit_without_object:
  "(\<And>r. mk r\<lparr>pd_object := ob\<rparr> = mk' r\<lparr>pd_object := ob\<rparr>) \<Longrightarrow>
   without_object ob (fst (admit_resource pe crd mk r)) = without_object ob (fst (admit_resource pe crd mk' r))"
  by (simp add: admit_resource_def without_object_def case_prod_beta Let_def split: option.split)

lemma Prepare_in_deletion:
  "fst (Prepare pe crd (Cached c)) \<noteq> Skipped \<Longrightarrow>
   without_object ob (fst (Prepare pe crd (Cached (in_deletion c)))) = without_object ob (fst (Prepare pe crd (Cached c)))"
  by (auto simp: Prepare_def case_prod_beta Let_def intro!: admit_without_object
      split: sum.split option.split if_splits)

lemma denied_in_deletion:
  "fst (Prepare pe crd (Cached c)) = Failed (Denied d) v \<Longrightarrow>
   fst (Prepare pe crd (Cached (in_deletion c))) = Failed (Denied d) v"
  using Prepare_in_deletion [of pe crd c "ca_object c"]
  by (auto simp: without_object_def split: prepare_result.splits)

section \<open>Theorems\<close>

text \<open>
  C12. The order of mutation and validation has no effect on a reconcile: as long as the mutation
  block makes no external calls at reconcile time, the verdict on a resource, the object and the
  resolver handed on and the error are those of the CRD without its mutation block, so the
  rules validate the values from before the mutation even where it is declared to run first.
\<close>
theorem validation_ignores_mutation:
  assumes "without_calls crd"
  shows "fst (Prepare pe crd reply) = fst (Prepare pe (crd\<lparr>px_mutation := None\<rparr>) reply)"
  using assms by (rule validation_verdict_without_mutation)

text \<open>
  C35. The prepare stage drops an item without an error exactly when the resource is not in the
  cache, or when the namespace rules refuse its namespace and it is not being deleted; the
  deletion of a resource is never held back by the namespace rules.
\<close>
theorem prepare_skips_exactly_the_refused:
  "fst (Prepare pe crd reply) = Skipped \<longleftrightarrow>
     (case reply of
        Cached c \<Rightarrow> \<not> cr_deleting (ca_object c) \<and>
          (list_ex (MatchesPattern (ca_namespace c)) (px_restricted crd) \<or>
           (px_allowed crd \<noteq> [] \<and> \<not> list_ex (MatchesPattern (ca_namespace c)) (px_allowed crd)))
      | NotAnObject \<Rightarrow> False | _ \<Rightarrow> True)"
  using admit_not_skipped
  by (auto simp: Prepare_def Let_def case_prod_beta HasNamespaceRules_def CheckNamespace_def IsRestricted_iff
      IsAllowed_iff split: cache_reply.split sum.split option.split if_splits)

section \<open>The resource of the witnesses\<close>

text \<open>
  A default of \<open>2\<close> for \<open>spec.replicas\<close>, declared to be set before the rule that denies a resource
  without the field.
\<close>

definition replicas_required :: "validation_action \<Rightarrow> validation_config" where
  "replicas_required a = \<lparr>vc_external = [], vc_rules =
     [no_rule\<lparr>v_field := ''spec.replicas'', v_operator := OpExists, v_action := a\<rparr>]\<rparr>"

definition replicas_crd :: "validation_action \<Rightarrow> prepare_crd" where
  "replicas_crd a =
     \<lparr>px_api_version = ''shop/v1'', px_kind = ''Db'', px_restricted = [''kube-*''], px_allowed = [], px_normalize = None,
      px_hooks_external = [], px_mutation = Some \<lparr>mc_external = [], mc_rules = [replicas_rule]\<rparr>,
      px_mutate_first_flag = True, px_validation = Some (replicas_required a),
      px_box = (\<lambda>_. \<lparr>px_cross = [], px_cleanup = None\<rparr>)\<rparr>"

definition sample_prepare_env :: prepare_env where
  "sample_prepare_env =
     \<lparr>pe_env = sample_env, pe_now = sample_time 9 0, pe_yaml = (\<lambda>_. None), pe_exec = (\<lambda>_ _. None), pe_inrun = VNil,
      pe_decode = (\<lambda>_. None), pe_marshal_ok = (\<lambda>_. True), pe_patch = (\<lambda>_. PatchAccepted),
      pe_run_ext = (\<lambda>r _. (r, None)), pe_registry = None, pe_http = (\<lambda>_. None), pe_enrich = (\<lambda>r. r)\<rparr>"

definition bare_resource :: cached_object where
  "bare_resource =
     \<lparr>ca_content = Map.empty, ca_name = ''db'', ca_namespace = ''shop'',
      ca_object = \<lparr>cr_key = ''shop/db'', cr_annotations = None, cr_deleting = False, cr_server = Map.empty,
        cr_deleted = False\<rparr>\<rparr>"

lemma replicas_missing:
  assumes "rs_data r ''spec'' = None" "rs_exec r = (\<lambda>_ _. None)"
  shows "\<exists>rv. runValidation sample_env (sample_time 9 0) (rs_data r) (Some r) (Some (replicas_required a)) =
    record_violation (EffectiveAction a) rv empty_result"
proof -
  let ?rule = "no_rule\<lparr>v_field := ''spec.replicas'', v_operator := OpExists, v_action := a\<rparr>"
  from assms(1) have "ResolveScalarField sample_env (rs_data r) ''spec.replicas'' = ([], False)"
    by (simp add: ResolveScalarField_def)
  moreover have "ResolveValidationOp ?rule = (OpExists, [])"
    by (simp add: ResolveValidationOp_def no_rule_def)
  ultimately obtain rv where "EvaluateValidationRule sample_env (rs_data r) (Some r) ?rule = Some rv"
    using assms(2)
    by (simp add: EvaluateValidationRule_def rule_field_value_def resolve_template_def Resolve_def resolve_def
        IsTemplate_def str_contains_def str_has_prefix_def no_rule_def Let_def)
  then show ?thesis
    by (auto simp: runValidation_def replicas_required_def validate_step_def FiresAtReconcile_def no_rule_def
        EvaluateConditions_def)
qed

lemma replicas_verdict:
  assumes "rs_data r ''spec'' = None" "rs_exec r = (\<lambda>_ _. None)"
  shows "\<exists>v e. validate_if sample_prepare_env (replicas_crd ActDeny) r = (r, v, Some e)"
    and "\<exists>v. validate_if sample_prepare_env (replicas_crd ActWarn) r = (r, Some v, None) \<and> vr_violations v \<noteq> []"
  using replicas_missing [OF assms, of ActDeny] replicas_missing [OF assms, of ActWarn]
  by (auto simp: validate_if_def HasValidationRules_def replicas_crd_def applyValidation_def HasAnyRules_def
      ReconcileExternal_def replicas_required_def sample_prepare_env_def DenialError_def record_violation_def
      EffectiveAction_def empty_result_def Let_def)

lemma replicas_prepared:
  assumes "crd = replicas_crd a \<or> crd = replicas_crd a\<lparr>px_mutation := None\<rparr>"
  shows "\<exists>mk r. rs_data r ''spec'' = None \<and> rs_exec r = (\<lambda>_ _. None) \<and>
    fst (Prepare sample_prepare_env crd (Cached bare_resource)) = fst (admit_resource sample_prepare_env crd mk r)"
proof -
  let ?r = "with_key ''cross'' Map.empty (WithUniquenessChecker (NewResolver (\<lambda>_ _. None) VNil
      (fix_gvk crd Map.empty)))"
  have none: "px_normalize crd = None" "px_hooks_external crd = []" "px_restricted crd = [''kube-*'']"
      "px_allowed crd = []"
    using assms by (auto simp: replicas_crd_def)
  have "FromObject (\<lambda>_. None) d = None" for d
    by (auto simp: FromObject_def ResolveAnnotationFromObject_def split: option.split gval.split)
  then have "\<exists>mk. fst (Prepare sample_prepare_env crd (Cached bare_resource)) =
      fst (admit_resource sample_prepare_env crd mk ?r)"
    by (auto simp: Prepare_def none HasNamespaceRules_def CheckNamespace_def bare_resource_def MatchesPattern_def
        str_has_prefix_def str_has_suffix_def trim_suffix_def trim_prefix_def applyNormalize_def
        sample_prepare_env_def WithNormalizeChanges_def NewResolver_def case_prod_beta Let_def)
  moreover have "rs_data ?r ''spec'' = None" "rs_exec ?r = (\<lambda>_ _. None)"
    by (simp_all add: with_key_def WithUniquenessChecker_def NewResolver_def resolver_data_def fix_gvk_def
        uniquenessCheckerKey_def)
  ultimately show ?thesis by blast
qed

lemma replicas_without_calls: "without_calls (replicas_crd a)"
  by (simp add: without_calls_def replicas_crd_def mutation_reconcile_external_def)

lemma replicas_denied:
  "\<exists>d v. fst (Prepare sample_prepare_env (replicas_crd ActDeny\<lparr>px_mutation := None\<rparr>) (Cached bare_resource)) =
    Failed (Denied d) v"
proof -
  let ?crd = "replicas_crd ActDeny\<lparr>px_mutation := None\<rparr>"
  obtain mk r where r: "rs_data r ''spec'' = None" "rs_exec r = (\<lambda>_ _. None)"
    "fst (Prepare sample_prepare_env ?crd (Cached bare_resource)) = fst (admit_resource sample_prepare_env ?crd mk r)"
    using replicas_prepared [of ?crd ActDeny] by auto
  then show ?thesis using replicas_verdict(1) [of r] by (auto simp: admit_resource_verdict)
qed

lemma replicas_warned:
  "\<exists>p v. fst (Prepare sample_prepare_env (replicas_crd ActWarn) (Cached bare_resource)) = Prepared p (Some v) \<and>
    vr_violations v \<noteq> []"
proof -
  let ?crd = "replicas_crd ActWarn"
  obtain mk r where r: "rs_data r ''spec'' = None" "rs_exec r = (\<lambda>_ _. None)"
    "fst (Prepare sample_prepare_env ?crd (Cached bare_resource)) = fst (admit_resource sample_prepare_env ?crd mk r)"
    using replicas_prepared [of ?crd ActWarn] by auto
  then show ?thesis
    using replicas_verdict(2) [of r] by (auto simp: admit_resource_verdict replicas_without_calls)
qed

theorem validation_ignores_mutation_witness:
  "ShouldMutateFirst (replicas_crd ActDeny) \<and>
   (\<exists>d v. fst (Prepare sample_prepare_env (replicas_crd ActDeny) (Cached bare_resource)) = Failed (Denied d) v)"
  using replicas_denied validation_ignores_mutation [OF replicas_without_calls, of sample_prepare_env]
  by (simp add: ShouldMutateFirst_def replicas_crd_def)

end
