(* ===== verification/Spec2Isabelle.thy ===== *)
theory Spec2Isabelle
  imports GoPrelude GoLib CondStrings GoValues NestedPaths Conditions Validation Mutation Dependencies
    WorkQueue Semaphore Autoscaler Health Worker Namespaces Gates Informer Lifecycle Drain
    Maintain Deletion Cross Post Prepare
begin

text \<open>
  A model of the core of the Inrun operator runtime (Go): what happens to a custom resource
  between an informer event and its reconcile, and how a CRD's queue, workers, health and
  capacity react to it.

  The program.  An Inrun process runs one operator per CRD of a catalog.  Each CRD has an
  informer, a work queue, a pool of workers behind a semaphore, a health record and an
  autoscaler.  An event passes the namespace filter and the enqueue gate, gets an identity and
  the sentinel values of the update, and is queued.  A worker takes the item, asks the reconcile
  gate, prepares the object (normalize, mutate, validate, namespace guard), runs the cleanup
  gate and maintenance, calls the reconciler, and settles the item: forget, retry with
  back-off, or schedule again.  The dependency graph decides the order in which CRDs start.

  Theories, in the order they build on each other:
    GoPrelude, GoLib: generic lemmas; the interface \<open>invariant_machine\<close> of a state machine with
      an invariant; the string, integer and float functions of the Go library.
    GoValues: dynamic values (\<^verbatim>\<open>interface{}\<close>) and their text (\<^verbatim>\<open>pkg/note\<close>, \<^verbatim>\<open>pkg/types\<close>).
    NestedPaths: reading and writing at dotted paths (\<^verbatim>\<open>pkg/utils/nested.go\<close>, the patch and
      normalize setters, \<^verbatim>\<open>NavigateDotPath\<close>).
    CondStrings, Conditions: the condition language (\<^verbatim>\<open>pkg/types/when.go\<close>, \<^verbatim>\<open>conditions.go\<close>).
    Validation: validation rules, the deny and warn run (\<^verbatim>\<open>validation_eval.go\<close>,
      \<^verbatim>\<open>prepare/validation.go\<close>) and the template resolver.
    Mutation: mutation and normalization of the prepare stage (\<^verbatim>\<open>prepare/mutation.go\<close>,
      \<^verbatim>\<open>normalize.go\<close>).
    Dependencies: the dependency graph and its orders (\<^verbatim>\<open>pkg/catalog/dependencies.go\<close>).
    WorkQueue: the queue over client-go's, its limits, event identities and sentinel payloads,
      and the registry (\<^verbatim>\<open>pkg/runtime/queue\<close>).
    Namespaces: the namespace lists and the guards that read them.
    Gates: the effective operatorBox and every gate of the catalog
      (\<^verbatim>\<open>pkg/catalog/pre_reconcile.go\<close>, \<^verbatim>\<open>requeue.go\<close>, \<^verbatim>\<open>types_operatorbox.go\<close>).
    Informer: sentinels, admission and the event handlers (\<^verbatim>\<open>pkg/runtime/informer\<close>,
      \<^verbatim>\<open>pkg/runtime/sentinel\<close>).
    Semaphore, Autoscaler: the resizable semaphore and the loop that overrides and restores
      workers, queue limit and resync (\<^verbatim>\<open>pkg/runtime/autoscaler\<close>).
    Health: the health record of a CRD and the dependency checker (\<^verbatim>\<open>vitals/crd_health.go\<close>,
      \<^verbatim>\<open>runtime_dependency_checker.go\<close>).
    Worker: a turn of the worker loop with the item pipeline and the cleanup gate
      (\<^verbatim>\<open>coordinator/worker.go\<close>, \<^verbatim>\<open>cleanup.go\<close>, \<^verbatim>\<open>runners.go\<close>).
    Lifecycle: which CRDs run: the start-up pass of \<^verbatim>\<open>Coordinate\<close> over the order of
      Dependencies, and the retry loop that deactivates and activates CRDs as they disappear and
      come back (\<^verbatim>\<open>coordinator.go\<close>, \<^verbatim>\<open>start.go\<close>, \<^verbatim>\<open>post_start_hooks.go\<close>).
    Drain: the workers of a deactivated CRD as a step relation over Worker's turns.
    Maintain: finalizers, labels and annotations of the resource, the patches that write them
      (\<^verbatim>\<open>coordinator/maintain\<close>, \<^verbatim>\<open>pkg/labels\<close>, \<^verbatim>\<open>kubeclient/patches.go\<close>) and the two protection
      webhooks that admit or deny an update (\<^verbatim>\<open>gateway/webhook\<close>).
    Deletion: the generic reconciler and what it does for a terminating resource: the ordered
      deletion, the owned cluster-scoped resources, the finalizers (\<^verbatim>\<open>reconcilers/generic\<close>,
      \<^verbatim>\<open>runners/cluster_scoped_deletion.go\<close>).
    Cross: reading the resources of other CRDs, from their informers or over HTTP
      (\<^verbatim>\<open>prepare/cross.go\<close>, \<^verbatim>\<open>types/cross.go\<close>, \<^verbatim>\<open>cross_oncop.go\<close>, \<^verbatim>\<open>coordinator/registry.go\<close>).
    Prepare: the stage that turns a cached resource into the prepared request, over Namespaces,
      Mutation, Validation and Cross (\<^verbatim>\<open>prepare/prepare.go\<close>).
    Post: conditions, declared status fields, events and run-time annotations after a reconcile,
      and the decision whether to patch the status (\<^verbatim>\<open>coordinator/post\<close>,
      \<^verbatim>\<open>template/resolver_status.go\<close>, \<^verbatim>\<open>kubeclient/patch_status.go\<close>).
    Spec2Isabelle: the properties that span components.

  State and operations.  Structs are records with a prefix per type, enums datatypes, nil
  pointers and maps \<open>None\<close>; each method is a function from the old state to the new one under
  the name it has in Go (\<^verbatim>\<open>Queue.Add\<close> is \<open>Add\<close>; a prefix such as \<open>wq_\<close> or \<open>gate_\<close> tells methods
  of the same name apart).  Mutexes and atomics make a method one step, so an interleaving of
  goroutines is a list of steps; \<open>invariant_machine\<close> lifts an invariant from steps to runs and
  is interpreted on the semaphore, the bounded queue, the health record, the dependency channels,
  the cleanup gate and the protected labels.  \<open>event_store\<close> is what a worker relies on in a
  queue, \<open>namespace_policy\<close> what the namespace guards promise each other.
  A deletion talks to an API server whose answers depend on the time (\<open>cluster\<close>); \<open>staged\<close> is
  the relation of the event logs an ordered deletion may leave.
  Errors are sums, panics \<open>None\<close> or an outcome of their own.  Queue limits and event
  identities are machine words of the width they have in Go.  \<^verbatim>\<open>StartupOrder\<close> is a partial
  function; \<open>startup_order_correct\<close> shows that it returns for every graph the constructor
  builds.  The wait of an ordered deletion ends because each poll moves the clock towards the
  deadline.  No definition needs fuel.

  Parameters.  \<open>goenv\<close>: regular expressions, float parsing and formatting, quoting, the cron
  library.  The execution of a template (\<^verbatim>\<open>text/template\<close>) in \<open>resolver\<close>.  \<open>client_queue\<close>:
  client-go's queue, with a list queue in the witnesses.  \<open>api_server\<close>: merge patches (RFC 7386)
  and deletions; \<open>rfc3339\<close>: time stamps.  External calls; cross-operator fetches.  Where a
  property rests on documented behaviour of one of them the behaviour is a named hypothesis.

  What the lemmas show.  Values: setters and getters agree at every path, condition rules and
  validation rules agree on plain values and part on absent fields.  Ordering: start-up and
  shutdown orders are complete, respect dependencies and depend on the graph alone.
  Bounds: queue depth, semaphore tokens, cron windows.  Histories: health and the counters are
  functions of the reconcile outcomes; a cleanup waits for its grace period.  Isolation: an item
  is settled exactly once and never touches another CRD.  Composition: a reconciler that always
  fails is contained; an item requeued behind a sentinel gate is never reconciled.  Several
  properties state behaviour that departs from the comments or intent of the code; the
  manifest lists them as findings.

  Not modelled.  The client-go informers, caches and watches, the observers of secondary
  resources, goroutine scheduling itself, the rendering of templates and the resource packages
  that apply them, catalog loading and its static validation, the HTTP gateway, the clients of
  external systems, metrics and logging, the command line, the console and the developer tools.
  They are I/O around third-party libraries, field-by-field conversion of Kubernetes types, or
  offline tools.
\<close>

section \<open>A reconciler that always fails\<close>

text \<open>A reconciler that panics or returns an error whatever it is asked to reconcile.\<close>

definition always_fails :: "reconciler \<Rightarrow> bool" where
  "always_fails rec \<longleftrightarrow>
     (\<forall>key p. case rec key p of Panicked _ \<Rightarrow> True | Returned _ err \<Rightarrow> err \<noteq> None)"

text \<open>A pass no earlier stage ends: the item gets as far as the reconciler.\<close>

definition reaches_reconciler :: "string \<Rightarrow> pass \<times> queue_item \<Rightarrow> bool" where
  "reaches_reconciler gvk = (\<lambda>(ps, item).
     \<not> ps_cancelled ps \<and> qi_gvk item = gvk \<and> qi_key item \<noteq> drainSentinel \<and> ps_entry ps = Some False \<and>
     ps_maintain ps False = None \<and>
     (case ps_prepare ps of Inr (Some p) \<Rightarrow> pr_cleanup p = None | _ \<Rightarrow> False))"

definition process_items ::
  "'q client_queue \<Rightarrow> rfc3339 \<Rightarrow> goenv \<Rightarrow> string \<Rightarrow> (pass \<times> queue_item) list \<Rightarrow> 'q controller \<Rightarrow> 'q controller" where
  "process_items ops clk E gvk calls k =
     foldl (\<lambda>k (ps, item). processItemForGVK ops clk E ps gvk item k) k calls"

lemma failing_pass:
  assumes "always_fails rec" "k_reconcilers k gvk = Some rec" "reaches_reconciler gvk (ps, item)"
  shows "\<exists>err. let k' = processItemForGVK ops clk E ps gvk item k in
    k_health k' = (k_health k)(gvk := RecordFailure (now_ns (ps_now ps)) err (k_threshold k gvk) (k_health k gvk)) \<and>
    k_failed k' = (k_failed k)(gvk := k_failed k gvk + 1) \<and>
    worker_queue gvk k' = AddRateLimited ops item (worker_queue gvk k) \<and>
    k_reconcilers k' = k_reconcilers k \<and> k_threshold k' = k_threshold k"
proof -
  obtain p where p: "ps_prepare ps = Inr (Some p)" "pr_cleanup p = None"
    using assms(3) by (auto simp: reaches_reconciler_def split: sum.splits option.splits)
  have "evaluateCleanup clk (ps_api ps) E (ps_now ps) (pr_data p) (pr_eval p) (pr_cleanup p) (pr_object p) =
      (pr_object p, Inr (False, 0))"
    by (simp add: evaluateCleanup_def HasCleanup_def p)
  moreover have "case rec (qi_key item) (Some p) of Panicked _ \<Rightarrow> True | Returned _ err \<Rightarrow> err \<noteq> None"
    using assms(1) by (simp add: always_fails_def)
  ultimately show ?thesis
    using assms(2,3) p(1)
    by (cases "rec (qi_key item) (Some p)")
      (auto simp: reaches_reconciler_def processItemForGVK_def maintain_item_def reconcile_item_def safeReconcile_def
        runPost_def Let_def step_simps)
qed

lemma failing_passes:
  assumes "always_fails rec" "k_reconcilers k gvk = Some rec" "list_all (reaches_reconciler gvk) calls"
  shows "let k' = process_items ops clk E gvk calls k; h' = k_health k' gvk; n = int (length calls) in
    h_consecutive h' = h_consecutive (k_health k gvk) + n \<and>
    h_started h' = h_started (k_health k gvk) \<and>
    (calls \<noteq> [] \<longrightarrow> k_threshold k gvk \<le> h_consecutive h' \<longrightarrow> h_degraded h' \<and> \<not> h_healthy h' \<and> \<not> h_pending h') \<and>
    k_failed k' gvk = k_failed k gvk + n \<and>
    Sentinels (worker_queue gvk k') = Sentinels (worker_queue gvk k) \<and>
    k_reconcilers k' = k_reconcilers k \<and> k_threshold k' = k_threshold k"
  using assms(3)
proof (induction calls rule: rev_induct)
  case Nil
  then show ?case by (simp add: process_items_def)
next
  case (snoc call calls)
  obtain ps item where call: "call = (ps, item)" by (cases call)
  let ?k = "process_items ops clk E gvk calls k"
  note IH = snoc.IH [unfolded Let_def]
  have rec: "k_reconcilers ?k gvk = Some rec"
    using IH snoc.prems assms(2) by simp
  from failing_pass [OF assms(1) rec, of ps item ops clk E] snoc.prems
  obtain err where step:
    "k_health (processItemForGVK ops clk E ps gvk item ?k) =
       (k_health ?k)(gvk := RecordFailure (now_ns (ps_now ps)) err (k_threshold ?k gvk) (k_health ?k gvk))"
    "k_failed (processItemForGVK ops clk E ps gvk item ?k) = (k_failed ?k)(gvk := k_failed ?k gvk + 1)"
    "worker_queue gvk (processItemForGVK ops clk E ps gvk item ?k) = AddRateLimited ops item (worker_queue gvk ?k)"
    "k_reconcilers (processItemForGVK ops clk E ps gvk item ?k) = k_reconcilers ?k"
    "k_threshold (processItemForGVK ops clk E ps gvk item ?k) = k_threshold ?k"
    by (auto simp: call Let_def)
  have last: "process_items ops clk E gvk (calls @ [call]) k = processItemForGVK ops clk E ps gvk item ?k"
    by (simp add: process_items_def call)
  have payload: "Sentinels (AddRateLimited ops item wq) = Sentinels wq" for wq :: "'a workqueue"
    by (simp add: Sentinels_def AddRateLimited_def fun_eq_iff)
  show ?case
    using IH snoc.prems by (simp add: last step payload RecordFailure_def Let_def)
qed

text \<open>
  C19. A reconciler that always fails, by error or by panic, is contained: when the items that
  reached it, plus the failures before them, are as many as the failure threshold, its started
  CRD is reported degraded with status 503, each of them counted as failed, and no item
  lost its sentinel payload.
\<close>
theorem failing_reconciler_degrades:
  assumes "always_fails rec" "k_reconcilers k gvk = Some rec" "list_all (reaches_reconciler gvk) calls"
    and "calls \<noteq> []" "k_threshold k gvk \<le> h_consecutive (k_health k gvk) + int (length calls)"
    and "h_started (k_health k gvk)"
  shows "let k' = process_items ops clk E gvk calls k in
    StateAndStatus (Some (k_health k' gvk)) = (''degraded'', 503) \<and>
    k_failed k' gvk = k_failed k gvk + int (length calls) \<and>
    Sentinels (worker_queue gvk k') = Sentinels (worker_queue gvk k)"
  using failing_passes [OF assms(1-3), of ops clk E] assms(4-6)
  by (auto simp: Let_def StateAndStatus_def)

theorem failing_reconciler_degrades_witness:
  "let k = (sample_controller panics)\<lparr>k_health := (\<lambda>name. SetStarted 0 (NewCRDHealth name))\<rparr>;
       ps = (sample_pass [])\<lparr>ps_prepare := Inr (Some ((sample_prepared [])\<lparr>pr_cleanup := None\<rparr>))\<rparr>;
       k' = process_items list_queue_ops sample_rfc sample_env ''db'' (replicate 3 (ps, sample_item)) k
   in StateAndStatus (Some (k_health k' ''db'')) = (''degraded'', 503)"
proof -
  let ?k = "(sample_controller panics)\<lparr>k_health := (\<lambda>name. SetStarted 0 (NewCRDHealth name))\<rparr>"
  let ?ps = "(sample_pass [])\<lparr>ps_prepare := Inr (Some ((sample_prepared [])\<lparr>pr_cleanup := None\<rparr>))\<rparr>"
  have rec: "always_fails panics" "k_reconcilers ?k ''db'' = Some panics"
    by (simp_all add: always_fails_def panics_def sample_controller_def)
  have reach: "list_all (reaches_reconciler ''db'') (replicate 3 (?ps, sample_item))"
    by (simp add: reaches_reconciler_def sample_pass_def sample_item_def normal_item_def drainSentinel_def
        list_all_iff)
  have started: "h_started (k_health ?k ''db'')"
    "k_threshold ?k ''db'' \<le> h_consecutive (k_health ?k ''db'') + int (length (replicate 3 (?ps, sample_item)))"
    by (simp_all add: SetStarted_def NewCRDHealth_def sample_controller_def Let_def)
  show ?thesis
    using failing_reconciler_degrades [OF rec reach _ started(2,1), of list_queue_ops sample_rfc sample_env]
    by (simp add: Let_def)
qed

section \<open>A gate that reads the event\<close>

text \<open>A pass whose gate is the catalog's evaluation of the object.\<close>

definition catalog_pass :: "'h catalog \<Rightarrow> string \<Rightarrow> gate_object \<Rightarrow> pass \<Rightarrow> bool" where
  "catalog_pass cat gvk ob ps \<longleftrightarrow>
     \<not> ps_cancelled ps \<and> ps_entry ps = Some True \<and> ps_has_object ps \<and>
     ps_allowed ps = (\<lambda>s. EvaluatePreReconcile cat (ps_now ps) gvk (Some ob) \<lparr>eo_events = [], eo_sentinels = s\<rparr>)"

definition own_item :: "string \<Rightarrow> queue_item \<Rightarrow> bool" where
  "own_item gvk item \<longleftrightarrow> qi_gvk item = gvk \<and> qi_key item \<noteq> drainSentinel"

lemma no_payload_is_gated:
  assumes "effectiveBox cat (Some ob) gvk = Some box" "ob_pre box = Some c" "pc_reconcile c = Some g"
    and "gc_sentinels g \<noteq> []" "gc_external g = []" "pc_external c = []" "go_resolver ob \<noteq> None"
    and "catalog_pass cat gvk ob ps" "own_item gvk item" "k_reconcilers k gvk \<noteq> None"
    and "Sentinels (worker_queue gvk k) item = None"
  shows "processItemForGVK ops clk E ps gvk item k =
    on_queue gvk (Forget ops item) (on_crd_health gvk (RecordGated []) k)"
  using assms(8-11) sentinel_gate_verdict [OF assms(1-7), of "ps_now ps" "\<lparr>eo_events = [], eo_sentinels = None\<rparr>"]
  by (auto simp: processItemForGVK_def catalog_pass_def own_item_def evaluatePreReconcileCheck_def
      SentinelsAllowed_iff)



section \<open>A resource that its clean-up deleted\<close>

text \<open>A pass on a terminating resource whose clean-up is due.\<close>

definition cleanup_due :: "rfc3339 \<Rightarrow> goenv \<Rightarrow> string \<Rightarrow> pass \<Rightarrow> queue_item \<Rightarrow> bool" where
  "cleanup_due clk E gvk ps item \<longleftrightarrow>
     \<not> ps_cancelled ps \<and> own_item gvk item \<and> ps_entry ps = Some False \<and> ps_maintain ps True = None \<and>
     (case ps_prepare ps of
        Inr (Some p) \<Rightarrow> cr_deleting (pr_object p) \<and>
          snd (evaluateCleanup clk (ps_api ps) E (ps_now ps) (pr_data p) (pr_eval p) (pr_cleanup p) (pr_object p)) =
            Inr (True, 0)
      | _ \<Rightarrow> False)"

lemma evaluateCleanup_triggered:
  assumes "evaluateCleanup clk api E now data ev c obj = (obj', Inr (True, w))"
  shows "obj' = obj"
  using assms by (auto simp: evaluateCleanup_def Let_def split: if_splits option.splits prod.splits)


definition terminating_sample :: prepared_request where
  "terminating_sample = (sample_prepared ''Done'')
     \<lparr>pr_object := (pr_object (sample_prepared ''Done''))\<lparr>cr_deleting := True\<rparr>,
      pr_cleanup := Some \<lparr>cl_when = cl_when done_cleanup, cl_or = [], cl_delete_after = 0\<rparr>\<rparr>"


section \<open>A resource that is denied while it is deleted\<close>

text \<open>
  C9. A resource that its validation rules deny is never finalized: the rules run on a resource
  in deletion as on any other, so as long as they deny it every pass is a failed one that retries
  the item before the cleanup, the finalizers and the reconciler are reached.
\<close>
theorem denied_resource_is_never_finalized:
  assumes "fst (Prepare pe crd (Cached c)) = Failed (Denied d) v"
    and "prepare_outcome txt (fst (Prepare pe crd (Cached (in_deletion c)))) = Some (ps_prepare ps)"
    and "\<not> ps_cancelled ps" "own_item gvk item" "ps_entry ps = Some False" "k_reconcilers k gvk = Some rec"
  shows "processItemForGVK ops clk E ps gvk item k = retry_item ops gvk item k"
  using assms(2-) denied_in_deletion [OF assms(1)]
  by (auto simp: prepare_outcome_def processItemForGVK_def own_item_def Let_def dest: sym)

theorem denied_resource_is_never_finalized_witness:
  "\<exists>e. processItemForGVK list_queue_ops sample_rfc sample_env ((sample_pass ''Running'')\<lparr>ps_prepare := Inl e\<rparr>)
      ''db'' sample_item (sample_controller succeeds) =
    retry_item list_queue_ops ''db'' sample_item (sample_controller succeeds) \<and>
    prepare_outcome (\<lambda>_. e) (fst (Prepare sample_prepare_env (replicas_crd ActDeny) (Cached (in_deletion bare_resource)))) =
      Some (Inl e)"
proof -
  obtain d v where d: "fst (Prepare sample_prepare_env (replicas_crd ActDeny) (Cached bare_resource)) = Failed (Denied d) v"
    using replicas_denied validation_verdict_without_mutation [OF replicas_without_calls] by metis
  let ?ps = "(sample_pass ''Running'')\<lparr>ps_prepare := Inl ''denied''\<rparr>"
  have "prepare_outcome (\<lambda>_. ''denied'')
      (fst (Prepare sample_prepare_env (replicas_crd ActDeny) (Cached (in_deletion bare_resource)))) = Some (ps_prepare ?ps)"
    by (simp add: denied_in_deletion [OF d] prepare_outcome_def)
  moreover from this have "processItemForGVK list_queue_ops sample_rfc sample_env ?ps ''db'' sample_item
      (sample_controller succeeds) = retry_item list_queue_ops ''db'' sample_item (sample_controller succeeds)"
    by (rule denied_resource_is_never_finalized [OF d])
      (simp_all add: sample_pass_def own_item_def sample_item_def normal_item_def drainSentinel_def sample_controller_def)
  ultimately show ?thesis by auto
qed



end
